theory Spec2Isabelle
  imports Main "HOL-Library.Sublist"
begin

section \<open>Python strings\<close>

text \<open>
  A Python \<open>str\<close> is a \<open>string\<close> (a list of characters). The functions below are the
  string operations of the standard library that \<open>worker.py\<close>, \<open>app.py\<close> and
  \<open>mqtt_client.py\<close> call, written for ASCII text.
\<close>

text \<open>\<open>sub in s\<close>: \<open>sub\<close> is a contiguous part of \<open>s\<close>.\<close>

fun str_contains :: "string \<Rightarrow> string \<Rightarrow> bool" where
  "str_contains sub [] = (sub = [])"
| "str_contains sub (x # xs) = (prefix sub (x # xs) \<or> str_contains sub xs)"

text \<open>\<open>s.endswith(suf)\<close>.\<close>

definition endswith :: "string \<Rightarrow> string \<Rightarrow> bool" where
  "endswith s suf = suffix suf s"

text \<open>\<open>s.lower()\<close> on ASCII letters.\<close>

definition lower_char :: "char \<Rightarrow> char" where
  "lower_char c =
     (case map_of (zip ''ABCDEFGHIJKLMNOPQRSTUVWXYZ'' ''abcdefghijklmnopqrstuvwxyz'') c of
        Some d \<Rightarrow> d
      | None \<Rightarrow> c)"

definition lower :: "string \<Rightarrow> string" where
  "lower s = map lower_char s"

text \<open>\<open>sep.join(xs)\<close>.\<close>

fun join :: "string \<Rightarrow> string list \<Rightarrow> string" where
  "join sep [] = []"
| "join sep [x] = x"
| "join sep (x # y # ys) = x @ sep @ join sep (y # ys)"

text \<open>
  \<open>s.split(sep)\<close> for a separator of one character: the pieces between the separators,
  always at least one piece.
\<close>

fun split_on :: "char \<Rightarrow> string \<Rightarrow> string list" where
  "split_on c [] = [[]]"
| "split_on c (x # xs) =
     (if x = c then [] # split_on c xs
      else (case split_on c xs of [] \<Rightarrow> [[x]] | w # ws \<Rightarrow> (x # w) # ws))"

text \<open>
  \<open>s.splitlines()\<close>: the line boundaries are \<open>\n\<close>, \<open>\r\<close>, \<open>\r\n\<close>, \<open>\v\<close>, \<open>\f\<close> and
  the separators \<open>\x1c\<close>, \<open>\x1d\<close>, \<open>\x1e\<close>; a last line without a boundary is kept when it
  is not empty. \<open>cur\<close> is the line read so far, reversed.
\<close>

definition is_linebreak :: "char \<Rightarrow> bool" where
  "is_linebreak c = ((of_char c :: nat) \<in> {10, 11, 12, 13, 28, 29, 30})"

fun splitlines_from :: "string \<Rightarrow> string \<Rightarrow> string list" where
  "splitlines_from cur [] = (if cur = [] then [] else [rev cur])"
| "splitlines_from cur [x] =
     (if is_linebreak x then [rev cur] else [rev (x # cur)])"
| "splitlines_from cur (x # y # ys) =
     (if (of_char x :: nat) = 13 \<and> (of_char y :: nat) = 10 then rev cur # splitlines_from [] ys
      else if is_linebreak x then rev cur # splitlines_from [] (y # ys)
      else splitlines_from (x # cur) (y # ys))"

definition splitlines :: "string \<Rightarrow> string list" where
  "splitlines s = splitlines_from [] s"

text \<open>\<open>xs[-n:]\<close> for a positive \<open>n\<close>: the last \<open>n\<close> elements, all of them when there are fewer.\<close>

definition last_n :: "nat \<Rightarrow> 'a list \<Rightarrow> 'a list" where
  "last_n n xs = drop (length xs - n) xs"

text \<open>\<open>str(n)\<close> for an integer: decimal digits, a minus sign first when negative.\<close>

definition digit_char :: "nat \<Rightarrow> char" where
  "digit_char d = ''0123456789'' ! (d mod 10)"

function show_nat :: "nat \<Rightarrow> string" where
  "show_nat n = (if n < 10 then [digit_char n] else show_nat (n div 10) @ [digit_char (n mod 10)])"
  by pat_completeness auto
termination
  by (relation "measure (\<lambda>n. n)") auto

declare show_nat.simps [simp del]

definition show_int :: "int \<Rightarrow> string" where
  "show_int i = (if i < 0 then CHR ''-'' # show_nat (nat (- i)) else show_nat (nat i))"

text \<open>\<open>s.rfind(c)\<close> for one character: the last index of \<open>c\<close>, or \<open>None\<close> for Python's -1.\<close>

fun rfind :: "char \<Rightarrow> string \<Rightarrow> nat option" where
  "rfind c [] = None"
| "rfind c (x # xs) =
     (case rfind c xs of
        Some i \<Rightarrow> Some (Suc i)
      | None \<Rightarrow> if x = c then Some 0 else None)"

subsection \<open>Paths\<close>

text \<open>
  \<open>os.path.splitext(p)\<close> (posixpath): the extension starts at the last dot of the last
  component, unless only dots stand between the start of that component and that dot.
\<close>

definition splitext :: "string \<Rightarrow> string \<times> string" where
  "splitext p =
     (let sepIndex = (case rfind CHR ''/'' p of None \<Rightarrow> 0 | Some i \<Rightarrow> Suc i) in
      case rfind CHR ''.'' p of
        None \<Rightarrow> (p, [])
      | Some dotIndex \<Rightarrow>
          if sepIndex \<le> dotIndex \<and>
             (\<exists>c \<in> set (take (dotIndex - sepIndex) (drop sepIndex p)). c \<noteq> CHR ''.'')
          then (take dotIndex p, drop dotIndex p)
          else (p, []))"

text \<open>\<open>os.path.join(a, b)\<close> (posixpath) for two arguments.\<close>

definition path_join :: "string \<Rightarrow> string \<Rightarrow> string" where
  "path_join a b =
     (if prefix ''/'' b then b
      else if a = [] \<or> endswith a ''/'' then a @ b
      else a @ ''/'' @ b)"

text \<open>
  \<open>pathlib.PurePosixPath(p).name\<close>: the last component of the path, where empty
  components and \<open>.\<close> components do not count; \<open>PurePosixPath(p).stem\<close>: the name without
  its last suffix.
\<close>

definition path_parts :: "string \<Rightarrow> string list" where
  "path_parts p = filter (\<lambda>c. c \<noteq> [] \<and> c \<noteq> ''.'') (split_on CHR ''/'' p)"

definition path_name :: "string \<Rightarrow> string" where
  "path_name p = (case rev (path_parts p) of [] \<Rightarrow> [] | n # _ \<Rightarrow> n)"

definition path_stem :: "string \<Rightarrow> string" where
  "path_stem p =
     (let name = path_name p in
      case rfind CHR ''.'' name of
        None \<Rightarrow> name
      | Some i \<Rightarrow> if 0 < i \<and> i < length name - 1 then take i name else name)"

text \<open>\<open>os.path.dirname(p)\<close> (posixpath).\<close>

definition dirname :: "string \<Rightarrow> string" where
  "dirname p =
     (let i = (case rfind CHR ''/'' p of None \<Rightarrow> 0 | Some i \<Rightarrow> Suc i);
          head = take i p
      in if head \<noteq> [] \<and> head \<noteq> replicate (length head) CHR ''/''
         then rev (dropWhile (\<lambda>c. c = CHR ''/'') (rev head))
         else head)"

section \<open>Python values\<close>

text \<open>
  The values that travel as dictionaries in the source (a job's result, an MQTT message, an
  HTTP response body): \<open>None\<close>, booleans, integers, strings, lists, and dictionaries
  with string keys, kept as association lists in insertion order.
\<close>

datatype pyval =
    PNone
  | PBool bool
  | PInt int
  | PStr string
  | PList "pyval list"
  | PDict "(string \<times> pyval) list"

text \<open>\<open>d.get(k)\<close> and \<open>d.get(k, default)\<close> on the entries of a dictionary.\<close>

definition dict_get :: "(string \<times> pyval) list \<Rightarrow> string \<Rightarrow> pyval" where
  "dict_get d k = (case map_of d k of None \<Rightarrow> PNone | Some v \<Rightarrow> v)"

definition dict_get_default :: "(string \<times> pyval) list \<Rightarrow> string \<Rightarrow> pyval \<Rightarrow> pyval" where
  "dict_get_default d k dflt = (case map_of d k of None \<Rightarrow> dflt | Some v \<Rightarrow> v)"

text \<open>The truth value of a Python value (\<open>if v:\<close>).\<close>

fun truthy :: "pyval \<Rightarrow> bool" where
  "truthy PNone = False"
| "truthy (PBool b) = b"
| "truthy (PInt i) = (i \<noteq> 0)"
| "truthy (PStr s) = (s \<noteq> [])"
| "truthy (PList xs) = (xs \<noteq> [])"
| "truthy (PDict kvs) = (kvs \<noteq> [])"

text \<open>
  \<open>repr\<close> of a string: single quotes, unless the string has a single quote and no double
  quote; backslash, the quote and the control characters are escaped.
\<close>

definition hex_digit :: "nat \<Rightarrow> char" where
  "hex_digit d = ''0123456789abcdef'' ! (d mod 16)"

definition repr_char :: "char \<Rightarrow> char \<Rightarrow> string" where
  "repr_char q c =
     (let n = (of_char c :: nat) in
      if c = q \<or> c = CHR 0x5C then [CHR 0x5C, c]
      else if n = 10 then [CHR 0x5C, CHR ''n'']
      else if n = 13 then [CHR 0x5C, CHR ''r'']
      else if n = 9 then [CHR 0x5C, CHR ''t'']
      else if n < 32 \<or> n = 127 then [CHR 0x5C, CHR ''x'', hex_digit (n div 16), hex_digit n]
      else [c])"

definition repr_str :: "string \<Rightarrow> string" where
  "repr_str s =
     (let q = (if CHR 0x27 \<in> set s \<and> CHR 0x22 \<notin> set s then CHR 0x22 else CHR 0x27)
      in [q] @ concat (map (repr_char q) s) @ [q])"

text \<open>\<open>str(v)\<close> of a list or dictionary, which is its \<open>repr\<close>.\<close>

fun py_repr :: "pyval \<Rightarrow> string" where
  "py_repr PNone = ''None''"
| "py_repr (PBool b) = (if b then ''True'' else ''False'')"
| "py_repr (PInt i) = show_int i"
| "py_repr (PStr s) = repr_str s"
| "py_repr (PList xs) = ''['' @ join '', '' (map py_repr xs) @ '']''"
| "py_repr (PDict kvs) =
     ''{'' @ join '', '' (map (\<lambda>kv. repr_str (fst kv) @ '': '' @ py_repr (snd kv)) kvs) @ ''}''"

text \<open>
  \<open>json.dumps(v)\<close> with the default separators: strings in double quotes with the JSON
  escapes, control characters as \<open>\u00XX\<close>.
\<close>

definition json_char :: "char \<Rightarrow> string" where
  "json_char c =
     (let n = (of_char c :: nat) in
      if n = 34 then [CHR 0x5C, CHR 0x22]
      else if n = 92 then [CHR 0x5C, CHR 0x5C]
      else if n = 10 then [CHR 0x5C, CHR ''n'']
      else if n = 13 then [CHR 0x5C, CHR ''r'']
      else if n = 9 then [CHR 0x5C, CHR ''t'']
      else if n = 8 then [CHR 0x5C, CHR ''b'']
      else if n = 12 then [CHR 0x5C, CHR ''f'']
      else if n < 32 \<or> 127 \<le> n
        then [CHR 0x5C, CHR ''u'', CHR ''0'', CHR ''0'', hex_digit (n div 16), hex_digit n]
      else [c])"

definition json_str :: "string \<Rightarrow> string" where
  "json_str s = [CHR 0x22] @ concat (map json_char s) @ [CHR 0x22]"

fun json_dumps :: "pyval \<Rightarrow> string" where
  "json_dumps PNone = ''null''"
| "json_dumps (PBool b) = (if b then ''true'' else ''false'')"
| "json_dumps (PInt i) = show_int i"
| "json_dumps (PStr s) = json_str s"
| "json_dumps (PList xs) = ''['' @ join '', '' (map json_dumps xs) @ '']''"
| "json_dumps (PDict kvs) =
     ''{'' @ join '', '' (map (\<lambda>kv. json_str (fst kv) @ '': '' @ json_dumps (snd kv)) kvs) @ ''}''"

section \<open>Exceptions\<close>

text \<open>
  The exception classes the handlers of the source tell apart; each carries what \<open>str(e)\<close>
  needs. All four are subclasses of \<open>Exception\<close>, so \<open>except Exception\<close> catches every
  one of them. \<open>HTTPException code message\<close> is what \<open>api.abort(code, message)\<close> raises.
\<close>

datatype exc =
    ImportError string
  | TimeoutExpired string
  | HTTPException nat string
  | OtherError string

text \<open>The name and description werkzeug gives the status codes the source aborts with.\<close>

definition http_name :: "nat \<Rightarrow> string" where
  "http_name c =
     (if c = 400 then ''Bad Request''
      else if c = 403 then ''Forbidden''
      else if c = 404 then ''Not Found''
      else if c = 500 then ''Internal Server Error''
      else ''Unknown Error'')"

definition http_description :: "nat \<Rightarrow> string" where
  "http_description c =
     (if c = 400
        then ''The browser (or proxy) sent a request that this server could not understand.''
      else if c = 403
        then ''You don't have the permission to access the requested resource. '' @
             ''It is either read-protected or not readable by the server.''
      else if c = 404
        then ''The requested URL was not found on the server. '' @
             ''If you entered the URL manually please check your spelling and try again.''
      else if c = 500
        then ''The server encountered an internal error and was unable to complete your '' @
             ''request. Either the server is overloaded or there is an error in the application.''
      else [])"

fun exc_str :: "exc \<Rightarrow> string" where
  "exc_str (ImportError m) = m"
| "exc_str (TimeoutExpired m) = m"
| "exc_str (HTTPException c m) = show_nat c @ '' '' @ http_name c @ '': '' @ http_description c"
| "exc_str (OtherError m) = m"

section \<open>The progress channel (mqtt\_client.py)\<close>

subsection \<open>The publishing side\<close>

text \<open>
  What a worker process can change: the messages it has handed to the MQTT client, and
  the files and directories that exist. \<open>clock\<close> is the time in seconds; a published
  message is logged with the time of the call, its topic and its payload (the dictionary
  that \<open>json.dumps\<close> serialises).
\<close>

record published =
  at :: nat
  topic :: string
  payload :: "(string \<times> pyval) list"

record world =
  connected :: bool
  clock :: nat
  outbox :: "published list"
  fs :: "string list"

text \<open>
  \<open>datetime.now(timezone.utc).isoformat()\<close>: the reading of the clock as text. Nothing in
  the source reads a timestamp back, so the model renders the seconds in decimal.
\<close>

definition isoformat :: "nat \<Rightarrow> string" where
  "isoformat t = show_nat t"

text \<open>
  \<open>MQTTProgressManager.publish_progress\<close> and \<open>publish_status\<close>: nothing when not
  connected; the \<open>error\<close> key is added only for a non-empty error (\<open>if error:\<close>).
\<close>

definition publish_progress ::
  "string \<Rightarrow> int \<Rightarrow> string \<Rightarrow> string \<Rightarrow> string option \<Rightarrow> world \<Rightarrow> world" where
  "publish_progress user_id progress status message error w =
     (if \<not> connected w then w
      else
        let topic = ''freecad/progress/'' @ user_id;
            data = [(''user_id'', PStr user_id),
                    (''progress'', PInt progress),
                    (''status'', PStr status),
                    (''message'', PStr message),
                    (''timestamp'', PStr (isoformat (clock w)))];
            data = (case error of
                      None \<Rightarrow> data
                    | Some err \<Rightarrow> if err \<noteq> [] then data @ [(''error'', PStr err)] else data)
        in w\<lparr>outbox := outbox w @ [\<lparr>at = clock w, topic = topic, payload = data\<rparr>]\<rparr>)"

definition publish_status ::
  "string \<Rightarrow> string \<Rightarrow> string \<Rightarrow> string option \<Rightarrow> world \<Rightarrow> world" where
  "publish_status user_id status message error w =
     (if \<not> connected w then w
      else
        let topic = ''freecad/status/'' @ user_id;
            data = [(''user_id'', PStr user_id),
                    (''status'', PStr status),
                    (''message'', PStr message),
                    (''timestamp'', PStr (isoformat (clock w)))];
            data = (case error of
                      None \<Rightarrow> data
                    | Some err \<Rightarrow> if err \<noteq> [] then data @ [(''error'', PStr err)] else data)
        in w\<lparr>outbox := outbox w @ [\<lparr>at = clock w, topic = topic, payload = data\<rparr>]\<rparr>)"

subsection \<open>The receiving side\<close>

text \<open>The in-memory record per owner, \<open>progress_data[user_id]\<close>, with its five keys.\<close>

record progress_rec =
  rec_status :: pyval
  rec_progress :: pyval
  rec_message :: pyval
  rec_updated_at :: pyval
  rec_error :: pyval

definition default_rec :: progress_rec where
  "default_rec =
     \<lparr>rec_status = PStr ''unknown'', rec_progress = PInt 0, rec_message = PStr [],
      rec_updated_at = PNone, rec_error = PNone\<rparr>"

type_synonym progress_data = "string \<Rightarrow> progress_rec option"

text \<open>
  \<open>key in message_data\<close> for a parsed JSON value: a key test on a dictionary, a
  substring test on a string, an element test on a list, a \<open>TypeError\<close> (\<open>None\<close> here)
  otherwise.
\<close>

fun py_in :: "string \<Rightarrow> pyval \<Rightarrow> bool option" where
  "py_in k (PDict kvs) = Some (k \<in> fst ` set kvs)"
| "py_in k (PStr s) = Some (str_contains k s)"
| "py_in k (PList xs) = Some (PStr k \<in> set xs)"
| "py_in k v = None"

text \<open>
  \<open>MQTTProgressManager._on_message\<close>. \<open>msg\<close> is the parsed payload, \<open>None\<close> when
  \<open>json.loads\<close> raises; \<open>received\<close> is the time of receipt. The whole body runs under
  \<open>try\<close>/\<open>except Exception\<close>: an exception ends the update where it stands. On a value
  that is not a dictionary, \<open>message_data[key]\<close> raises for every key that
  \<open>in\<close> finds, so such a message sets no field.
\<close>

definition on_message :: "string \<Rightarrow> pyval option \<Rightarrow> nat \<Rightarrow> progress_data \<Rightarrow> progress_data" where
  "on_message tpc msg received pd =
     (let topic_parts = split_on CHR ''/'' tpc in
      if 3 \<le> length topic_parts then
        let user_id = last topic_parts in
        case msg of
          None \<Rightarrow> pd
        | Some message_data \<Rightarrow>
            let r0 = (case pd user_id of None \<Rightarrow> default_rec | Some r \<Rightarrow> r) in
            (case message_data of
               PDict kvs \<Rightarrow>
                 let r1 = (case map_of kvs ''progress'' of
                             Some v \<Rightarrow> r0\<lparr>rec_progress := v\<rparr> | None \<Rightarrow> r0);
                     r2 = (case map_of kvs ''status'' of
                             Some v \<Rightarrow> r1\<lparr>rec_status := v\<rparr> | None \<Rightarrow> r1);
                     r3 = (case map_of kvs ''message'' of
                             Some v \<Rightarrow> r2\<lparr>rec_message := v\<rparr> | None \<Rightarrow> r2);
                     r4 = (case map_of kvs ''error'' of
                             Some v \<Rightarrow> r3\<lparr>rec_error := v\<rparr> | None \<Rightarrow> r3)
                 in pd(user_id \<mapsto> r4\<lparr>rec_updated_at := PStr (isoformat received)\<rparr>)
             | _ \<Rightarrow>
                 if list_all (\<lambda>k. py_in k message_data = Some False)
                      [''progress'', ''status'', ''message'', ''error'']
                 then pd(user_id \<mapsto> r0\<lparr>rec_updated_at := PStr (isoformat received)\<rparr>)
                 else pd(user_id \<mapsto> r0))
      else pd)"

text \<open>\<open>MQTTProgressManager.get_progress\<close>.\<close>

definition get_progress :: "progress_data \<Rightarrow> string \<Rightarrow> progress_rec option" where
  "get_progress pd user_id = pd user_id"

text \<open>
  The broker hands every message of the outbox, in order, to the subscriber's
  \<open>_on_message\<close>; the payload comes back from \<open>json.loads\<close> as the dictionary that was
  serialised.
\<close>

fun deliver :: "published list \<Rightarrow> progress_data \<Rightarrow> progress_data" where
  "deliver [] pd = pd"
| "deliver (m # ms) pd = deliver ms (on_message (topic m) (Some (PDict (payload m))) (at m) pd)"

section \<open>The worker (worker.py)\<close>

definition STORAGE_PATH :: string where
  "STORAGE_PATH = ''/app/storage''"

text \<open>\<open>str(Path(a) / b)\<close> for an absolute \<open>a\<close>: a second absolute path replaces the first.\<close>

definition pathlib_join :: "string \<Rightarrow> string \<Rightarrow> string" where
  "pathlib_join a b =
     (let p = (if prefix ''/'' b then b else a @ ''/'' @ b)
      in (if prefix ''/'' p then ''/'' else []) @ join ''/'' (path_parts p))"

subsection \<open>The file system\<close>

text \<open>
  \<open>fs\<close> lists the paths that exist. \<open>shutil.rmtree(d, ignore_errors=True)\<close> removes \<open>d\<close>
  and everything below it; \<open>os.remove\<close> removes one path; \<open>os.listdir(d)\<close> lists what
  stands directly in \<open>d\<close>.
\<close>

definition path_exists :: "world \<Rightarrow> string \<Rightarrow> bool" where
  "path_exists w p = (p \<in> set (fs w))"

definition add_path :: "string \<Rightarrow> world \<Rightarrow> world" where
  "add_path p w = w\<lparr>fs := p # fs w\<rparr>"

definition remove_path :: "string \<Rightarrow> world \<Rightarrow> world" where
  "remove_path p w = w\<lparr>fs := removeAll p (fs w)\<rparr>"

definition rmtree :: "string \<Rightarrow> world \<Rightarrow> world" where
  "rmtree d w = w\<lparr>fs := filter (\<lambda>p. p \<noteq> d \<and> \<not> prefix (d @ ''/'') p) (fs w)\<rparr>"

definition listdir :: "world \<Rightarrow> string \<Rightarrow> string list" where
  "listdir w d = filter (\<lambda>p. p \<noteq> d \<and> dirname p = d) (fs w)"

subsection \<open>The error hint\<close>

text \<open>\<open>_extract_error_hint\<close>.\<close>

definition extract_error_hint :: "string \<Rightarrow> string \<Rightarrow> string" where
  "extract_error_hint stdout_text stderr_text =
     (let text = lower (stdout_text @ [CHR 0x0A] @ stderr_text) in
      if str_contains ''modulenotfounderror'' text \<or> str_contains ''no module named'' text
        then ''ImportError: missing module. Verify FreeCadUtil and workbench imports, or sys.path.''
      else if str_contains ''attributeerror'' text \<and> str_contains ''maketub'' text
        then ''AttributeError: Part.makeTub missing. Ensure FreeCadUtil monkey patch is loaded.''
      else if str_contains ''permission denied'' text
        then ''Permission issue writing outputs. Verify container paths and permissions.''
      else if str_contains ''traceback'' text \<and> str_contains ''export'' text \<and>
              str_contains ''.step'' text
        then ''STEP export failed. Ensure shapes are valid solids and export path exists.''
      else if str_contains ''wkhtmltopdf'' text \<and> str_contains ''not found'' text
        then ''wkhtmltopdf missing. PDF generation may fail; check worker image deps.''
      else if str_contains ''precision'' text \<and> str_contains ''approximation'' text
        then ''FreeCAD Precision API mismatch. Ensure FreeCAD 0.21+/1.0 compatibility fixes are applied.''
      else ''See stdout_tail/stderr_tail for details.'')"

subsection \<open>The converters\<close>

text \<open>
  What the technical drawing generator (not part of the repository's files) does on one
  call of \<open>generate_pdf_from_step\<close>: the import fails, the temporary directory cannot be
  made, the generator raises, or it returns its result dictionary (\<open>success\<close>,
  \<open>pdf_path\<close>, \<open>message\<close>) and the copy of the PDF into storage raises or not.
\<close>

datatype pdf_outcome =
    PdfImportError string
  | PdfMkdirRaises string
  | PdfGeneratorRaises string
  | PdfResult bool "string option" string "string option"

text \<open>\<open>generate_pdf_from_step\<close>; every exception ends in a \<open>failed\<close> dictionary.\<close>

definition generate_pdf_from_step ::
  "pdf_outcome \<Rightarrow> string \<Rightarrow> string \<Rightarrow> world \<Rightarrow> (string \<times> pyval) list \<times> world" where
  "generate_pdf_from_step outcome step_file_path user_id w =
     (case outcome of
        PdfImportError m \<Rightarrow>
          ([(''status'', PStr ''failed''),
            (''error'', PStr ''PDF generation not available - technical_drawing_generator not found'')],
           w)
      | PdfMkdirRaises m \<Rightarrow>
          ([(''status'', PStr ''failed''), (''error'', PStr (''PDF generation failed: '' @ m))], w)
      | PdfGeneratorRaises m \<Rightarrow>
          ([(''status'', PStr ''failed''), (''error'', PStr (''PDF generation failed: '' @ m))],
           add_path (pathlib_join STORAGE_PATH (''pdf_user_'' @ user_id)) w)
      | PdfResult success pdf_path message copy_error \<Rightarrow>
          let pdf_output_dir = pathlib_join STORAGE_PATH (''pdf_user_'' @ user_id);
              w1 = add_path pdf_output_dir w;
              base_filename = path_stem step_file_path @ ''_'' @ user_id
          in if success \<and> pdf_path \<noteq> None \<and> pdf_path \<noteq> Some [] then
               let pdf_dest = pathlib_join STORAGE_PATH (base_filename @ ''.pdf'') in
               (case copy_error of
                  Some m \<Rightarrow>
                    ([(''status'', PStr ''failed''),
                      (''error'', PStr (''PDF generation failed: '' @ m))], w1)
                | None \<Rightarrow>
                    ([(''status'', PStr ''success''),
                      (''pdf_path'', PStr pdf_dest),
                      (''filename'', PStr (path_name pdf_dest)),
                      (''message'', PStr message)],
                     rmtree pdf_output_dir (add_path pdf_dest w1)))
             else ([(''status'', PStr ''failed''), (''error'', PStr message)], w1))"

text \<open>
  What happens on one call of \<open>generate_json_from_step\<close>: an \<open>ImportError\<close>; writing the
  converter script raises; \<open>subprocess.run\<close> raises (with the traceback text); or
  \<open>freecadcmd\<close> runs for some seconds and exits with a return code, its output, and the
  JSON file written or not. A run of more than 3600 seconds is cut by the timeout.
\<close>

datatype json_outcome =
    JsonImportError string
  | JsonWriteRaises string string
  | JsonRunRaises string string
  | JsonRuns nat int string string bool

text \<open>\<open>s[:500]\<close>.\<close>

definition first_500 :: "string \<Rightarrow> string" where
  "first_500 s = take 500 s"

definition generate_json_from_step ::
  "json_outcome \<Rightarrow> string \<Rightarrow> string \<Rightarrow> world \<Rightarrow> (string \<times> pyval) list \<times> world" where
  "generate_json_from_step outcome step_file_path user_id w =
     (let base_filename = path_stem step_file_path @ ''_'' @ user_id;
          json_dest = pathlib_join STORAGE_PATH (base_filename @ ''.json'');
          script_path = pathlib_join STORAGE_PATH (''converter_'' @ user_id @ ''.py'')
      in case outcome of
        JsonImportError m \<Rightarrow>
          ([(''status'', PStr ''failed''),
            (''error'', PStr ''JSON generation not available - step_converter not found'')], w)
      | JsonWriteRaises m tb \<Rightarrow>
          ([(''status'', PStr ''failed''),
            (''error'', PStr (''JSON generation failed: '' @ m)),
            (''traceback'', PStr tb)], w)
      | JsonRunRaises m tb \<Rightarrow>
          ([(''status'', PStr ''failed''),
            (''error'', PStr (''JSON generation failed: '' @ m)),
            (''traceback'', PStr tb)], add_path script_path w)
      | JsonRuns seconds returncode stdout stderr json_exists \<Rightarrow>
          if 3600 < seconds then
            ([(''status'', PStr ''failed''),
              (''error'', PStr (''JSON generation timed out after 1 hour. '' @
                 ''This may happen with very large/complex STEP files.'')),
              (''exception'', PStr (''Command '' @ [CHR 0x27] @
                 py_repr (PList [PStr ''freecadcmd'', PStr script_path]) @ [CHR 0x27] @
                 '' timed out after 3600 seconds''))],
             w\<lparr>clock := clock w + 3600\<rparr>)
          else
            let w1 = w\<lparr>clock := clock w + seconds\<rparr>;
                w2 = (if json_exists then add_path json_dest w1 else w1)
            in if returncode \<noteq> 0 then
                 let error_msg = ''FreeCAD command failed with return code '' @ show_int returncode;
                     error_msg = (if stderr \<noteq> [] then error_msg @ '': '' @ first_500 stderr
                                  else error_msg)
                 in ([(''status'', PStr ''failed''),
                      (''error'', PStr error_msg),
                      (''stdout'', PStr stdout),
                      (''stderr'', PStr stderr)], w2)
               else if json_exists then
                 ([(''status'', PStr ''success''),
                   (''json_path'', PStr json_dest),
                   (''filename'', PStr (path_name json_dest)),
                   (''message'', PStr ''JSON conversion completed successfully'')], w2)
               else
                 ([(''status'', PStr ''failed''),
                   (''error'', PStr (''JSON file was not created at '' @ json_dest)),
                   (''stdout'', PStr stdout),
                   (''stderr'', PStr stderr)], w2))"

subsection \<open>The heartbeat\<close>

text \<open>
  \<open>heartbeat_worker\<close>, the thread that runs beside the CAD process. \<open>t_set\<close> is the time at
  which \<open>heartbeat_stop\<close> is set, \<open>t\<close> the time of the thread, \<open>v\<close> the value of
  \<open>heartbeat_progress\<close>. \<open>heartbeat_stop.is_set()\<close> holds from \<open>t_set\<close> on;
  \<open>heartbeat_stop.wait(timeout=5)\<close> returns true when the event is set within the five
  seconds and false after the five seconds otherwise.
\<close>

function heartbeat_worker :: "nat \<Rightarrow> string \<Rightarrow> nat \<Rightarrow> int \<Rightarrow> world \<Rightarrow> int \<times> world" where
  "heartbeat_worker t_set user_id t v w =
     (if t_set \<le> t then (v, w)
      else
        let v' = min (v + 2) 35;
            w' = publish_progress user_id v' ''running''
                   (''FreeCAD script is running... (progress: '' @ show_int v' @ ''%)'') None
                   (w\<lparr>clock := t\<rparr>)
        in if t_set \<le> t + 5 then (v', w')
           else heartbeat_worker t_set user_id (t + 5) v' w')"
  by pat_completeness auto
termination
  by (relation "measure (\<lambda>(t_set, user_id, t, v, w). t_set - t)") auto

declare heartbeat_worker.simps [simp del]

subsection \<open>Artifact promotion\<close>

text \<open>
  What surrounds one run of \<open>execute_freecad_script\<close>: the UUID drawn when no owner id is
  given, whether \<open>os.makedirs\<close> raises, what the CAD process does, what \<open>os.walk\<close> yields
  in the working directory (per directory: its path and its files), whether
  \<open>/app/cad_outputs_generated\<close> exists and what \<open>os.walk\<close> yields there, whether
  \<open>shutil.copy2\<close> raises for a source and a destination, and the outcome of the two
  converters at each position of the artifact list.
\<close>

datatype proc_outcome =
    PopenRaises exc
  | Runs nat int string string

record env =
  uuid4 :: string
  makedirs_raises :: "exc option"
  process :: proc_outcome
  walk_user :: "(string \<times> string list) list"
  cad_exists :: bool
  walk_cad :: "(string \<times> string list) list"
  copy2_raises :: "string \<Rightarrow> string \<Rightarrow> exc option"
  pdf_env :: "nat \<Rightarrow> pdf_outcome"
  json_env :: "nat \<Rightarrow> json_outcome"

text \<open>
  The inner loop \<open>for file in files\<close> of the two searches (lines 322-335 and 343-362); the
  second search also removes the original (\<open>cleanup\<close>). \<open>acc\<close> is \<open>generated_files\<close>.
\<close>

fun promote_files ::
  "env \<Rightarrow> bool \<Rightarrow> string \<Rightarrow> string \<Rightarrow> string list \<Rightarrow> (string \<times> pyval) list list \<Rightarrow> world
   \<Rightarrow> (exc + (string \<times> pyval) list list) \<times> world" where
  "promote_files e cleanup user_id root [] acc w = (Inr acc, w)"
| "promote_files e cleanup user_id root (file # files) acc w =
     (if endswith file ''.step'' \<or> endswith file ''.obj'' then
        let file_path = path_join root file;
            new_filename = fst (splitext file) @ ''_'' @ user_id @ snd (splitext file);
            new_path = path_join STORAGE_PATH new_filename
        in case copy2_raises e file_path new_path of
             Some x \<Rightarrow> (Inl x, w)
           | None \<Rightarrow>
               let w1 = add_path new_path w;
                   file_type = (if endswith file ''.step'' then ''step'' else ''obj'');
                   acc1 = acc @ [[(''type'', PStr file_type),
                                  (''path'', PStr new_path),
                                  (''filename'', PStr new_filename)]];
                   w2 = (if cleanup then remove_path file_path w1 else w1)
               in promote_files e cleanup user_id root files acc1 w2
      else promote_files e cleanup user_id root files acc w)"

text \<open>The outer loop \<open>for root, dirs, files in os.walk(...)\<close>.\<close>

fun promote_walk ::
  "env \<Rightarrow> bool \<Rightarrow> string \<Rightarrow> (string \<times> string list) list \<Rightarrow> (string \<times> pyval) list list \<Rightarrow> world
   \<Rightarrow> (exc + (string \<times> pyval) list list) \<times> world" where
  "promote_walk e cleanup user_id [] acc w = (Inr acc, w)"
| "promote_walk e cleanup user_id ((root, files) # rest) acc w =
     (case promote_files e cleanup user_id root files acc w of
        (Inl x, w1) \<Rightarrow> (Inl x, w1)
      | (Inr acc1, w1) \<Rightarrow> promote_walk e cleanup user_id rest acc1 w1)"

subsection \<open>The derived artifacts\<close>

text \<open>A returned \<open>failed\<close> dictionary, with and without \<open>details\<close>.\<close>

definition failed_result :: "string \<Rightarrow> pyval" where
  "failed_result error_msg = PDict [(''status'', PStr ''failed''), (''error'', PStr error_msg)]"

definition failed_with_details :: "string \<Rightarrow> pyval \<Rightarrow> pyval" where
  "failed_with_details error_msg details =
     PDict [(''status'', PStr ''failed''), (''error'', PStr error_msg), (''details'', details)]"

text \<open>\<open>json_result.get("error", "Unknown error during JSON generation")\<close> as a string.\<close>

definition json_error_of :: "(string \<times> pyval) list \<Rightarrow> string" where
  "json_error_of json_result =
     (case dict_get_default json_result ''error'' (PStr ''Unknown error during JSON generation'') of
        PStr m \<Rightarrow> m
      | v \<Rightarrow> py_repr v)"

text \<open>
  \<open>file_info["path"]\<close> and \<open>file_info['filename']\<close> read as text; every descriptor the
  worker builds holds a string there.
\<close>

definition item_str :: "(string \<times> pyval) list \<Rightarrow> string \<Rightarrow> string" where
  "item_str d k = (case dict_get d k of PStr s \<Rightarrow> s | v \<Rightarrow> py_repr v)"

text \<open>
  The body of the loop \<open>for i, file_info in enumerate(generated_files)\<close> for a STEP
  artifact (lines 394-444). \<open>n\<close> is \<open>len(generated_files)\<close>, \<open>i\<close> the index. The result is
  \<open>Inl\<close> of the dictionary returned from inside the loop when the JSON conversion fails,
  \<open>Inr\<close> of the extended \<open>(pdf_files, json_files)\<close> otherwise.
  \<open>int((i + 1) * 20 / n)\<close> is the integer quotient.
\<close>

definition convert_step ::
  "env \<Rightarrow> string \<Rightarrow> nat \<Rightarrow> nat \<Rightarrow> (string \<times> pyval) list \<Rightarrow>
   (string \<times> pyval) list list \<Rightarrow> (string \<times> pyval) list list \<Rightarrow> world
   \<Rightarrow> (pyval + (string \<times> pyval) list list \<times> (string \<times> pyval) list list) \<times> world" where
  "convert_step e user_id n i file_info pdf_files json_files w =
     (let progress = 70 + int (((i + 1) * 20) div n);
          w1 = publish_progress user_id progress ''running''
                 (''Processing file '' @ show_nat (i + 1) @ ''/'' @ show_nat n @ '': '' @
                  item_str file_info ''filename'')
                 None w;
          step_path = item_str file_info ''path'';
          pdf = generate_pdf_from_step (pdf_env e i) step_path user_id w1;
          pdf_result = fst pdf;
          pdf_files1 =
            (if dict_get pdf_result ''status'' = PStr ''success''
             then pdf_files @ [[(''type'', PStr ''pdf''),
                                (''path'', dict_get pdf_result ''pdf_path''),
                                (''filename'', dict_get pdf_result ''filename'')]]
             else pdf_files);
          json = generate_json_from_step (json_env e i) step_path user_id (snd pdf);
          json_result = fst json
      in if dict_get json_result ''status'' = PStr ''success'' then
           (Inr (pdf_files1,
                 json_files @ [[(''type'', PStr ''json''),
                                (''path'', dict_get json_result ''json_path''),
                                (''filename'', dict_get json_result ''filename'')]]),
            snd json)
         else
           let error_msg = json_error_of json_result;
               details_payload = PDict [(''error'', PStr error_msg),
                                        (''result'', PDict json_result),
                                        (''step_file'', dict_get file_info ''path'')];
               w4 = publish_status user_id ''failed'' error_msg
                      (Some (json_dumps details_payload)) (snd json);
               w5 = publish_progress user_id 0 ''failed'' error_msg
                      (Some (json_dumps details_payload)) w4
           in (Inl (failed_with_details error_msg details_payload), w5))"

text \<open>The loop itself (lines 392-444): artifacts that are not STEP files are passed over.\<close>

fun derive ::
  "env \<Rightarrow> string \<Rightarrow> nat \<Rightarrow> nat \<Rightarrow> (string \<times> pyval) list list \<Rightarrow>
   (string \<times> pyval) list list \<Rightarrow> (string \<times> pyval) list list \<Rightarrow> world
   \<Rightarrow> (pyval + (string \<times> pyval) list list \<times> (string \<times> pyval) list list) \<times> world" where
  "derive e user_id n i [] pdf_files json_files w = (Inr (pdf_files, json_files), w)"
| "derive e user_id n i (file_info # rest) pdf_files json_files w =
     (if dict_get file_info ''type'' = PStr ''step'' then
        case convert_step e user_id n i file_info pdf_files json_files w of
          (Inl returned, w1) \<Rightarrow> (Inl returned, w1)
        | (Inr (pdf_files1, json_files1), w1) \<Rightarrow>
            derive e user_id n (Suc i) rest pdf_files1 json_files1 w1
      else derive e user_id n (Suc i) rest pdf_files json_files w)"

subsection \<open>The job\<close>

text \<open>The diagnostics of lines 295-302 and 370-377.\<close>

definition diagnostics :: "string \<Rightarrow> string \<Rightarrow> pyval" where
  "diagnostics stdout stderr =
     (let stdout_tail = last_n 50 (splitlines stdout);
          stderr_tail = last_n 50 (splitlines stderr);
          error_hint = extract_error_hint (join [CHR 0x0A] stdout_tail) (join [CHR 0x0A] stderr_tail)
      in PDict [(''error_hint'', PStr error_hint),
                (''stdout_tail'', PList (map PStr stdout_tail)),
                (''stderr_tail'', PList (map PStr stderr_tail))])"

text \<open>
  Lines 314-362, the two searches: the working directory first, and
  \<open>/app/cad_outputs_generated\<close> when that gave nothing. \<open>Inl\<close> is an exception raised by
  a copy, \<open>Inr\<close> is \<open>generated_files\<close>.
\<close>

definition find_generated_files ::
  "env \<Rightarrow> string \<Rightarrow> world \<Rightarrow> (exc + (string \<times> pyval) list list) \<times> world" where
  "find_generated_files e user_id w =
     (let w1 = publish_progress user_id 50 ''running'' ''Searching for generated files...'' None w
      in case promote_walk e False user_id (walk_user e) [] w1 of
           (Inl x, w2) \<Rightarrow> (Inl x, w2)
         | (Inr found, w2) \<Rightarrow>
             if found = [] then
               let w3 = publish_progress user_id 60 ''running''
                          ''Searching in cad_outputs_generated directory...'' None w2
               in if cad_exists e then promote_walk e True user_id (walk_cad e) found w3
                  else (Inr found, w3)
             else (Inr found, w2))"

text \<open>
  Lines 287-457: from the exit of the CAD process to the returned dictionary. \<open>Inl\<close> is
  an exception that leaves the body, \<open>Inr\<close> the returned dictionary.
\<close>

definition after_process ::
  "env \<Rightarrow> string \<Rightarrow> string \<Rightarrow> int \<Rightarrow> string \<Rightarrow> string \<Rightarrow> world \<Rightarrow> (exc + pyval) \<times> world" where
  "after_process e user_id user_output_dir returncode stdout stderr w =
     (if returncode \<noteq> 0 then
        let error_msg = ''FreeCAD command failed with exit code '' @ show_int returncode;
            details = diagnostics stdout stderr;
            w1 = publish_status user_id ''failed'' error_msg (Some (py_repr details)) w;
            w2 = publish_progress user_id 0 ''failed'' error_msg (Some (py_repr details)) w1
        in (Inr (failed_with_details error_msg details), w2)
      else
        let w1 = publish_progress user_id 40 ''running''
                   ''FreeCAD script executed successfully, searching for generated files...'' None w
        in case find_generated_files e user_id w1 of
             (Inl x, w5) \<Rightarrow> (Inl x, w5)
           | (Inr generated_files, w5) \<Rightarrow>
               let w6 = rmtree user_output_dir w5 in
               if generated_files = [] then
                 let error_msg = ''No STEP or OBJ files were generated'';
                     details = diagnostics stdout stderr;
                     w7 = publish_status user_id ''failed'' error_msg (Some (py_repr details)) w6;
                     w8 = publish_progress user_id 0 ''failed'' error_msg
                            (Some (py_repr details)) w7
                 in (Inr (failed_with_details error_msg details), w8)
               else
                 let w7 = publish_progress user_id 70 ''running''
                            (''Found '' @ show_nat (length generated_files) @
                             '' files, generating PDF and JSON...'') None w6
                 in case derive e user_id (length generated_files) 0 generated_files [] [] w7 of
                      (Inl returned, w8) \<Rightarrow> (Inr returned, w8)
                    | (Inr (pdf_files, json_files), w8) \<Rightarrow>
                        let all_files = generated_files @ pdf_files @ json_files;
                            w9 = publish_progress user_id 100 ''finished''
                                   (''Successfully generated '' @ show_nat (length all_files) @
                                    '' files'') None w8;
                            w10 = publish_status user_id ''finished''
                                    (''Job completed successfully with '' @
                                     show_nat (length all_files) @ '' files'') None w9
                        in (Inr (PDict [(''status'', PStr ''success''),
                                        (''files'', PList (map PDict all_files))]), w10))"

text \<open>The files \<open>os.walk\<close> yields, as paths.\<close>

definition walked_paths :: "(string \<times> string list) list \<Rightarrow> string list" where
  "walked_paths walk = concat (map (\<lambda>rf. map (path_join (fst rf)) (snd rf)) walk)"

text \<open>
  Lines 205-457, the body of the outer \<open>try\<close>. The heartbeat thread is started (line 246)
  before \<open>subprocess.Popen\<close> is called (line 250) and runs to the moment \<open>heartbeat_stop\<close>
  is set: when the process exits, after the 3600 seconds of \<open>communicate(timeout=3600)\<close>,
  or in the \<open>finally\<close> clause when \<open>Popen\<close> raises. The thread has published its first
  value and stands in its first \<open>wait\<close> when the event is set at once (\<open>Popen\<close> raises, or
  the process exits within the first second), so the event counts as set one second
  after the start then. The main thread goes on from the moment the process ends. The
  files the process wrote in the working directory exist after its exit.
\<close>

definition execute_body :: "env \<Rightarrow> string \<Rightarrow> string \<Rightarrow> world \<Rightarrow> (exc + pyval) \<times> world" where
  "execute_body e script_path user_id w0 =
     (let w1 = publish_status user_id ''started'' ''Starting FreeCAD script execution'' None w0;
          w2 = publish_progress user_id 0 ''started'' ''Initializing...'' None w1;
          user_output_dir = path_join STORAGE_PATH (''user_'' @ user_id)
      in case makedirs_raises e of
           Some x \<Rightarrow> (Inl x, w2)
         | None \<Rightarrow>
             let w3 = add_path user_output_dir w2;
                 w4 = publish_progress user_id 10 ''running'' ''Setting up output directory...'' None w3;
                 w5 = publish_progress user_id 20 ''running'' ''Executing FreeCAD script...'' None w4
             in case process e of
                  PopenRaises x \<Rightarrow>
                    (Inl x, snd (heartbeat_worker (clock w5 + 1) user_id (clock w5) 25 w5))
                | Runs seconds returncode stdout stderr \<Rightarrow>
                    if 3600 < seconds then
                      let t_set = clock w5 + 3600;
                          w6 = (snd (heartbeat_worker t_set user_id (clock w5) 25 w5))
                                 \<lparr>clock := t_set\<rparr>;
                          error_msg = ''FreeCAD command timed out after 1 hour'';
                          w7 = publish_status user_id ''failed'' error_msg None w6;
                          w8 = publish_progress user_id 0 ''failed'' error_msg None w7
                      in (Inr (failed_result error_msg), w8)
                    else
                      let t_set = clock w5 + seconds;
                          w6 = (snd (heartbeat_worker (clock w5 + max 1 seconds) user_id
                                       (clock w5) 25 w5))
                                 \<lparr>clock := t_set\<rparr>;
                          w7 = w6\<lparr>fs := walked_paths (walk_user e) @ fs w6\<rparr>
                      in after_process e user_id user_output_dir returncode stdout stderr w7)"

text \<open>
  The \<open>finally\<close> clause (lines 475-485): the script file is removed, and its directory
  when that is left empty.
\<close>

definition cleanup_script :: "string \<Rightarrow> world \<Rightarrow> world" where
  "cleanup_script script_path w =
     (if path_exists w script_path then
        let w1 = remove_path script_path w;
            parent_dir = dirname script_path
        in if path_exists w1 parent_dir \<and> listdir w1 parent_dir = []
           then remove_path parent_dir w1
           else w1
      else w)"

text \<open>
  \<open>execute_freecad_script\<close>: the body under its handlers. The handler of
  \<open>subprocess.TimeoutExpired\<close> comes first, \<open>except Exception\<close> takes every other
  exception; both publish the failure and return a \<open>failed\<close> dictionary. The \<open>finally\<close>
  clause runs on every path.
\<close>

definition execute_freecad_script ::
  "env \<Rightarrow> string \<Rightarrow> string option \<Rightarrow> world \<Rightarrow> pyval \<times> world" where
  "execute_freecad_script e script_path user_id_arg w =
     (let user_id = (case user_id_arg of None \<Rightarrow> uuid4 e | Some u \<Rightarrow> u) in
      case execute_body e script_path user_id w of
        (Inr returned, w1) \<Rightarrow> (returned, cleanup_script script_path w1)
      | (Inl (TimeoutExpired m), w1) \<Rightarrow>
          let error_msg = ''FreeCAD command timed out after 5 minutes'';
              w2 = publish_status user_id ''failed'' error_msg None w1;
              w3 = publish_progress user_id 0 ''failed'' error_msg None w2
          in (failed_result error_msg, cleanup_script script_path w3)
      | (Inl x, w1) \<Rightarrow>
          let error_msg = ''Unexpected error: '' @ exc_str x;
              w2 = publish_status user_id ''failed'' error_msg None w1;
              w3 = publish_progress user_id 0 ''failed'' error_msg None w2
          in (failed_result error_msg, cleanup_script script_path w3))"

text \<open>The outcome of a run: the status and the error of the returned dictionary.\<close>

definition outcome :: "pyval \<Rightarrow> pyval \<times> pyval" where
  "outcome r =
     (case r of
        PDict d \<Rightarrow> (dict_get d ''status'', dict_get d ''error'')
      | _ \<Rightarrow> (PNone, PNone))"

section \<open>The front end (app.py)\<close>

text \<open>
  A handler ends by returning a response or by raising; \<open>api.abort(code, message)\<close>
  raises \<open>HTTPException code message\<close>. The framework answers a raised
  \<open>HTTPException\<close> with its code and any other exception with 500.
\<close>

datatype http_response =
    JsonResponse nat pyval
  | FileResponse string string

fun status_code :: "exc + http_response \<Rightarrow> nat" where
  "status_code (Inr (JsonResponse c b)) = c"
| "status_code (Inr (FileResponse file_path download_name)) = 200"
| "status_code (Inl (HTTPException c m)) = c"
| "status_code (Inl x) = 500"

subsection \<open>Job records\<close>

text \<open>
  What the handlers read of an RQ job: its id, \<open>meta\<close>, \<open>get_status()\<close>, \<open>result\<close> and
  \<open>ended_at\<close> (as ISO text, when set). The queue is its three lists of job ids and
  \<open>Job.fetch\<close>, which is \<open>None\<close> where it raises.
\<close>

record job =
  job_id :: string
  meta :: "(string \<times> pyval) list"
  job_status :: string
  job_result :: pyval
  ended_at :: "string option"

record queue =
  finished_ids :: "string list"
  started_ids :: "string list"
  queued_ids :: "string list"
  fetch :: "string \<Rightarrow> job option"

text \<open>\<open>job.meta and job.meta.get("user_id") == user_id\<close>.\<close>

definition owned_by :: "job \<Rightarrow> string \<Rightarrow> bool" where
  "owned_by j user_id = (meta j \<noteq> [] \<and> dict_get (meta j) ''user_id'' = PStr user_id)"

text \<open>\<open>_find_job_for_user\<close>: the first job of the owner, registry by registry.\<close>

fun find_in_ids :: "(string \<Rightarrow> job option) \<Rightarrow> string \<Rightarrow> string list \<Rightarrow> job option" where
  "find_in_ids f user_id [] = None"
| "find_in_ids f user_id (jid # jids) =
     (case f jid of
        None \<Rightarrow> find_in_ids f user_id jids
      | Some j \<Rightarrow> if owned_by j user_id then Some j else find_in_ids f user_id jids)"

definition find_job_for_user :: "queue \<Rightarrow> string \<Rightarrow> job option" where
  "find_job_for_user q user_id =
     find_in_ids (fetch q) user_id (concat [finished_ids q, started_ids q, queued_ids q])"

subsection \<open>GET /status\<close>

text \<open>
  \<open>JobStatus.get\<close>. \<open>pd\<close> and \<open>mqtt_connected\<close> are the state of the front end's MQTT
  manager, \<open>now\<close> is \<open>iso_now()\<close>. The 404 raised inside the \<open>try\<close> is caught by its
  \<open>except Exception\<close>, which aborts with 404 again.
\<close>

definition JobStatus_get ::
  "progress_data \<Rightarrow> bool \<Rightarrow> queue \<Rightarrow> string \<Rightarrow> string \<Rightarrow> exc + http_response" where
  "JobStatus_get pd mqtt_connected q now user_id =
     (let body =
        (case get_progress pd user_id of
           Some mqtt_progress \<Rightarrow>
             let found_id = (case find_job_for_user q user_id of
                               None \<Rightarrow> PNone | Some j \<Rightarrow> PStr (job_id j))
             in Inr (JsonResponse 200 (PDict
                  [(''user_id'', PStr user_id),
                   (''job_id'', found_id),
                   (''status'', rec_status mqtt_progress),
                   (''progress'', rec_progress mqtt_progress),
                   (''message'', rec_message mqtt_progress),
                   (''error'', rec_error mqtt_progress),
                   (''updated_at'', rec_updated_at mqtt_progress),
                   (''data_source'', PStr ''mqtt''),
                   (''mqtt_connected'', PBool mqtt_connected)]))
         | None \<Rightarrow>
             (case find_job_for_user q user_id of
                Some j \<Rightarrow>
                  let status = job_status j;
                      updated_at = (case ended_at j of None \<Rightarrow> now | Some t \<Rightarrow> t);
                      progress = (if status = ''started'' then 50
                                  else if status = ''finished'' then 100 else 0)
                  in Inr (JsonResponse 200 (PDict
                       [(''user_id'', PStr user_id),
                        (''job_id'', PStr (job_id j)),
                        (''status'', PStr status),
                        (''progress'', PInt progress),
                        (''message'', PStr (''Job '' @ status @ '' (from Redis queue)'')),
                        (''error'', PNone),
                        (''updated_at'', PStr updated_at),
                        (''data_source'', PStr ''redis''),
                        (''mqtt_connected'', PBool mqtt_connected)]))
              | None \<Rightarrow>
                  Inl (HTTPException 404 (py_repr (PDict
                    [(''message'', PStr (''Job not found. It may still be initializing '' @
                        ''or has already expired.'')),
                     (''user_id'', PStr user_id)])))))
      in case body of
           Inr r \<Rightarrow> Inr r
         | Inl x \<Rightarrow>
             Inl (HTTPException 404 (py_repr (PDict
               [(''message'', PStr (''Job not found: '' @ exc_str x)),
                (''user_id'', PStr user_id)]))))"

subsection \<open>GET /result\<close>

text \<open>
  What the front end sees of its disk: which paths exist, what \<open>os.walk("/app/outputs")\<close>
  yields, and whether \<open>shutil.copy2\<close> raises for a source and a destination.
\<close>

record disk =
  file_exists :: "string \<Rightarrow> bool"
  walk_outputs :: "(string \<times> string list) list"
  copy_raises :: "string \<Rightarrow> string \<Rightarrow> exc option"

text \<open>
  The loop of \<open>_prepare_download_files\<close>: a file whose path exists is copied to the
  outputs directory and gets a download link. An entry that is not a dictionary, or a
  path or filename that is not a string, raises.
\<close>

fun prepare_links :: "disk \<Rightarrow> string \<Rightarrow> string \<Rightarrow> pyval list \<Rightarrow> exc + pyval list" where
  "prepare_links d base_url user_id [] = Inr []"
| "prepare_links d base_url user_id (f # rest) =
     (case f of
        PDict kv \<Rightarrow>
          (case dict_get kv ''path'' of
             PStr src_path \<Rightarrow>
               if src_path \<noteq> [] \<and> file_exists d src_path then
                 (case dict_get kv ''filename'' of
                    PStr filename \<Rightarrow>
                      let dst_path_absolute =
                            path_join ''/app/outputs/code/cad_outputs_generated'' filename;
                          dst_path_relative =
                            path_join ''outputs/code/cad_outputs_generated'' filename
                      in (case copy_raises d src_path dst_path_absolute of
                            Some x \<Rightarrow> Inl x
                          | None \<Rightarrow>
                              (case prepare_links d base_url user_id rest of
                                 Inl x \<Rightarrow> Inl x
                               | Inr links \<Rightarrow>
                                   Inr (PDict
                                     [(''type'', dict_get kv ''type''),
                                      (''filename'', PStr filename),
                                      (''download_url'', PStr (base_url @ ''/freecad/download/'' @
                                          user_id @ ''/'' @ filename)),
                                      (''local_path'', PStr dst_path_relative),
                                      (''path'', PStr dst_path_relative)] # links)))
                  | v \<Rightarrow> Inl (OtherError ''TypeError''))
               else prepare_links d base_url user_id rest
           | v \<Rightarrow> if truthy v then Inl (OtherError ''TypeError'')
                  else prepare_links d base_url user_id rest)
      | v \<Rightarrow> Inl (OtherError ''AttributeError''))"

text \<open>
  \<open>_return_result(job, files)\<close>: the status of the response is the literal
  \<open>"success"\<close>. \<open>now\<close> is \<open>iso_now()\<close>.
\<close>

definition return_result ::
  "disk \<Rightarrow> string \<Rightarrow> bool \<Rightarrow> string \<Rightarrow> string \<Rightarrow> job \<Rightarrow> pyval \<Rightarrow> exc + http_response" where
  "return_result d base_url auto_download now user_id j files =
     (let completed_at = (case ended_at j of None \<Rightarrow> now | Some t \<Rightarrow> t) in
      if auto_download \<and> truthy files then
        (case files of
           PList fl \<Rightarrow>
             (case prepare_links d base_url user_id fl of
                Inl x \<Rightarrow> Inl x
              | Inr download_links \<Rightarrow>
                  Inr (JsonResponse 200 (PDict
                    [(''user_id'', PStr user_id),
                     (''job_id'', PStr (job_id j)),
                     (''status'', PStr ''success''),
                     (''message'', PStr ''Files generated and saved to outputs/code/cad_outputs_generated/''),
                     (''files'', PList download_links),
                     (''output_directory'', PStr ''outputs/code/cad_outputs_generated''),
                     (''completed_at'', PStr completed_at)])))
         | v \<Rightarrow> Inl (OtherError ''TypeError''))
      else
        Inr (JsonResponse 200 (PDict
          [(''user_id'', PStr user_id),
           (''job_id'', PStr (job_id j)),
           (''status'', PStr ''success''),
           (''files'', files),
           (''completed_at'', PStr completed_at)])))"

text \<open>
  One of the three loops of \<open>JobResult.get\<close> (lines 378-397, 401-420, 424-443): the
  first job of the owner answers; whatever is raised for a job is swallowed by the bare
  \<open>except\<close> and the loop goes on. \<open>None\<close>: the loop ended without a response.
\<close>

fun result_scan ::
  "disk \<Rightarrow> string \<Rightarrow> bool \<Rightarrow> string \<Rightarrow> string \<Rightarrow> (string \<Rightarrow> job option) \<Rightarrow> string list
   \<Rightarrow> http_response option" where
  "result_scan d base_url auto_download now user_id f [] = None"
| "result_scan d base_url auto_download now user_id f (jid # jids) =
     (case f jid of
        None \<Rightarrow> result_scan d base_url auto_download now user_id f jids
      | Some j \<Rightarrow>
          if owned_by j user_id then
            if job_status j \<noteq> ''finished'' then
              Some (JsonResponse 202 (PDict
                [(''user_id'', PStr user_id),
                 (''job_id'', PStr (job_id j)),
                 (''status'', PStr (job_status j)),
                 (''message'', PStr ''Result not ready yet. Job is still running.''),
                 (''files'', PList []),
                 (''completed_at'', PNone)]))
            else
              (case (if truthy (job_result j) then job_result j else PDict []) of
                 PDict result \<Rightarrow>
                   (case return_result d base_url auto_download now user_id j
                           (dict_get_default result ''files'' (PList [])) of
                      Inr r \<Rightarrow> Some r
                    | Inl x \<Rightarrow> result_scan d base_url auto_download now user_id f jids)
               | v \<Rightarrow> result_scan d base_url auto_download now user_id f jids)
          else result_scan d base_url auto_download now user_id f jids)"

text \<open>\<open>JobResult.get\<close>; \<open>auto_download_raw\<close> is the query parameter.\<close>

definition JobResult_get ::
  "disk \<Rightarrow> string \<Rightarrow> queue \<Rightarrow> string \<Rightarrow> string \<Rightarrow> string \<Rightarrow> exc + http_response" where
  "JobResult_get d base_url q now auto_download_raw user_id =
     (let auto_download = (lower auto_download_raw \<in> set [''1'', ''true'', ''yes'', ''on'']);
          scan = result_scan d base_url auto_download now user_id (fetch q);
          body =
            (case scan (finished_ids q) of
               Some r \<Rightarrow> Inr r
             | None \<Rightarrow>
                 (case scan (started_ids q) of
                    Some r \<Rightarrow> Inr r
                  | None \<Rightarrow>
                      (case scan (queued_ids q) of
                         Some r \<Rightarrow> Inr r
                       | None \<Rightarrow>
                           Inl (HTTPException 404 (py_repr (PDict
                             [(''message'', PStr (''Result not found. The job may still be '' @
                                 ''running or the result has expired.'')),
                              (''user_id'', PStr user_id)]))))))
      in case body of
           Inr r \<Rightarrow> Inr r
         | Inl x \<Rightarrow>
             Inl (HTTPException 404 (py_repr (PDict
               [(''message'', PStr (''Result not available: '' @ exc_str x)),
                (''user_id'', PStr user_id)]))))"

subsection \<open>GET /download\<close>

text \<open>
  \<open>DownloadFile.get\<close>. The three searches, the 404 and the 403 all stand inside the
  \<open>try\<close> whose \<open>except Exception\<close> aborts with 500: the \<open>HTTPException\<close> that
  \<open>api.abort(404, ...)\<close> or \<open>api.abort(403, ...)\<close> raises is an \<open>Exception\<close>, is caught
  there, and leaves the handler as a 500.
\<close>

definition DownloadFile_get :: "disk \<Rightarrow> string \<Rightarrow> string \<Rightarrow> exc + http_response" where
  "DownloadFile_get d user_id filename =
     (let output_dir = ''/app/outputs/code/cad_outputs_generated'';
          file_path = path_join output_dir filename;
          file_path =
            (if \<not> file_exists d file_path \<and> file_exists d ''/app/outputs'' then
               (case find (\<lambda>rf. filename \<in> set (snd rf)) (walk_outputs d) of
                  Some rf \<Rightarrow> path_join (fst rf) filename
                | None \<Rightarrow> file_path)
             else file_path);
          file_path =
            (if \<not> file_exists d file_path then path_join STORAGE_PATH filename else file_path);
          body =
            (if \<not> file_exists d file_path
               then Inl (HTTPException 404 (''File not found: '' @ filename))
             else if \<not> str_contains user_id filename
               then Inl (HTTPException 403
                          (''Access denied: File does not belong to user '' @ user_id))
             else Inr (FileResponse file_path filename))
      in case body of
           Inr r \<Rightarrow> Inr r
         | Inl x \<Rightarrow> Inl (HTTPException 500 (''Download failed: '' @ exc_str x)))"

section \<open>Notions used in the claims\<close>

text \<open>
  The stores the front end's MQTT manager can hold: \<open>progress_data\<close> is empty when the
  manager is made, and only \<open>_on_message\<close> writes to it.
\<close>

inductive reachable :: "progress_data \<Rightarrow> bool" where
  start: "reachable (\<lambda>user_id. None)"
| receive: "reachable pd \<Longrightarrow> reachable (on_message tpc msg received pd)"

text \<open>
  A message without the \<open>error\<close> key, and a world that differs from an earlier one in its
  outbox by such messages only.
\<close>

definition quiet :: "published \<Rightarrow> bool" where
  "quiet m = (''error'' \<notin> fst ` set (payload m))"

definition extends_quietly :: "world \<Rightarrow> world \<Rightarrow> bool" where
  "extends_quietly w w' =
     (connected w' = connected w \<and>
      (\<exists>ms. outbox w' = outbox w @ ms \<and> list_all quiet ms))"

text \<open>
  The descriptor lines 326-335 (and 347-356) build for a file found by \<open>os.walk\<close>, and
  the descriptor lines 401-405 and 413-417 build from what a successful conversion of
  the STEP file at \<open>step_path\<close> returns (\<open>pdf_dest\<close>, \<open>json_dest\<close> and their \<open>name\<close>).
\<close>

definition primary_descriptor :: "string \<Rightarrow> string \<Rightarrow> (string \<times> pyval) list" where
  "primary_descriptor user_id file =
     (let new_filename = fst (splitext file) @ ''_'' @ user_id @ snd (splitext file)
      in [(''type'', PStr (if endswith file ''.step'' then ''step'' else ''obj'')),
          (''path'', PStr (path_join STORAGE_PATH new_filename)),
          (''filename'', PStr new_filename)])"

definition derived_descriptor ::
  "string \<Rightarrow> string \<Rightarrow> string \<Rightarrow> string \<Rightarrow> (string \<times> pyval) list" where
  "derived_descriptor kind ext user_id step_path =
     (let dest = pathlib_join STORAGE_PATH (path_stem step_path @ ''_'' @ user_id @ ext)
      in [(''type'', PStr kind), (''path'', PStr dest), (''filename'', PStr (path_name dest))])"

text \<open>The file names \<open>os.walk\<close> yields in the two search directories.\<close>

definition walked_names :: "env \<Rightarrow> string set" where
  "walked_names e = set (concat (map snd (walk_user e))) \<union> set (concat (map snd (walk_cad e)))"

section \<open>Example inputs\<close>

text \<open>
  A run whose CAD process exits with code 1 after twelve seconds, for owner \<open>u1\<close>, and
  the world it starts in: the uploaded script stands in the storage directory.
\<close>

definition env_exit_1 :: env where
  "env_exit_1 =
     \<lparr>uuid4 = ''6f1c'', makedirs_raises = None,
      process = Runs 12 1 ''building'' ''Traceback: boom'',
      walk_user = [], cad_exists = False, walk_cad = [],
      copy2_raises = (\<lambda>src dst. None),
      pdf_env = (\<lambda>i. PdfImportError ''No module named technical_drawing_generator''),
      json_env = (\<lambda>i. JsonRuns 3 0 [] [] True)\<rparr>"

definition world_0 :: world where
  "world_0 = \<lparr>connected = True, clock = 0, outbox = [],
     fs = [''/app/storage/script_u1_box.py'', ''/app/storage'']\<rparr>"

text \<open>
  The same run when the CAD process needs more than the hour it is given, and when
  \<open>freecadcmd\<close> cannot be started.
\<close>

definition env_timeout :: env where
  "env_timeout = env_exit_1\<lparr>process := Runs 4000 0 [] []\<rparr>"

definition env_no_freecadcmd :: env where
  "env_no_freecadcmd =
     env_exit_1\<lparr>process := PopenRaises (OtherError ''[Errno 2] No such file or directory'')\<rparr>"

text \<open>
  The job record of the first run as the queue holds it afterwards: the worker function
  returned its dictionary, so RQ filed the job as finished with that dictionary as its
  result. The queue holds this one job.
\<close>

definition job_1 :: job where
  "job_1 =
     \<lparr>job_id = ''job-1'',
      meta = [(''created_at'', PStr ''2026-01-01T10:00:00+00:00''),
              (''script_name'', PStr ''box.py''),
              (''user_id'', PStr ''u1'')],
      job_status = ''finished'',
      job_result = fst (execute_freecad_script env_exit_1 ''/app/storage/script_u1_box.py''
                         (Some ''u1'') world_0),
      ended_at = Some ''2026-01-01T10:00:12+00:00''\<rparr>"

definition queue_1 :: queue where
  "queue_1 = \<lparr>finished_ids = [''job-1''], started_ids = [], queued_ids = [],
               fetch = (\<lambda>jid. if jid = ''job-1'' then Some job_1 else None)\<rparr>"

text \<open>A front-end disk on which a single artifact, of owner \<open>u2\<close>, exists.\<close>

definition disk_0 :: disk where
  "disk_0 = \<lparr>file_exists = (\<lambda>p. p = ''/app/storage/box_u2.step''), walk_outputs = [],
              copy_raises = (\<lambda>src dst. None)\<rparr>"

text \<open>
  A run for owner \<open>u1\<close> whose CAD process writes \<open>box.step\<close>; the PDF converter
  succeeds, the JSON converter exits with code 1.
\<close>

definition env_json_fails :: env where
  "env_json_fails =
     \<lparr>uuid4 = ''6f1c'', makedirs_raises = None,
      process = Runs 12 0 ''done'' [],
      walk_user = [(''/app/storage/user_u1'', [''box.step''])],
      cad_exists = False, walk_cad = [],
      copy2_raises = (\<lambda>src dst. None),
      pdf_env = (\<lambda>i. PdfResult True (Some ''/app/storage/pdf_user_u1/box_u1_u1.pdf'')
                         ''Technical drawing generated'' None),
      json_env = (\<lambda>i. JsonRuns 3 1 [] ''boom'' False)\<rparr>"

text \<open>
  A run for owner \<open>u1\<close> whose CAD process writes \<open>box.step\<close>; the PDF generator is
  not installed, the JSON converter succeeds.
\<close>

definition env_box :: env where
  "env_box =
     \<lparr>uuid4 = ''6f1c'', makedirs_raises = None,
      process = Runs 12 0 ''done'' [],
      walk_user = [(''/app/storage/user_u1'', [''box.step''])],
      cad_exists = False, walk_cad = [],
      copy2_raises = (\<lambda>src dst. None),
      pdf_env = (\<lambda>i. PdfImportError ''No module named 'technical_drawing_generator' ''),
      json_env = (\<lambda>i. JsonRuns 3 0 ''JSON conversion completed successfully!'' [] True)\<rparr>"

text \<open>
  The store of a front end that has received the failure of an earlier job of \<open>u1\<close>.
\<close>

definition pd_failed :: progress_data where
  "pd_failed =
     on_message ''freecad/progress/u1''
       (Some (PDict [(''user_id'', PStr ''u1''), (''progress'', PInt 0),
                     (''status'', PStr ''failed''),
                     (''message'', PStr ''FreeCAD command failed with exit code 1''),
                     (''timestamp'', PStr ''12''),
                     (''error'', PStr ''exit code 1'')]))
       12 (\<lambda>user_id. None)"



section \<open>Facts about the model\<close>

lemma str_contains_sublist: "str_contains sub s = sublist sub s"
  by (induction s) (auto simp: sublist_Cons_right)



lemma publish_progress_keeps [simp]:
  "connected (publish_progress u p s m er w) = connected w"
  "fs (publish_progress u p s m er w) = fs w"
  "clock (publish_progress u p s m er w) = clock w"
  by (simp_all add: publish_progress_def Let_def)

lemma publish_status_keeps [simp]:
  "connected (publish_status u s m er w) = connected w"
  "fs (publish_status u s m er w) = fs w"
  "clock (publish_status u s m er w) = clock w"
  by (simp_all add: publish_status_def Let_def)

lemma execute_result:
  "fst (execute_freecad_script e script uid w) =
     (case fst (execute_body e script (case uid of None \<Rightarrow> uuid4 e | Some u \<Rightarrow> u) w) of
        Inr returned \<Rightarrow> returned
      | Inl (TimeoutExpired m) \<Rightarrow> failed_result ''FreeCAD command timed out after 5 minutes''
      | Inl x \<Rightarrow> failed_result (''Unexpected error: '' @ exc_str x))"
  by (simp add: execute_freecad_script_def Let_def split: prod.splits sum.splits exc.splits)

lemma execute_body_exit:
  assumes "makedirs_raises e = None" "process e = Runs seconds rc out err" "seconds \<le> 3600"
  shows "\<exists>w'. execute_body e script user_id w =
           after_process e user_id (path_join STORAGE_PATH (''user_'' @ user_id)) rc out err w'"
  using assms
  apply (simp add: execute_body_def Let_def del: append.simps)
  apply (rule exI, rule refl)
  done

lemma after_process_nonzero:
  "rc \<noteq> 0 \<Longrightarrow> fst (after_process e user_id d rc out err w) =
     Inr (failed_with_details (''FreeCAD command failed with exit code '' @ show_int rc) (diagnostics out err))"
  by (simp add: after_process_def Let_def)

lemma fs_ops_keep [simp]:
  "connected (add_path p w) = connected w" "clock (add_path p w) = clock w"
  "outbox (add_path p w) = outbox w"
  "connected (remove_path p w) = connected w" "clock (remove_path p w) = clock w"
  "outbox (remove_path p w) = outbox w"
  "connected (rmtree p w) = connected w" "clock (rmtree p w) = clock w"
  "outbox (rmtree p w) = outbox w"
  by (simp_all add: add_path_def remove_path_def rmtree_def)

lemma heartbeat_keeps:
  "connected (snd (heartbeat_worker t_set u t v w)) = connected w \<and>
   fs (snd (heartbeat_worker t_set u t v w)) = fs w"
proof (induction t_set u t v w rule: heartbeat_worker.induct)
  case (1 t_set user_id t v w)
  show ?case
  proof (cases "t_set \<le> t")
    case True
    then show ?thesis by (subst heartbeat_worker.simps, subst (2) heartbeat_worker.simps) simp
  next
    case False
    show ?thesis
    proof (cases "t_set \<le> t + 5")
      case True
      with False show ?thesis
        by (subst heartbeat_worker.simps, subst (2) heartbeat_worker.simps) (simp add: Let_def)
    next
      case b: False
      with False 1[OF False refl refl b] show ?thesis
        by (subst heartbeat_worker.simps, subst (2) heartbeat_worker.simps) (simp add: Let_def)
    qed
  qed
qed

lemma execute_world:
  "snd (execute_freecad_script e script uid w) =
     cleanup_script script
       (let u = (case uid of None \<Rightarrow> uuid4 e | Some u \<Rightarrow> u) in
        case fst (execute_body e script u w) of
          Inr returned \<Rightarrow> snd (execute_body e script u w)
        | Inl (TimeoutExpired m) \<Rightarrow>
            publish_progress u 0 ''failed'' ''FreeCAD command timed out after 5 minutes'' None
              (publish_status u ''failed'' ''FreeCAD command timed out after 5 minutes'' None
                 (snd (execute_body e script u w)))
        | Inl x \<Rightarrow>
            publish_progress u 0 ''failed'' (''Unexpected error: '' @ exc_str x) None
              (publish_status u ''failed'' (''Unexpected error: '' @ exc_str x) None
                 (snd (execute_body e script u w))))"
  by (simp add: execute_freecad_script_def Let_def split: prod.splits sum.splits exc.splits)

lemma execute_keeps_path:
  assumes "path_exists (snd (execute_body e script (case uid of None \<Rightarrow> uuid4 e | Some u \<Rightarrow> u) w)) d"
    and "script \<noteq> d" and "dirname script \<noteq> d"
  shows "path_exists (snd (execute_freecad_script e script uid w)) d"
  using assms
  by (simp add: execute_world cleanup_script_def path_exists_def remove_path_def Let_def
      split: sum.splits exc.splits)

lemma after_process_nonzero_fs:
  "rc \<noteq> 0 \<Longrightarrow> fs (snd (after_process e u d rc out err w)) = fs w"
  by (simp add: after_process_def Let_def)

lemma body_leaves_user_dir:
  assumes "makedirs_raises e = None"
    and "process e = PopenRaises x \<or>
         (\<exists>seconds rc out err. process e = Runs seconds rc out err \<and> (3600 < seconds \<or> rc \<noteq> 0))"
  shows "path_exists (snd (execute_body e script u w)) (path_join STORAGE_PATH (''user_'' @ u))"
  using assms
  by (auto simp add: execute_body_def Let_def path_exists_def heartbeat_keeps add_path_def
      after_process_nonzero_fs simp del: append.simps)

lemma execute_nonzero_exit:
  assumes "makedirs_raises e = None" "process e = Runs seconds rc out err" "seconds \<le> 3600"
    "rc \<noteq> 0"
  shows "fst (execute_freecad_script e script uid w) =
      failed_with_details (''FreeCAD command failed with exit code '' @ show_int rc)
        (diagnostics out err)"
proof -
  let ?u = "case uid of None \<Rightarrow> uuid4 e | Some u \<Rightarrow> u"
  obtain w' where b: "execute_body e script ?u w =
      after_process e ?u (path_join STORAGE_PATH (''user_'' @ ?u)) rc out err w'"
    using execute_body_exit[OF assms(1-3), of script ?u w] by (elim exE)
  show ?thesis
    using assms(4) by (simp add: execute_result b after_process_nonzero del: append.simps)
qed

lemma job_1_result:
  "job_result job_1 =
     failed_with_details ''FreeCAD command failed with exit code 1''
       (diagnostics ''building'' ''Traceback: boom'')"
proof -
  have si: "show_int 1 = ''1''"
    by (simp add: show_int_def show_nat.simps digit_char_def)
  show ?thesis
    using execute_nonzero_exit[of env_exit_1 12 1 "''building''" "''Traceback: boom''"
        "''/app/storage/script_u1_box.py''" "Some ''u1''" world_0]
    by (simp add: job_1_def env_exit_1_def si)
qed

lemma find_job_1: "find_job_for_user queue_1 ''u1'' = Some job_1"
  by (simp add: find_job_for_user_def queue_1_def owned_by_def dict_get_def job_1_def)

lemma publish_progress_outbox:
  "connected w \<Longrightarrow>
   outbox (publish_progress u p s m None w) =
     outbox w @ [\<lparr>at = clock w, topic = ''freecad/progress/'' @ u,
                  payload = [(''user_id'', PStr u), (''progress'', PInt p), (''status'', PStr s),
                             (''message'', PStr m), (''timestamp'', PStr (isoformat (clock w)))]\<rparr>]"
  by (simp add: publish_progress_def)

lemma publish_disconnected [simp]:
  "\<not> connected w \<Longrightarrow> publish_progress u p s m er w = w"
  "\<not> connected w \<Longrightarrow> publish_status u s m er w = w"
  by (simp_all add: publish_progress_def publish_status_def)

lemma heartbeat_disconnected:
  "\<not> connected w \<Longrightarrow> outbox (snd (heartbeat_worker t_set u t v w)) = outbox w"
proof (induction t_set u t v w rule: heartbeat_worker.induct)
  case (1 t_set user_id t v w)
  show ?case
  proof (cases "t_set \<le> t")
    case True
    then show ?thesis by (subst heartbeat_worker.simps) simp
  next
    case False
    show ?thesis
    proof (cases "t_set \<le> t + 5")
      case True
      with False 1(2) show ?thesis
        by (subst heartbeat_worker.simps) (simp add: Let_def)
    next
      case b: False
      have "\<not> connected (publish_progress user_id (min (v + 2) 35) ''running''
              (''FreeCAD script is running... (progress: '' @ show_int (min (v + 2) 35) @ ''%)'') None
              (w\<lparr>clock := t\<rparr>))"
        using 1(2) by simp
      from 1(1)[OF False refl refl b this] False b 1(2) show ?thesis
        by (subst heartbeat_worker.simps) (simp add: Let_def)
    qed
  qed
qed

lemma heartbeat_outbox:
  "connected w \<Longrightarrow>
   \<exists>n. outbox (snd (heartbeat_worker t_set u t v w)) =
         outbox w @
         map (\<lambda>k. \<lparr>at = t + 5 * k, topic = ''freecad/progress/'' @ u,
                    payload = [(''user_id'', PStr u),
                               (''progress'', PInt (min (v + 2 * (int k + 1)) 35)),
                               (''status'', PStr ''running''),
                               (''message'', PStr (''FreeCAD script is running... (progress: '' @
                                   show_int (min (v + 2 * (int k + 1)) 35) @ ''%)'')),
                               (''timestamp'', PStr (isoformat (t + 5 * k)))]\<rparr>) [0..<n]
       \<and> (\<forall>k<n. t + 5 * k < t_set) \<and> t_set \<le> t + 5 * n"
proof (induction t_set u t v w rule: heartbeat_worker.induct)
  case (1 t_set user_id t v w)
  let ?msg = "\<lambda>t v k. \<lparr>at = t + 5 * k, topic = ''freecad/progress/'' @ user_id,
                    payload = [(''user_id'', PStr user_id),
                               (''progress'', PInt (min (v + 2 * (int k + 1)) 35)),
                               (''status'', PStr ''running''),
                               (''message'', PStr (''FreeCAD script is running... (progress: '' @
                                   show_int (min (v + 2 * (int k + 1)) 35) @ ''%)'')),
                               (''timestamp'', PStr (isoformat (t + 5 * k)))]\<rparr>"
  let ?v' = "min (v + 2) 35"
  let ?w' = "publish_progress user_id ?v' ''running''
              (''FreeCAD script is running... (progress: '' @ show_int ?v' @ ''%)'') None
              (w\<lparr>clock := t\<rparr>)"
  have ow': "outbox ?w' = outbox w @ [?msg t v 0]"
    using 1(2) by (simp add: publish_progress_outbox del: append.simps)
  show ?case
  proof (cases "t_set \<le> t")
    case True
    then have "outbox (snd (heartbeat_worker t_set user_id t v w)) = outbox w @ map (?msg t v) [0..<0]"
      by (subst heartbeat_worker.simps) simp
    with True show ?thesis by (intro exI[of _ 0]) simp
  next
    case False
    show ?thesis
    proof (cases "t_set \<le> t + 5")
      case True
      with False have "snd (heartbeat_worker t_set user_id t v w) = ?w'"
        by (subst heartbeat_worker.simps) (simp add: Let_def)
      then have "outbox (snd (heartbeat_worker t_set user_id t v w)) = outbox w @ map (?msg t v) [0..<Suc 0]"
        using ow' by (simp del: append.simps)
      with True False show ?thesis by (intro exI[of _ "Suc 0"]) simp
    next
      case b: False
      have c: "connected ?w'" using 1(2) by simp
      from 1(1)[OF False refl refl b c] obtain n where
        n: "outbox (snd (heartbeat_worker t_set user_id (t + 5) ?v' ?w')) =
              outbox ?w' @ map (?msg (t + 5) ?v') [0..<n]"
        and lt: "\<forall>k<n. t + 5 + 5 * k < t_set" and ge: "t_set \<le> t + 5 + 5 * n"
        by blast
      have step: "snd (heartbeat_worker t_set user_id t v w) =
                  snd (heartbeat_worker t_set user_id (t + 5) ?v' ?w')"
        using False b by (subst heartbeat_worker.simps) (simp add: Let_def)
      have shift: "?msg (t + 5) ?v' k = ?msg t v (Suc k)" for k
        by (simp add: min_def algebra_simps)
      have "outbox (snd (heartbeat_worker t_set user_id t v w)) =
              outbox w @ map (?msg t v) [0..<Suc n]"
        unfolding step n ow' map_upt_Suc[of "?msg t v" n] shift
        by simp
      moreover have "\<forall>k<Suc n. t + 5 * k < t_set"
        using lt False by (auto simp: less_Suc_eq_0_disj)
      moreover have "t_set \<le> t + 5 * Suc n" using ge by simp
      ultimately show ?thesis by (intro exI[of _ "Suc n"]) blast
    qed
  qed
qed


lemma convert_step_returned:
  "fst (convert_step e u n i file_info pdfs jsons w) = Inl r \<Longrightarrow>
   \<exists>m d. r = failed_with_details m d"
  by (auto simp add: convert_step_def Let_def split: if_splits)

lemma derive_returned:
  "fst (derive e u n i gen pdfs jsons w) = Inl r \<Longrightarrow> \<exists>m d. r = failed_with_details m d"
proof (induction gen arbitrary: i pdfs jsons w)
  case Nil
  then show ?case by simp
next
  case (Cons file_info rest)
  show ?case
  proof (cases "dict_get file_info ''type'' = PStr ''step''")
    case False
    with Cons show ?thesis by simp
  next
    case True
    obtain x w1 where cs: "convert_step e u n i file_info pdfs jsons w = (x, w1)"
      by (cases "convert_step e u n i file_info pdfs jsons w")
    show ?thesis
    proof (cases x)
      case (Inl returned)
      with Cons.prems True cs have "r = returned" by simp
      moreover have "fst (convert_step e u n i file_info pdfs jsons w) = Inl returned"
        using cs Inl by simp
      ultimately show ?thesis using convert_step_returned by blast
    next
      case (Inr pj)
      obtain p j where pj: "pj = (p, j)" by (cases pj)
      from Cons.prems True cs Inr pj
      have "fst (derive e u n (Suc i) rest p j w1) = Inl r" by simp
      then show ?thesis by (rule Cons.IH)
    qed
  qed
qed

lemma after_process_returned:
  assumes "fst (after_process e u d rc out err w) = Inr r"
  shows "(\<exists>m dt. r = failed_with_details m dt) \<or>
         (\<exists>fl. r = PDict [(''status'', PStr ''success''), (''files'', PList fl)])"
proof (cases "rc \<noteq> 0")
  case True
  with assms show ?thesis by (auto simp add: after_process_def Let_def)
next
  case False
  let ?w1 = "publish_progress u 40 ''running''
     ''FreeCAD script executed successfully, searching for generated files...'' None w"
  obtain x w5 where f: "find_generated_files e u ?w1 = (x, w5)"
    by (cases "find_generated_files e u ?w1")
  show ?thesis
  proof (cases x)
    case (Inl ex)
    with assms False f show ?thesis by (simp add: after_process_def Let_def)
  next
    case (Inr gen)
    show ?thesis
    proof (cases "gen = []")
      case True
      with assms False f Inr show ?thesis by (auto simp add: after_process_def Let_def)
    next
      case ne: False
      let ?w7 = "publish_progress u 70 ''running''
           (''Found '' @ show_nat (length gen) @ '' files, generating PDF and JSON...'') None
           (rmtree d w5)"
      obtain y w8 where dv: "derive e u (length gen) 0 gen [] [] ?w7 = (y, w8)"
        by (cases "derive e u (length gen) 0 gen [] [] ?w7")
      show ?thesis
      proof (cases y)
        case (Inl returned)
        with assms False f Inr ne dv have "r = returned"
          by (simp add: after_process_def Let_def)
        moreover have "fst (derive e u (length gen) 0 gen [] [] ?w7) = Inl returned"
          using dv Inl by simp
        ultimately show ?thesis using derive_returned by blast
      next
        case (Inr pj)
        obtain p j where pj: "pj = (p, j)" by (cases pj)
        from assms False f \<open>x = Inr gen\<close> ne dv Inr pj show ?thesis
          by (auto simp add: after_process_def Let_def)
      qed
    qed
  qed
qed

lemma execute_body_returned:
  assumes "fst (execute_body e script u w) = Inr r"
  shows "(\<exists>m. r = failed_result m) \<or> (\<exists>m dt. r = failed_with_details m dt) \<or>
         (\<exists>fl. r = PDict [(''status'', PStr ''success''), (''files'', PList fl)])"
proof (cases "makedirs_raises e")
  case (Some x)
  with assms show ?thesis by (simp add: execute_body_def Let_def)
next
  case None
  show ?thesis
  proof (cases "process e")
    case (PopenRaises x)
    with assms None show ?thesis by (simp add: execute_body_def Let_def)
  next
    case (Runs seconds rc out err)
    show ?thesis
    proof (cases "3600 < seconds")
      case True
      with assms None Runs show ?thesis by (auto simp add: execute_body_def Let_def)
    next
      case False
      then have "seconds \<le> 3600" by simp
      from execute_body_exit[OF None Runs this, of script u w] obtain w' where
        "execute_body e script u w =
           after_process e u (path_join STORAGE_PATH (''user_'' @ u)) rc out err w'" by blast
      with assms after_process_returned show ?thesis by metis
    qed
  qed
qed

lemma generate_json_fst:
  "fst (generate_json_from_step oc p u w) = fst (generate_json_from_step oc p u w')"
  by (cases oc) (simp_all add: generate_json_from_step_def Let_def)

lemma generate_pdf_fst:
  "fst (generate_pdf_from_step oc p u w) = fst (generate_pdf_from_step oc p u w')"
  by (cases oc) (auto simp add: generate_pdf_from_step_def Let_def split: option.splits)

lemma promote_files_fst:
  "fst (promote_files e c u root files acc w) = fst (promote_files e c u root files acc w')"
proof (induction files arbitrary: acc w w')
  case Nil
  show ?case by simp
next
  case (Cons f files)
  show ?case
  proof (cases "endswith f ''.step'' \<or> endswith f ''.obj''")
    case False
    then show ?thesis using Cons.IH[of acc w w'] by simp
  next
    case True
    let ?src = "path_join root f"
    let ?dst = "path_join STORAGE_PATH (fst (splitext f) @ ''_'' @ u @ snd (splitext f))"
    show ?thesis
    proof (cases "copy2_raises e ?src ?dst")
      case (Some x)
      with True show ?thesis by (simp add: Let_def)
    next
      case None
      show ?thesis
      proof (cases c)
        case True
        with \<open>endswith f ''.step'' \<or> endswith f ''.obj''\<close> None
          Cons.IH[of _ "remove_path ?src (add_path ?dst w)" "remove_path ?src (add_path ?dst w')"]
        show ?thesis by (simp add: Let_def)
      next
        case False
        with \<open>endswith f ''.step'' \<or> endswith f ''.obj''\<close> None
          Cons.IH[of _ "add_path ?dst w" "add_path ?dst w'"]
        show ?thesis by (simp add: Let_def)
      qed
    qed
  qed
qed

lemma promote_walk_fst:
  "fst (promote_walk e c u walk acc w) = fst (promote_walk e c u walk acc w')"
proof (induction walk arbitrary: acc w w')
  case Nil
  show ?case by simp
next
  case (Cons rf rest)
  obtain root files where rf: "rf = (root, files)" by (cases rf)
  obtain x w1 where a: "promote_files e c u root files acc w = (x, w1)"
    by (cases "promote_files e c u root files acc w")
  obtain x' w1' where b: "promote_files e c u root files acc w' = (x', w1')"
    by (cases "promote_files e c u root files acc w'")
  have xx: "x' = x" using promote_files_fst[of e c u root files acc w w'] a b by simp
  show ?case
  proof (cases x)
    case (Inl ex)
    then show ?thesis using a b rf xx by simp
  next
    case (Inr acc1)
    then show ?thesis using a b rf xx Cons.IH[of acc1 w1 w1'] by simp
  qed
qed

lemma find_generated_files_fst:
  "fst (find_generated_files e u w) = fst (find_generated_files e u w')"
proof -
  let ?w1 = "publish_progress u 50 ''running'' ''Searching for generated files...'' None w"
  let ?w1' = "publish_progress u 50 ''running'' ''Searching for generated files...'' None w'"
  obtain x w2 where a: "promote_walk e False u (walk_user e) [] ?w1 = (x, w2)"
    by (cases "promote_walk e False u (walk_user e) [] ?w1")
  obtain x' w2' where b: "promote_walk e False u (walk_user e) [] ?w1' = (x', w2')"
    by (cases "promote_walk e False u (walk_user e) [] ?w1'")
  have xx: "x' = x" using promote_walk_fst[of e False u "walk_user e" "[]" ?w1 ?w1'] a b by simp
  show ?thesis
  proof (cases x)
    case (Inl ex)
    then show ?thesis using a b xx by (simp add: find_generated_files_def Let_def)
  next
    case (Inr found)
    then show ?thesis
      using a b xx
        promote_walk_fst[of e True u "walk_cad e" found
          "publish_progress u 60 ''running'' ''Searching in cad_outputs_generated directory...'' None w2"
          "publish_progress u 60 ''running'' ''Searching in cad_outputs_generated directory...'' None w2'"]
      by (auto simp add: find_generated_files_def Let_def)
  qed
qed


lemma convert_step_json_failure:
  assumes "dict_get (fst (generate_json_from_step (json_env e i) (item_str file_info ''path'') u w0))
             ''status'' \<noteq> PStr ''success''"
  shows "fst (convert_step e u n i file_info pdfs jsons w) =
     Inl (let json_result =
                fst (generate_json_from_step (json_env e i) (item_str file_info ''path'') u w0)
          in failed_with_details (json_error_of json_result)
               (PDict [(''error'', PStr (json_error_of json_result)),
                       (''result'', PDict json_result),
                       (''step_file'', dict_get file_info ''path'')]))"
proof -
  let ?w1 = "publish_progress u (70 + int (((i + 1) * 20) div n)) ''running''
                 (''Processing file '' @ show_nat (i + 1) @ ''/'' @ show_nat n @ '': '' @
                  item_str file_info ''filename'') None w"
  let ?pdf = "generate_pdf_from_step (pdf_env e i) (item_str file_info ''path'') u ?w1"
  have eq: "fst (generate_json_from_step (json_env e i) (item_str file_info ''path'') u (snd ?pdf)) =
            fst (generate_json_from_step (json_env e i) (item_str file_info ''path'') u w0)"
    by (rule generate_json_fst)
  show ?thesis
    unfolding convert_step_def Let_def eq using assms by simp
qed

lemma convert_step_json_success:
  assumes "dict_get (fst (generate_json_from_step (json_env e i) (item_str file_info ''path'') u w0))
             ''status'' = PStr ''success''"
  shows "\<exists>pdfs1 jsons1. fst (convert_step e u n i file_info pdfs jsons w) = Inr (pdfs1, jsons1)"
proof -
  let ?w1 = "publish_progress u (70 + int (((i + 1) * 20) div n)) ''running''
                 (''Processing file '' @ show_nat (i + 1) @ ''/'' @ show_nat n @ '': '' @
                  item_str file_info ''filename'') None w"
  let ?pdf = "generate_pdf_from_step (pdf_env e i) (item_str file_info ''path'') u ?w1"
  have eq: "fst (generate_json_from_step (json_env e i) (item_str file_info ''path'') u (snd ?pdf)) =
            fst (generate_json_from_step (json_env e i) (item_str file_info ''path'') u w0)"
    by (rule generate_json_fst)
  show ?thesis
    unfolding convert_step_def Let_def eq using assms by simp
qed

lemma derive_first_failure:
  assumes "k < length xs"
    and "dict_get (xs ! k) ''type'' = PStr ''step''"
    and "dict_get (fst (generate_json_from_step (json_env e (i + k)) (item_str (xs ! k) ''path'') u w0))
           ''status'' \<noteq> PStr ''success''"
    and "\<forall>m<k. dict_get (xs ! m) ''type'' = PStr ''step'' \<longrightarrow>
           dict_get (fst (generate_json_from_step (json_env e (i + m)) (item_str (xs ! m) ''path'') u w0))
             ''status'' = PStr ''success''"
  shows "fst (derive e u n i xs pdfs jsons w) =
     Inl (let json_result =
                fst (generate_json_from_step (json_env e (i + k)) (item_str (xs ! k) ''path'') u w0)
          in failed_with_details (json_error_of json_result)
               (PDict [(''error'', PStr (json_error_of json_result)),
                       (''result'', PDict json_result),
                       (''step_file'', dict_get (xs ! k) ''path'')]))"
  using assms
proof (induction xs arbitrary: k i pdfs jsons w)
  case Nil
  then show ?case by simp
next
  case (Cons x xs)
  show ?case
  proof (cases k)
    case 0
    with Cons.prems(2,3) convert_step_json_failure[of e i x u w0 n pdfs jsons w]
    show ?thesis by (auto simp add: Let_def split: prod.splits sum.splits)
  next
    case (Suc k')
    have k': "k' < length xs" using Cons.prems(1) Suc by simp
    have t: "dict_get (xs ! k') ''type'' = PStr ''step''" using Cons.prems(2) Suc by simp
    have f: "dict_get (fst (generate_json_from_step (json_env e (Suc i + k'))
                 (item_str (xs ! k') ''path'') u w0)) ''status'' \<noteq> PStr ''success''"
      using Cons.prems(3) Suc by simp
    have a: "\<forall>m<k'. dict_get (xs ! m) ''type'' = PStr ''step'' \<longrightarrow>
           dict_get (fst (generate_json_from_step (json_env e (Suc i + m))
               (item_str (xs ! m) ''path'') u w0)) ''status'' = PStr ''success''"
    proof (intro allI impI)
      fix m assume "m < k'" and "dict_get (xs ! m) ''type'' = PStr ''step''"
      then show "dict_get (fst (generate_json_from_step (json_env e (Suc i + m))
               (item_str (xs ! m) ''path'') u w0)) ''status'' = PStr ''success''"
        using Cons.prems(4)[rule_format, of "Suc m"] Suc by simp
    qed
    note IH = Cons.IH[OF k' t f a]
    have goal: "(let json_result =
                fst (generate_json_from_step (json_env e (i + k)) (item_str ((x # xs) ! k) ''path'') u w0)
          in failed_with_details (json_error_of json_result)
               (PDict [(''error'', PStr (json_error_of json_result)),
                       (''result'', PDict json_result),
                       (''step_file'', dict_get ((x # xs) ! k) ''path'')])) =
         (let json_result =
                fst (generate_json_from_step (json_env e (Suc i + k')) (item_str (xs ! k') ''path'') u w0)
          in failed_with_details (json_error_of json_result)
               (PDict [(''error'', PStr (json_error_of json_result)),
                       (''result'', PDict json_result),
                       (''step_file'', dict_get (xs ! k') ''path'')]))"
      using Suc by simp
    show ?thesis
    proof (cases "dict_get x ''type'' = PStr ''step''")
      case False
      then show ?thesis unfolding goal using IH by simp
    next
      case True
      have "dict_get (fst (generate_json_from_step (json_env e i) (item_str x ''path'') u w0))
             ''status'' = PStr ''success''"
        using Cons.prems(4)[rule_format, of 0] True Suc by simp
      from convert_step_json_success[OF this, of n pdfs jsons w]
      obtain p j where "fst (convert_step e u n i x pdfs jsons w) = Inr (p, j)" by blast
      then obtain w1 where "convert_step e u n i x pdfs jsons w = (Inr (p, j), w1)"
        by (cases "convert_step e u n i x pdfs jsons w") simp
      then show ?thesis unfolding goal using True IH by simp
    qed
  qed
qed


lemma convert_step_fst:
  "fst (convert_step e u n i file_info pdfs jsons w) =
     (let pdf_result = fst (generate_pdf_from_step (pdf_env e i) (item_str file_info ''path'') u w0);
          json_result = fst (generate_json_from_step (json_env e i) (item_str file_info ''path'') u w0)
      in if dict_get json_result ''status'' = PStr ''success''
         then Inr (if dict_get pdf_result ''status'' = PStr ''success''
                   then pdfs @ [[(''type'', PStr ''pdf''),
                                 (''path'', dict_get pdf_result ''pdf_path''),
                                 (''filename'', dict_get pdf_result ''filename'')]]
                   else pdfs,
                   jsons @ [[(''type'', PStr ''json''),
                             (''path'', dict_get json_result ''json_path''),
                             (''filename'', dict_get json_result ''filename'')]])
         else Inl (failed_with_details (json_error_of json_result)
                     (PDict [(''error'', PStr (json_error_of json_result)),
                             (''result'', PDict json_result),
                             (''step_file'', dict_get file_info ''path'')])))"
proof -
  let ?w1 = "publish_progress u (70 + int (((i + 1) * 20) div n)) ''running''
                 (''Processing file '' @ show_nat (i + 1) @ ''/'' @ show_nat n @ '': '' @
                  item_str file_info ''filename'') None w"
  let ?pdf = "generate_pdf_from_step (pdf_env e i) (item_str file_info ''path'') u ?w1"
  have eq: "fst (generate_json_from_step (json_env e i) (item_str file_info ''path'') u (snd ?pdf)) =
            fst (generate_json_from_step (json_env e i) (item_str file_info ''path'') u w0)"
    by (rule generate_json_fst)
  have eq2: "fst ?pdf = fst (generate_pdf_from_step (pdf_env e i) (item_str file_info ''path'') u w0)"
    by (rule generate_pdf_fst)
  show ?thesis
    unfolding convert_step_def Let_def eq eq2 by simp
qed

lemma promote_files_pdf:
  "promote_files (e\<lparr>pdf_env := p\<rparr>) c u root files acc w = promote_files e c u root files acc w"
  by (induction files arbitrary: acc w) (simp_all add: Let_def split: option.splits)

lemma promote_walk_pdf:
  "promote_walk (e\<lparr>pdf_env := p\<rparr>) c u walk acc w = promote_walk e c u walk acc w"
  by (induction walk arbitrary: acc w) (auto simp add: promote_files_pdf split: prod.splits sum.splits)

lemma find_generated_files_pdf:
  "find_generated_files (e\<lparr>pdf_env := p\<rparr>) u w = find_generated_files e u w"
  by (simp add: find_generated_files_def promote_walk_pdf Let_def
      split: prod.splits sum.splits cong: if_cong)

lemma convert_step_pdf:
  "map_sum id snd (fst (convert_step (e\<lparr>pdf_env := p\<rparr>) u n i x pdfs' jsons w')) =
   map_sum id snd (fst (convert_step e u n i x pdfs jsons w))"
  by (simp add: convert_step_fst[where ?w0.0 = w] Let_def)

lemma derive_pdf:
  "map_sum id snd (fst (derive (e\<lparr>pdf_env := p\<rparr>) u n i xs pdfs' jsons w')) =
   map_sum id snd (fst (derive e u n i xs pdfs jsons w))"
proof (induction xs arbitrary: i pdfs pdfs' jsons w w')
  case Nil
  show ?case by simp
next
  case (Cons x xs)
  show ?case
  proof (cases "dict_get x ''type'' = PStr ''step''")
    case False
    then show ?thesis using Cons.IH[of "Suc i" pdfs' jsons w' pdfs w] by simp
  next
    case True
    obtain a w1' where l: "convert_step (e\<lparr>pdf_env := p\<rparr>) u n i x pdfs' jsons w' = (a, w1')"
      by (cases "convert_step (e\<lparr>pdf_env := p\<rparr>) u n i x pdfs' jsons w'")
    obtain b w1 where r: "convert_step e u n i x pdfs jsons w = (b, w1)"
      by (cases "convert_step e u n i x pdfs jsons w")
    have rel: "map_sum id snd a = map_sum id snd b"
      using convert_step_pdf[of p e u n i x pdfs' jsons w' pdfs w] l r by simp
    show ?thesis
    proof (cases b)
      case (Inl returned)
      with rel have "a = Inl returned" by (cases a) simp_all
      with Inl True l r show ?thesis by simp
    next
      case (Inr pj)
      obtain pf jf where pj: "pj = (pf, jf)" by (cases pj)
      with rel Inr obtain pf' where "a = Inr (pf', jf)" by (cases a) auto
      with Inr pj True l r Cons.IH[of "Suc i" pf' jf w1' pf w1] show ?thesis by simp
    qed
  qed
qed

lemma after_process_zero:
  assumes "fst (find_generated_files e u w0) = Inr gen" and "gen \<noteq> []"
  shows "\<exists>w7. fst (after_process e u d 0 out err w) =
           (case fst (derive e u (length gen) 0 gen [] [] w7) of
              Inl returned \<Rightarrow> Inr returned
            | Inr (pdf_files, json_files) \<Rightarrow>
                Inr (PDict [(''status'', PStr ''success''),
                            (''files'', PList (map PDict (gen @ pdf_files @ json_files)))]))"
proof -
  let ?w1 = "publish_progress u 40 ''running''
     ''FreeCAD script executed successfully, searching for generated files...'' None w"
  obtain x w5 where f: "find_generated_files e u ?w1 = (x, w5)"
    by (cases "find_generated_files e u ?w1")
  have x: "x = Inr gen"
    using find_generated_files_fst[of e u ?w1 w0] f assms(1) by simp
  let ?w7 = "publish_progress u 70 ''running''
           (''Found '' @ show_nat (length gen) @ '' files, generating PDF and JSON...'') None
           (rmtree d w5)"
  show ?thesis
    using f x assms(2)
    by (intro exI[of _ ?w7])
       (simp add: after_process_def Let_def split: prod.splits sum.splits del: append.simps)
qed

lemma after_process_pdf:
  "map_sum id outcome (fst (after_process (e\<lparr>pdf_env := p\<rparr>) u d rc out err w')) =
   map_sum id outcome (fst (after_process e u d rc out err w))"
proof (cases "rc \<noteq> 0")
  case True
  then show ?thesis by (simp add: after_process_def Let_def)
next
  case False
  let ?w1 = "publish_progress u 40 ''running''
     ''FreeCAD script executed successfully, searching for generated files...'' None w"
  let ?w1' = "publish_progress u 40 ''running''
     ''FreeCAD script executed successfully, searching for generated files...'' None w'"
  obtain x w5 where f: "find_generated_files e u ?w1 = (x, w5)"
    by (cases "find_generated_files e u ?w1")
  obtain x' w5' where f': "find_generated_files e u ?w1' = (x', w5')"
    by (cases "find_generated_files e u ?w1'")
  have xx: "x' = x" using find_generated_files_fst[of e u ?w1 ?w1'] f f' by simp
  show ?thesis
  proof (cases x)
    case (Inl ex)
    with False f f' xx show ?thesis
      by (simp add: after_process_def Let_def find_generated_files_pdf)
  next
    case (Inr gen)
    show ?thesis
    proof (cases "gen = []")
      case True
      with False f f' xx Inr show ?thesis
        by (simp add: after_process_def Let_def find_generated_files_pdf)
    next
      case ne: False
      let ?w7 = "publish_progress u 70 ''running''
           (''Found '' @ show_nat (length gen) @ '' files, generating PDF and JSON...'') None
           (rmtree d w5)"
      let ?w7' = "publish_progress u 70 ''running''
           (''Found '' @ show_nat (length gen) @ '' files, generating PDF and JSON...'') None
           (rmtree d w5')"
      obtain a w8' where l: "derive (e\<lparr>pdf_env := p\<rparr>) u (length gen) 0 gen [] [] ?w7' = (a, w8')"
        by (cases "derive (e\<lparr>pdf_env := p\<rparr>) u (length gen) 0 gen [] [] ?w7'")
      obtain b w8 where r: "derive e u (length gen) 0 gen [] [] ?w7 = (b, w8)"
        by (cases "derive e u (length gen) 0 gen [] [] ?w7")
      have rel: "map_sum id snd a = map_sum id snd b"
        using derive_pdf[of p e u "length gen" 0 gen "[]" "[]" ?w7' "[]" ?w7] l r by simp
      show ?thesis
      proof (cases b)
        case (Inl returned)
        with rel have "a = Inl returned" by (cases a) simp_all
        with Inl False f f' xx \<open>x = Inr gen\<close> ne l r show ?thesis
          by (simp add: after_process_def Let_def find_generated_files_pdf)
      next
        case (Inr pj)
        obtain pf jf where pj: "pj = (pf, jf)" by (cases pj)
        with rel Inr obtain pf' where "a = Inr (pf', jf)" by (cases a) auto
        with Inr pj False f f' xx \<open>x = Inr gen\<close> ne l r show ?thesis
          by (simp add: after_process_def Let_def find_generated_files_pdf outcome_def dict_get_def)
      qed
    qed
  qed
qed

lemma execute_body_pdf:
  "map_sum id outcome (fst (execute_body (e\<lparr>pdf_env := p\<rparr>) script u w)) =
   map_sum id outcome (fst (execute_body e script u w))"
proof (cases "makedirs_raises e")
  case (Some x)
  then show ?thesis by (simp add: execute_body_def Let_def)
next
  case None
  show ?thesis
  proof (cases "process e")
    case (PopenRaises x)
    with None show ?thesis by (simp add: execute_body_def Let_def)
  next
    case (Runs seconds rc out err)
    show ?thesis
    proof (cases "3600 < seconds")
      case True
      with None Runs show ?thesis by (simp add: execute_body_def Let_def)
    next
      case False
      then have le: "seconds \<le> 3600" by simp
      have None': "makedirs_raises (e\<lparr>pdf_env := p\<rparr>) = None" using None by simp
      have Runs': "process (e\<lparr>pdf_env := p\<rparr>) = Runs seconds rc out err" using Runs by simp
      obtain w1 where a: "execute_body e script u w =
           after_process e u (path_join STORAGE_PATH (''user_'' @ u)) rc out err w1"
        using execute_body_exit[OF None Runs le, of script u w] by (elim exE)
      obtain w1' where b: "execute_body (e\<lparr>pdf_env := p\<rparr>) script u w =
           after_process (e\<lparr>pdf_env := p\<rparr>) u (path_join STORAGE_PATH (''user_'' @ u)) rc out err w1'"
        using execute_body_exit[OF None' Runs' le, of script u w] by (elim exE)
      show ?thesis unfolding a b by (rule after_process_pdf)
    qed
  qed
qed

lemma execute_pdf:
  "outcome (fst (execute_freecad_script (e\<lparr>pdf_env := p\<rparr>) script uid w)) =
   outcome (fst (execute_freecad_script e script uid w))"
proof -
  let ?u = "case uid of None \<Rightarrow> uuid4 e | Some u \<Rightarrow> u"
  have ueq: "(case uid of None \<Rightarrow> uuid4 (e\<lparr>pdf_env := p\<rparr>) | Some u \<Rightarrow> u) = ?u"
    by (cases uid) simp_all
  obtain a where a: "fst (execute_body (e\<lparr>pdf_env := p\<rparr>) script ?u w) = a" by simp
  obtain b where b: "fst (execute_body e script ?u w) = b" by simp
  have rel: "map_sum id outcome a = map_sum id outcome b"
    using execute_body_pdf[of p e script ?u w] a b by simp
  show ?thesis
  proof (cases b)
    case (Inl x)
    with rel have "a = Inl x" by (cases a) simp_all
    with Inl a b show ?thesis by (simp add: execute_result ueq)
  next
    case (Inr r)
    with rel obtain r' where "a = Inr r'" "outcome r' = outcome r" by (cases a) auto
    with Inr a b show ?thesis by (simp add: execute_result ueq)
  qed
qed

lemma find_box:
  "walk_user e = [(''/app/storage/user_u1'', [''box.step''])] \<Longrightarrow>
   copy2_raises e ''/app/storage/user_u1/box.step'' ''/app/storage/box_u1.step'' = None \<Longrightarrow>
   fst (find_generated_files e ''u1'' w) =
     Inr [[(''type'', PStr ''step''), (''path'', PStr ''/app/storage/box_u1.step''),
           (''filename'', PStr ''box_u1.step'')]]"
  by (simp add: find_generated_files_def endswith_def suffix_to_prefix splitext_def
      path_join_def STORAGE_PATH_def Let_def)

lemma json_boom:
  "fst (generate_json_from_step (JsonRuns 3 1 [] ''boom'' False) p u w) =
     [(''status'', PStr ''failed''),
      (''error'', PStr ''FreeCAD command failed with return code 1: boom''),
      (''stdout'', PStr []), (''stderr'', PStr ''boom'')]"
  by (simp add: generate_json_from_step_def Let_def show_int_def show_nat.simps digit_char_def
      first_500_def)

lemma split_on_nonempty: "split_on c s \<noteq> []"
  by (induction s) (auto split: list.splits)

lemma split_on_no_sep: "x \<in> set (split_on c s) \<Longrightarrow> c \<notin> set x"
proof (induction s arbitrary: x)
  case Nil
  then show ?case by simp
next
  case (Cons a s)
  show ?case
  proof (cases "a = c")
    case True
    with Cons show ?thesis by auto
  next
    case False
    obtain w ws where sp: "split_on c s = w # ws"
      using split_on_nonempty[of c s] by (cases "split_on c s") auto
    with Cons False show ?thesis by auto
  qed
qed

lemma split_on_plain: "c \<notin> set s \<Longrightarrow> split_on c s = [s]"
  by (induction s) auto

lemma split_on_append: "split_on c (a @ c # b) = split_on c a @ split_on c b"
proof (induction a)
  case Nil
  show ?case by simp
next
  case (Cons x a)
  obtain w ws where sp: "split_on c a = w # ws"
    using split_on_nonempty[of c a] by (cases "split_on c a") auto
  with Cons show ?case by auto
qed

lemma on_message_key:
  "on_message tpc msg t pd u = Some r \<Longrightarrow> pd u = None \<Longrightarrow> CHR ''/'' \<notin> set u"
proof -
  assume a: "on_message tpc msg t pd u = Some r" and b: "pd u = None"
  have l: "last (split_on CHR ''/'' tpc) \<in> set (split_on CHR ''/'' tpc)"
    using split_on_nonempty by simp
  have "u = last (split_on CHR ''/'' tpc)"
    using a b
    by (auto simp add: on_message_def Let_def split: if_splits option.splits pyval.splits)
  then show ?thesis using split_on_no_sep[OF l] by simp
qed

lemma reachable_keys: "reachable pd \<Longrightarrow> pd u = Some r \<Longrightarrow> CHR ''/'' \<notin> set u"
proof (induction arbitrary: r rule: reachable.induct)
  case start
  then show ?case by simp
next
  case (receive pd tpc msg received)
  show ?case
  proof (cases "pd u")
    case None
    with receive.prems on_message_key show ?thesis by blast
  next
    case (Some r0)
    then show ?thesis by (rule receive.IH)
  qed
qed

lemma on_message_keeps_error:
  assumes "pd u = Some r"
    and "\<forall>kvs. msg = Some (PDict kvs) \<longrightarrow> ''error'' \<notin> fst ` set kvs"
  shows "\<exists>r'. on_message tpc msg t pd u = Some r' \<and> rec_error r' = rec_error r"
proof (cases "3 \<le> length (split_on CHR ''/'' tpc) \<and> last (split_on CHR ''/'' tpc) = u")
  case False
  then have "on_message tpc msg t pd u = pd u"
    by (auto simp add: on_message_def Let_def split: option.splits pyval.splits)
  with assms(1) show ?thesis by simp
next
  case True
  show ?thesis
  proof (cases msg)
    case None
    with assms(1) show ?thesis by (simp add: on_message_def Let_def)
  next
    case (Some message_data)
    show ?thesis
    proof (cases message_data)
      case (PDict kvs)
      with Some assms(2) have "map_of kvs ''error'' = None"
        by (simp add: map_of_eq_None_iff)
      with Some PDict assms(1) True show ?thesis
        by (simp add: on_message_def Let_def split: option.splits)
    qed (use Some assms(1) True in \<open>simp_all add: on_message_def Let_def\<close>)
  qed
qed

lemma deliver_append: "deliver (xs @ ys) pd = deliver ys (deliver xs pd)"
  by (induction xs arbitrary: pd) simp_all

lemma deliver_quiet:
  "pd u = Some r \<Longrightarrow> list_all quiet ms \<Longrightarrow>
   \<exists>r'. deliver ms pd u = Some r' \<and> rec_error r' = rec_error r"
proof (induction ms arbitrary: pd r)
  case Nil
  then show ?case by simp
next
  case (Cons m ms)
  from Cons.prems(2) have qm: "quiet m" and rest: "list_all quiet ms" by simp_all
  from qm have q: "''error'' \<notin> fst ` set (payload m)" by (simp add: quiet_def)
  from on_message_keeps_error[of pd u r "Some (PDict (payload m))" "topic m" "at m"] q Cons.prems(1)
  obtain r1 where r1: "on_message (topic m) (Some (PDict (payload m))) (at m) pd u = Some r1"
    and e1: "rec_error r1 = rec_error r" by auto
  from Cons.IH[of "on_message (topic m) (Some (PDict (payload m))) (at m) pd" r1] r1 rest e1
  show ?case by simp
qed


lemma extends_quietly_refl [simp]: "extends_quietly w w"
  by (simp add: extends_quietly_def)

lemma extends_quietly_trans:
  "extends_quietly a b \<Longrightarrow> extends_quietly b c \<Longrightarrow> extends_quietly a c"
  by (auto simp add: extends_quietly_def)

lemma extends_quietly_same:
  "connected w' = connected w \<Longrightarrow> outbox w' = outbox w \<Longrightarrow> extends_quietly w w'"
  by (simp add: extends_quietly_def)

lemma publish_progress_quiet: "extends_quietly w (publish_progress u p s m None w)"
  by (simp add: extends_quietly_def publish_progress_def quiet_def)

lemma publish_status_quiet: "extends_quietly w (publish_status u s m None w)"
  by (simp add: extends_quietly_def publish_status_def quiet_def)

lemma heartbeat_quiet: "extends_quietly w (snd (heartbeat_worker t_set u t v w))"
proof (cases "connected w")
  case False
  then show ?thesis
    by (simp add: extends_quietly_def heartbeat_disconnected heartbeat_keeps)
next
  case True
  from heartbeat_outbox[OF True, of t_set u t v] obtain n where
    "outbox (snd (heartbeat_worker t_set u t v w)) =
         outbox w @
         map (\<lambda>k. \<lparr>at = t + 5 * k, topic = ''freecad/progress/'' @ u,
                    payload = [(''user_id'', PStr u),
                               (''progress'', PInt (min (v + 2 * (int k + 1)) 35)),
                               (''status'', PStr ''running''),
                               (''message'', PStr (''FreeCAD script is running... (progress: '' @
                                   show_int (min (v + 2 * (int k + 1)) 35) @ ''%)'')),
                               (''timestamp'', PStr (isoformat (t + 5 * k)))]\<rparr>) [0..<n]"
    by blast
  then show ?thesis
    by (simp add: extends_quietly_def heartbeat_keeps list_all_iff quiet_def)
qed

lemma promote_files_outbox:
  "connected (snd (promote_files e c u root files acc w)) = connected w \<and>
   outbox (snd (promote_files e c u root files acc w)) = outbox w"
  by (induction files arbitrary: acc w) (simp_all add: Let_def split: option.splits)

lemma promote_walk_outbox:
  "connected (snd (promote_walk e c u walk acc w)) = connected w \<and>
   outbox (snd (promote_walk e c u walk acc w)) = outbox w"
proof (induction walk arbitrary: acc w)
  case Nil
  show ?case by simp
next
  case (Cons rf rest)
  obtain root files where rf: "rf = (root, files)" by (cases rf)
  obtain x w1 where a: "promote_files e c u root files acc w = (x, w1)"
    by (cases "promote_files e c u root files acc w")
  have k: "connected w1 = connected w \<and> outbox w1 = outbox w"
    using promote_files_outbox[of e c u root files acc w] a by simp
  show ?case
    using rf a k Cons.IH by (cases x) simp_all
qed

lemma find_generated_files_quiet: "extends_quietly w (snd (find_generated_files e u w))"
proof -
  let ?w1 = "publish_progress u 50 ''running'' ''Searching for generated files...'' None w"
  obtain x w2 where a: "promote_walk e False u (walk_user e) [] ?w1 = (x, w2)"
    by (cases "promote_walk e False u (walk_user e) [] ?w1")
  have q1: "extends_quietly w ?w1" by (rule publish_progress_quiet)
  have q2: "extends_quietly ?w1 w2"
    using promote_walk_outbox[of e False u "walk_user e" "[]" ?w1] a
    by (simp add: extends_quietly_same)
  have q12: "extends_quietly w w2" using q1 q2 by (rule extends_quietly_trans)
  show ?thesis
  proof (cases x)
    case (Inl ex)
    with a q12 show ?thesis by (simp add: find_generated_files_def Let_def)
  next
    case (Inr found)
    let ?w3 = "publish_progress u 60 ''running''
                  ''Searching in cad_outputs_generated directory...'' None w2"
    have q3: "extends_quietly w ?w3"
      using q12 publish_progress_quiet by (rule extends_quietly_trans)
    have q4: "extends_quietly w (snd (promote_walk e True u (walk_cad e) found ?w3))"
    proof (rule extends_quietly_trans[OF q3])
      show "extends_quietly ?w3 (snd (promote_walk e True u (walk_cad e) found ?w3))"
        by (rule extends_quietly_same) (simp_all only: promote_walk_outbox)
    qed
    from Inr a q12 q3 q4 show ?thesis by (auto simp add: find_generated_files_def Let_def)
  qed
qed

lemma generate_pdf_outbox:
  "connected (snd (generate_pdf_from_step oc p u w)) = connected w \<and>
   outbox (snd (generate_pdf_from_step oc p u w)) = outbox w"
  by (cases oc) (auto simp add: generate_pdf_from_step_def Let_def split: option.splits)

lemma generate_json_outbox:
  "connected (snd (generate_json_from_step oc p u w)) = connected w \<and>
   outbox (snd (generate_json_from_step oc p u w)) = outbox w"
  by (cases oc) (auto simp add: generate_json_from_step_def Let_def add_path_def)


lemma extends_quietly_steps:
  "extends_quietly w w' \<Longrightarrow> extends_quietly w (publish_progress u p s m None w')"
  "extends_quietly w w' \<Longrightarrow> extends_quietly w (publish_status u s m None w')"
  "extends_quietly w w' \<Longrightarrow> extends_quietly w (add_path pth w')"
  "extends_quietly w w' \<Longrightarrow> extends_quietly w (rmtree pth w')"
  "extends_quietly w w' \<Longrightarrow> extends_quietly w (w'\<lparr>clock := c\<rparr>)"
  "extends_quietly w w' \<Longrightarrow> extends_quietly w (w'\<lparr>fs := f\<rparr>)"
  "extends_quietly w w' \<Longrightarrow> extends_quietly w (snd (heartbeat_worker t_set u t v w'))"
  "extends_quietly w w' \<Longrightarrow> extends_quietly w (snd (find_generated_files e u w'))"
proof -
  assume a: "extends_quietly w w'"
  show "extends_quietly w (publish_progress u p s m None w')"
    using a publish_progress_quiet by (rule extends_quietly_trans)
  show "extends_quietly w (publish_status u s m None w')"
    using a publish_status_quiet by (rule extends_quietly_trans)
  show "extends_quietly w (add_path pth w')" using a by (simp add: extends_quietly_def)
  show "extends_quietly w (rmtree pth w')" using a by (simp add: extends_quietly_def)
  show "extends_quietly w (w'\<lparr>clock := c\<rparr>)" using a by (simp add: extends_quietly_def)
  show "extends_quietly w (w'\<lparr>fs := f\<rparr>)" using a by (simp add: extends_quietly_def)
  show "extends_quietly w (snd (heartbeat_worker t_set u t v w'))"
    using a heartbeat_quiet by (rule extends_quietly_trans)
  show "extends_quietly w (snd (find_generated_files e u w'))"
    using a find_generated_files_quiet by (rule extends_quietly_trans)
qed

lemma convert_step_quiet:
  assumes "fst (convert_step e u n i x pdfs jsons w) = Inr pj"
  shows "extends_quietly w (snd (convert_step e u n i x pdfs jsons w))"
proof -
  let ?w1 = "publish_progress u (70 + int (((i + 1) * 20) div n)) ''running''
                 (''Processing file '' @ show_nat (i + 1) @ ''/'' @ show_nat n @ '': '' @
                  item_str x ''filename'') None w"
  let ?pdf = "generate_pdf_from_step (pdf_env e i) (item_str x ''path'') u ?w1"
  let ?json = "generate_json_from_step (json_env e i) (item_str x ''path'') u (snd ?pdf)"
  have s: "dict_get (fst ?json) ''status'' = PStr ''success''"
    using assms unfolding convert_step_def Let_def by (simp split: if_splits)
  have w: "snd (convert_step e u n i x pdfs jsons w) = snd ?json"
    unfolding convert_step_def Let_def using s by simp
  have "extends_quietly ?w1 (snd ?json)"
    by (rule extends_quietly_same) (simp_all only: generate_json_outbox generate_pdf_outbox)
  with publish_progress_quiet[of w] show ?thesis
    unfolding w by (rule extends_quietly_trans)
qed

lemma derive_quiet:
  "fst (derive e u n i xs pdfs jsons w) = Inr pj \<Longrightarrow>
   extends_quietly w (snd (derive e u n i xs pdfs jsons w))"
proof (induction xs arbitrary: i pdfs jsons w)
  case Nil
  show ?case by simp
next
  case (Cons x xs)
  show ?case
  proof (cases "dict_get x ''type'' = PStr ''step''")
    case False
    with Cons.prems Cons.IH[of "Suc i" pdfs jsons w] show ?thesis by simp
  next
    case True
    obtain a w1 where cs: "convert_step e u n i x pdfs jsons w = (a, w1)"
      by (cases "convert_step e u n i x pdfs jsons w")
    show ?thesis
    proof (cases a)
      case (Inl returned)
      with Cons.prems True cs show ?thesis by simp
    next
      case (Inr pj1)
      obtain p j where pj1: "pj1 = (p, j)" by (cases pj1)
      have q1: "extends_quietly w w1"
        using convert_step_quiet[of e u n i x pdfs jsons w pj1] cs Inr by simp
      have "fst (derive e u n (Suc i) xs p j w1) = Inr pj"
        using Cons.prems True cs Inr pj1 by simp
      from Cons.IH[OF this] have "extends_quietly w1 (snd (derive e u n (Suc i) xs p j w1))" .
      with q1 have "extends_quietly w (snd (derive e u n (Suc i) xs p j w1))"
        by (rule extends_quietly_trans)
      with True cs Inr pj1 show ?thesis by simp
    qed
  qed
qed

lemma outcome_failed [simp]:
  "fst (outcome (failed_with_details m d)) = PStr ''failed''"
  "fst (outcome (failed_result m)) = PStr ''failed''"
  by (simp_all add: outcome_def failed_with_details_def failed_result_def dict_get_def)

lemma after_process_success_world:
  assumes "fst (after_process e u d rc out err w) = Inr r"
    and "fst (outcome r) = PStr ''success''"
  shows "\<exists>w8 m1 m2. extends_quietly w w8 \<and>
           snd (after_process e u d rc out err w) =
             publish_status u ''finished'' m2 None (publish_progress u 100 ''finished'' m1 None w8)"
proof (cases "rc \<noteq> 0")
  case True
  with assms show ?thesis by (auto simp add: after_process_def Let_def)
next
  case False
  let ?w1 = "publish_progress u 40 ''running''
     ''FreeCAD script executed successfully, searching for generated files...'' None w"
  obtain x w5 where f: "find_generated_files e u ?w1 = (x, w5)"
    by (cases "find_generated_files e u ?w1")
  have "extends_quietly ?w1 w5"
    using find_generated_files_quiet[of ?w1 e u] f by simp
  with publish_progress_quiet have q5: "extends_quietly w w5"
    by (rule extends_quietly_trans)
  show ?thesis
  proof (cases x)
    case (Inl ex)
    with assms False f show ?thesis by (simp add: after_process_def Let_def)
  next
    case (Inr gen)
    show ?thesis
    proof (cases "gen = []")
      case True
      with assms False f Inr show ?thesis by (auto simp add: after_process_def Let_def)
    next
      case ne: False
      let ?w7 = "publish_progress u 70 ''running''
           (''Found '' @ show_nat (length gen) @ '' files, generating PDF and JSON...'') None
           (rmtree d w5)"
      have q7: "extends_quietly w ?w7"
        by (intro extends_quietly_steps q5)
      obtain y w8 where dv: "derive e u (length gen) 0 gen [] [] ?w7 = (y, w8)"
        by (cases "derive e u (length gen) 0 gen [] [] ?w7")
      show ?thesis
      proof (cases y)
        case (Inl returned)
        have "fst (derive e u (length gen) 0 gen [] [] ?w7) = Inl returned"
          using dv Inl by simp
        from derive_returned[OF this] obtain m dt where "returned = failed_with_details m dt"
          by blast
        moreover have "r = returned"
          using assms(1) False f Inr ne dv Inl by (simp add: after_process_def Let_def)
        ultimately show ?thesis using assms(2) by simp
      next
        case (Inr pj)
        obtain p j where pj: "pj = (p, j)" by (cases pj)
        have "fst (derive e u (length gen) 0 gen [] [] ?w7) = Inr pj" using dv Inr by simp
        from derive_quiet[OF this] dv have "extends_quietly ?w7 w8" by simp
        with q7 have q8: "extends_quietly w w8" by (rule extends_quietly_trans)
        have "snd (after_process e u d rc out err w) =
             publish_status u ''finished''
               (''Job completed successfully with '' @ show_nat (length (gen @ p @ j)) @ '' files'') None
               (publish_progress u 100 ''finished''
                  (''Successfully generated '' @ show_nat (length (gen @ p @ j)) @ '' files'') None w8)"
          using False f \<open>x = Inr gen\<close> ne dv Inr pj by (simp add: after_process_def Let_def)
        with q8 show ?thesis by blast
      qed
    qed
  qed
qed

lemma execute_body_success_world:
  assumes "fst (execute_body e script u w) = Inr r"
    and "fst (outcome r) = PStr ''success''"
  shows "\<exists>w8 m1 m2. extends_quietly w w8 \<and>
           snd (execute_body e script u w) =
             publish_status u ''finished'' m2 None (publish_progress u 100 ''finished'' m1 None w8)"
proof (cases "makedirs_raises e")
  case (Some x)
  with assms show ?thesis by (simp add: execute_body_def Let_def)
next
  case None
  show ?thesis
  proof (cases "process e")
    case (PopenRaises x)
    with assms None show ?thesis by (simp add: execute_body_def Let_def)
  next
    case (Runs seconds rc out err)
    show ?thesis
    proof (cases "3600 < seconds")
      case True
      with assms None Runs show ?thesis by (auto simp add: execute_body_def Let_def)
    next
      case False
      let ?w5 = "publish_progress u 20 ''running'' ''Executing FreeCAD script...'' None
                  (publish_progress u 10 ''running'' ''Setting up output directory...'' None
                    (add_path (path_join STORAGE_PATH (''user_'' @ u))
                      (publish_progress u 0 ''started'' ''Initializing...'' None
                        (publish_status u ''started'' ''Starting FreeCAD script execution'' None w))))"
      let ?w6 = "(snd (heartbeat_worker (clock ?w5 + max 1 seconds) u (clock ?w5) 25 ?w5))
                   \<lparr>clock := clock ?w5 + seconds\<rparr>"
      let ?w7 = "?w6\<lparr>fs := walked_paths (walk_user e) @ fs ?w6\<rparr>"
      have b: "execute_body e script u w =
          after_process e u (path_join STORAGE_PATH (''user_'' @ u)) rc out err ?w7"
        using None Runs False unfolding execute_body_def Let_def by simp
      have q: "extends_quietly w ?w7"
        by (intro extends_quietly_steps extends_quietly_refl)
      have fa: "fst (after_process e u (path_join STORAGE_PATH (''user_'' @ u)) rc out err ?w7) = Inr r"
        using assms(1) unfolding b .
      from after_process_success_world[OF fa assms(2)]
      obtain w8 m1 m2 where e1: "extends_quietly ?w7 w8"
        and e2: "snd (after_process e u (path_join STORAGE_PATH (''user_'' @ u)) rc out err ?w7) =
             publish_status u ''finished'' m2 None (publish_progress u 100 ''finished'' m1 None w8)"
        by blast
      have "extends_quietly w w8" using q e1 by (rule extends_quietly_trans)
      moreover have "snd (execute_body e script u w) =
             publish_status u ''finished'' m2 None (publish_progress u 100 ''finished'' m1 None w8)"
        unfolding b by (rule e2)
      ultimately show ?thesis by blast
    qed
  qed
qed

lemma cleanup_script_outbox [simp]: "outbox (cleanup_script script w) = outbox w"
  by (simp add: cleanup_script_def Let_def remove_path_def)

lemma execute_success_outbox:
  assumes "fst (outcome (fst (execute_freecad_script e script uid w))) = PStr ''success''"
  shows "\<exists>w8 m1 m2. extends_quietly w w8 \<and>
           outbox (snd (execute_freecad_script e script uid w)) =
             outbox (publish_status (case uid of None \<Rightarrow> uuid4 e | Some u \<Rightarrow> u) ''finished'' m2 None
                       (publish_progress (case uid of None \<Rightarrow> uuid4 e | Some u \<Rightarrow> u) 100
                          ''finished'' m1 None w8))"
proof -
  let ?u = "case uid of None \<Rightarrow> uuid4 e | Some u \<Rightarrow> u"
  show ?thesis
  proof (cases "fst (execute_body e script ?u w)")
    case (Inl x)
    with assms show ?thesis by (cases x) (simp_all add: execute_result)
  next
    case (Inr r)
    with assms have "fst (outcome r) = PStr ''success''" by (simp add: execute_result)
    from execute_body_success_world[OF Inr this] obtain w8 m1 m2 where
      q: "extends_quietly w w8" and
      sw: "snd (execute_body e script ?u w) =
             publish_status ?u ''finished'' m2 None (publish_progress ?u 100 ''finished'' m1 None w8)"
      by blast
    have "outbox (snd (execute_freecad_script e script uid w)) =
          outbox (snd (execute_body e script ?u w))"
      using Inr by (simp add: execute_world)
    with q sw show ?thesis by (intro exI[of _ w8] exI[of _ m1] exI[of _ m2]) simp
  qed
qed

lemma progress_topic_split:
  "CHR ''/'' \<notin> set u \<Longrightarrow>
   split_on CHR ''/'' (''freecad/progress/'' @ u) = [''freecad'', ''progress'', u]"
  by (simp add: split_on_plain)

lemma status_topic_split:
  "CHR ''/'' \<notin> set u \<Longrightarrow>
   split_on CHR ''/'' (''freecad/status/'' @ u) = [''freecad'', ''status'', u]"
  by (simp add: split_on_plain)

lemma final_messages_received:
  assumes "CHR ''/'' \<notin> set u" and "pd u = Some r" and "connected w"
  shows "\<exists>r'. deliver (drop (length (outbox w))
                  (outbox (publish_status u ''finished'' m2 None
                     (publish_progress u 100 ''finished'' m1 None w)))) pd u = Some r' \<and>
              rec_status r' = PStr ''finished'' \<and> rec_progress r' = PInt 100 \<and>
              rec_error r' = rec_error r"
  using assms
  by (simp add: publish_status_def publish_progress_def on_message_def Let_def split_on_plain)


lemma job_messages_received:
  assumes "CHR ''/'' \<notin> set u" and "pd u = Some r" and "connected w"
    and "extends_quietly w w8"
  shows "\<exists>r'. deliver (drop (length (outbox w))
                  (outbox (publish_status u ''finished'' m2 None
                     (publish_progress u 100 ''finished'' m1 None w8)))) pd u = Some r' \<and>
              rec_status r' = PStr ''finished'' \<and> rec_progress r' = PInt 100 \<and>
              rec_error r' = rec_error r"
proof -
  from assms(4) obtain ms where c8: "connected w8 = connected w"
    and o8: "outbox w8 = outbox w @ ms" and q: "list_all quiet ms"
    by (auto simp add: extends_quietly_def)
  let ?final = "publish_status u ''finished'' m2 None (publish_progress u 100 ''finished'' m1 None w8)"
  have c: "connected w8" using c8 assms(3) by simp
  have "\<exists>tl. outbox ?final = outbox w8 @ tl"
    using c by (simp add: publish_status_def publish_progress_def)
  then obtain tl where tl: "outbox ?final = outbox w8 @ tl" by blast
  have tl': "tl = drop (length (outbox w8)) (outbox ?final)" using tl by simp
  have d: "drop (length (outbox w)) (outbox ?final) = ms @ tl"
    using tl o8 by simp
  from deliver_quiet[of pd u r ms] assms(2) q obtain r1 where
    r1: "deliver ms pd u = Some r1" and e1: "rec_error r1 = rec_error r" by blast
  from final_messages_received[of u "deliver ms pd" r1 w8 m2 m1] assms(1) r1 c
  obtain r' where "deliver tl (deliver ms pd) u = Some r'"
    and "rec_status r' = PStr ''finished''" and "rec_progress r' = PInt 100"
    and "rec_error r' = rec_error r1"
    unfolding tl' by blast
  with e1 show ?thesis unfolding d deliver_append by simp
qed

lemma single_step_success:
  assumes "makedirs_raises e = None" and "process e = Runs seconds 0 out err"
    and "seconds \<le> 3600"
    and "fst (find_generated_files e u w) = Inr [x]"
    and "dict_get x ''type'' = PStr ''step''"
    and "dict_get (fst (generate_json_from_step (json_env e 0) (item_str x ''path'') u w)) ''status'' =
           PStr ''success''"
    and "dict_get (fst (generate_pdf_from_step (pdf_env e 0) (item_str x ''path'') u w)) ''status'' \<noteq>
           PStr ''success''"
  shows "fst (execute_freecad_script e script (Some u) w) =
     PDict [(''status'', PStr ''success''),
            (''files'', PList [PDict x,
               PDict [(''type'', PStr ''json''),
                      (''path'', dict_get (fst (generate_json_from_step (json_env e 0)
                                    (item_str x ''path'') u w)) ''json_path''),
                      (''filename'', dict_get (fst (generate_json_from_step (json_env e 0)
                                    (item_str x ''path'') u w)) ''filename'')]])]"
proof -
  obtain w' where b: "execute_body e script u w =
      after_process e u (path_join STORAGE_PATH (''user_'' @ u)) 0 out err w'"
    using execute_body_exit[OF assms(1-3), of script u w] by (elim exE)
  have ne: "[x] \<noteq> []" by simp
  obtain w7 where a: "fst (after_process e u (path_join STORAGE_PATH (''user_'' @ u)) 0 out err w') =
           (case fst (derive e u (length [x]) 0 [x] [] [] w7) of
              Inl returned \<Rightarrow> Inr returned
            | Inr (pdf_files, json_files) \<Rightarrow>
                Inr (PDict [(''status'', PStr ''success''),
                            (''files'', PList (map PDict ([x] @ pdf_files @ json_files)))]))"
    using after_process_zero[OF assms(4) ne, of "path_join STORAGE_PATH (''user_'' @ u)" out err w']
    by (elim exE)
  have cs: "fst (convert_step e u (length [x]) 0 x [] [] w7) =
      Inr ([], [[(''type'', PStr ''json''),
                      (''path'', dict_get (fst (generate_json_from_step (json_env e 0)
                                    (item_str x ''path'') u w)) ''json_path''),
                      (''filename'', dict_get (fst (generate_json_from_step (json_env e 0)
                                    (item_str x ''path'') u w)) ''filename'')]])"
    using assms(6,7) by (simp add: convert_step_fst[where ?w0.0 = w] Let_def)
  obtain w9 where cs': "convert_step e u (length [x]) 0 x [] [] w7 =
      (Inr ([], [[(''type'', PStr ''json''),
                      (''path'', dict_get (fst (generate_json_from_step (json_env e 0)
                                    (item_str x ''path'') u w)) ''json_path''),
                      (''filename'', dict_get (fst (generate_json_from_step (json_env e 0)
                                    (item_str x ''path'') u w)) ''filename'')]]), w9)"
    using cs by (cases "convert_step e u (length [x]) 0 x [] [] w7") simp
  have d: "fst (derive e u (length [x]) 0 [x] [] [] w7) =
      Inr ([], [[(''type'', PStr ''json''),
                      (''path'', dict_get (fst (generate_json_from_step (json_env e 0)
                                    (item_str x ''path'') u w)) ''json_path''),
                      (''filename'', dict_get (fst (generate_json_from_step (json_env e 0)
                                    (item_str x ''path'') u w)) ''filename'')]])"
    using assms(5) cs' by simp
  show ?thesis
    unfolding execute_result option.case b a d by simp
qed

lemma json_box:
  "fst (generate_json_from_step (JsonRuns 3 0 out [] True) ''/app/storage/box_u1.step'' ''u1'' w) =
     [(''status'', PStr ''success''),
      (''json_path'', PStr ''/app/storage/box_u1_u1.json''),
      (''filename'', PStr ''box_u1_u1.json''),
      (''message'', PStr ''JSON conversion completed successfully'')]"
  by (simp add: generate_json_from_step_def Let_def pathlib_join_def path_parts_def path_stem_def
      path_name_def STORAGE_PATH_def)

lemma box_result:
  "fst (execute_freecad_script env_box ''/app/storage/script_u1_box.py'' (Some ''u1'') world_0) =
     PDict [(''status'', PStr ''success''),
            (''files'', PList
               [PDict [(''type'', PStr ''step''), (''path'', PStr ''/app/storage/box_u1.step''),
                       (''filename'', PStr ''box_u1.step'')],
                PDict [(''type'', PStr ''json''), (''path'', PStr ''/app/storage/box_u1_u1.json''),
                       (''filename'', PStr ''box_u1_u1.json'')]])]"
proof -
  let ?x = "[(''type'', PStr ''step''), (''path'', PStr ''/app/storage/box_u1.step''),
           (''filename'', PStr ''box_u1.step'')]"
  have e: "makedirs_raises env_box = None" "process env_box = Runs 12 0 ''done'' []"
    "json_env env_box 0 = JsonRuns 3 0 ''JSON conversion completed successfully!'' [] True"
    "pdf_env env_box 0 = PdfImportError ''No module named 'technical_drawing_generator' ''"
    by (simp_all add: env_box_def)
  have g: "fst (find_generated_files env_box ''u1'' world_0) = Inr [?x]"
    by (rule find_box) (simp_all add: env_box_def)
  have i: "item_str ?x ''path'' = ''/app/storage/box_u1.step''" "dict_get ?x ''type'' = PStr ''step''"
    by (simp_all add: item_str_def dict_get_def)
  have p: "dict_get (fst (generate_pdf_from_step (pdf_env env_box 0) (item_str ?x ''path'') ''u1'' world_0))
      ''status'' \<noteq> PStr ''success''"
    by (simp add: e generate_pdf_from_step_def dict_get_def)
  have j: "fst (generate_json_from_step (json_env env_box 0) (item_str ?x ''path'') ''u1'' world_0) =
     [(''status'', PStr ''success''),
      (''json_path'', PStr ''/app/storage/box_u1_u1.json''),
      (''filename'', PStr ''box_u1_u1.json''),
      (''message'', PStr ''JSON conversion completed successfully'')]"
    unfolding e i by (rule json_box)
  have js: "dict_get (fst (generate_json_from_step (json_env env_box 0) (item_str ?x ''path'') ''u1'' world_0))
      ''status'' = PStr ''success''"
    unfolding j by (simp add: dict_get_def)
  show ?thesis
    using single_step_success[OF e(1) e(2) _ g i(2) js p, of "''/app/storage/script_u1_box.py''"]
    unfolding j by (simp add: dict_get_def)
qed


lemma pd_failed_u1:
  "pd_failed ''u1'' =
     Some \<lparr>rec_status = PStr ''failed'', rec_progress = PInt 0,
           rec_message = PStr ''FreeCAD command failed with exit code 1'',
           rec_updated_at = PStr (isoformat 12), rec_error = PStr ''exit code 1''\<rparr>"
  by (simp add: pd_failed_def on_message_def default_rec_def)

lemma str_contains_middle: "str_contains u (a @ u @ b)"
  using sublist_appendI[of u a b] by (simp add: str_contains_sublist)

lemma promote_files_primary:
  "fst (promote_files e c u root files acc w) = Inr acc' \<Longrightarrow>
   \<forall>x\<in>set acc'. x \<in> set acc \<or>
      (\<exists>f\<in>set files. (endswith f ''.step'' \<or> endswith f ''.obj'') \<and> x = primary_descriptor u f)"
proof (induction files arbitrary: acc w)
  case Nil
  then show ?case by simp
next
  case (Cons f files)
  show ?case
  proof (cases "endswith f ''.step'' \<or> endswith f ''.obj''")
    case False
    with Cons.prems have "fst (promote_files e c u root files acc w) = Inr acc'" by simp
    from Cons.IH[OF this] show ?thesis by auto
  next
    case True
    let ?src = "path_join root f"
    let ?dst = "path_join STORAGE_PATH (fst (splitext f) @ ''_'' @ u @ snd (splitext f))"
    show ?thesis
    proof (cases "copy2_raises e ?src ?dst")
      case (Some x)
      with True Cons.prems show ?thesis by (simp add: Let_def)
    next
      case None
      let ?w2 = "if c then remove_path ?src (add_path ?dst w) else add_path ?dst w"
      have "fst (promote_files e c u root files (acc @ [primary_descriptor u f]) ?w2) = Inr acc'"
        using Cons.prems True None
        by (cases c; cases "endswith f ''.step''"; simp add: Let_def primary_descriptor_def)
      from Cons.IH[OF this] True show ?thesis by auto
    qed
  qed
qed

lemma promote_walk_primary:
  "fst (promote_walk e c u walk acc w) = Inr acc' \<Longrightarrow>
   \<forall>x\<in>set acc'. x \<in> set acc \<or>
      (\<exists>f\<in>set (concat (map snd walk)). (endswith f ''.step'' \<or> endswith f ''.obj'') \<and>
          x = primary_descriptor u f)"
proof (induction walk arbitrary: acc w)
  case Nil
  then show ?case by simp
next
  case (Cons rf rest)
  obtain root files where rf: "rf = (root, files)" by (cases rf)
  obtain x w1 where a: "promote_files e c u root files acc w = (x, w1)"
    by (cases "promote_files e c u root files acc w")
  show ?case
  proof (cases x)
    case (Inl ex)
    with Cons.prems rf a show ?thesis by simp
  next
    case (Inr acc1)
    have "fst (promote_files e c u root files acc w) = Inr acc1" using a Inr by simp
    note p1 = promote_files_primary[OF this]
    have "fst (promote_walk e c u rest acc1 w1) = Inr acc'"
      using Cons.prems rf a Inr by simp
    note p2 = Cons.IH[OF this]
    show ?thesis
    proof
      fix y assume "y \<in> set acc'"
      with p2 have "y \<in> set acc1 \<or>
        (\<exists>f\<in>set (concat (map snd rest)). (endswith f ''.step'' \<or> endswith f ''.obj'') \<and>
            y = primary_descriptor u f)" by blast
      then show "y \<in> set acc \<or>
        (\<exists>f\<in>set (concat (map snd (rf # rest))). (endswith f ''.step'' \<or> endswith f ''.obj'') \<and>
            y = primary_descriptor u f)"
        using p1 rf by auto
    qed
  qed
qed

lemma find_generated_files_primary:
  assumes "fst (find_generated_files e u w) = Inr gen"
  shows "\<forall>x\<in>set gen. \<exists>f\<in>walked_names e. (endswith f ''.step'' \<or> endswith f ''.obj'') \<and>
            x = primary_descriptor u f"
proof -
  let ?w1 = "publish_progress u 50 ''running'' ''Searching for generated files...'' None w"
  obtain x w2 where a: "promote_walk e False u (walk_user e) [] ?w1 = (x, w2)"
    by (cases "promote_walk e False u (walk_user e) [] ?w1")
  show ?thesis
  proof (cases x)
    case (Inl ex)
    with assms a show ?thesis by (simp add: find_generated_files_def Let_def)
  next
    case (Inr found)
    have "fst (promote_walk e False u (walk_user e) [] ?w1) = Inr found" using a Inr by simp
    from promote_walk_primary[OF this]
    have "\<forall>x\<in>set found. \<exists>f\<in>set (concat (map snd (walk_user e))).
            (endswith f ''.step'' \<or> endswith f ''.obj'') \<and> x = primary_descriptor u f"
      by simp
    then have p1: "\<forall>x\<in>set found. \<exists>f\<in>walked_names e. (endswith f ''.step'' \<or> endswith f ''.obj'') \<and>
            x = primary_descriptor u f"
      unfolding walked_names_def by blast
    show ?thesis
    proof (cases "found = [] \<and> cad_exists e")
      case False
      with assms a Inr have "gen = found"
        by (auto simp add: find_generated_files_def Let_def split: if_splits)
      with p1 show ?thesis by simp
    next
      case True
      let ?w3 = "publish_progress u 60 ''running''
                  ''Searching in cad_outputs_generated directory...'' None w2"
      have "fst (promote_walk e True u (walk_cad e) [] ?w3) = Inr gen"
        using assms a Inr True by (simp add: find_generated_files_def Let_def)
      from promote_walk_primary[OF this]
      have "\<forall>x\<in>set gen. \<exists>f\<in>set (concat (map snd (walk_cad e))).
            (endswith f ''.step'' \<or> endswith f ''.obj'') \<and> x = primary_descriptor u f"
        by simp
      then show ?thesis unfolding walked_names_def by blast
    qed
  qed
qed


lemma split_on_join:
  "ps \<noteq> [] \<Longrightarrow> \<forall>p\<in>set ps. c \<notin> set p \<Longrightarrow> split_on c (join [c] ps) = ps"
proof (induction "[c]" ps rule: join.induct)
  case 1
  then show ?case by simp
next
  case (2 x)
  then show ?case by (simp add: split_on_plain)
next
  case (3 x y ys)
  have "split_on c (x @ c # join [c] (y # ys)) = split_on c x @ split_on c (join [c] (y # ys))"
    by (rule split_on_append)
  with 3 show ?case by (simp add: split_on_plain)
qed

lemma path_parts_ok:
  "x \<in> set (path_parts p) \<Longrightarrow> x \<noteq> [] \<and> x \<noteq> ''.'' \<and> CHR ''/'' \<notin> set x"
  using split_on_no_sep[of x "CHR ''/''" p] by (simp add: path_parts_def)

lemma path_parts_normal:
  "path_parts ((if b then ''/'' else []) @ join ''/'' (path_parts p)) = path_parts p"
proof (cases "path_parts p = []")
  case True
  then show ?thesis by (simp add: path_parts_def)
next
  case False
  have ns: "\<forall>x\<in>set (path_parts p). CHR ''/'' \<notin> set x" using path_parts_ok by blast
  have s: "split_on CHR ''/'' (join ''/'' (path_parts p)) = path_parts p"
    using split_on_join[OF False ns] .
  have f: "filter (\<lambda>c. c \<noteq> [] \<and> c \<noteq> ''.'') (path_parts p) = path_parts p"
    using path_parts_ok by (intro filter_True) blast
  have "split_on CHR ''/'' ([] @ CHR ''/'' # join ''/'' (path_parts p)) =
        split_on CHR ''/'' [] @ split_on CHR ''/'' (join ''/'' (path_parts p))"
    by (rule split_on_append)
  then have s': "split_on CHR ''/'' (CHR ''/'' # join ''/'' (path_parts p)) = [] # path_parts p"
    using s by simp
  show ?thesis
  proof (cases b)
    case True
    have "path_parts (CHR ''/'' # join ''/'' (path_parts p)) = path_parts p"
      unfolding path_parts_def[of "CHR ''/'' # join ''/'' (path_parts p)"] s' using f by simp
    with True show ?thesis by simp
  next
    case nb: False
    have "path_parts (join ''/'' (path_parts p)) = path_parts p"
      unfolding path_parts_def[of "join ''/'' (path_parts p)"] s using f by simp
    with nb show ?thesis by simp
  qed
qed

lemma path_parts_append: "path_parts (a @ CHR ''/'' # b) = path_parts a @ path_parts b"
  by (simp add: path_parts_def split_on_append)

lemma path_name_pathlib_join:
  assumes "CHR ''/'' \<notin> set b" and "b \<noteq> []" and "b \<noteq> ''.''"
  shows "path_name (pathlib_join a b) = b"
proof -
  have np: "\<not> prefix ''/'' b" using assms(1) by (cases b) auto
  have pb: "path_parts b = [b]"
    using assms by (simp add: path_parts_def split_on_plain)
  have "path_parts (pathlib_join a b) = path_parts (a @ CHR ''/'' # b)"
    using np path_parts_normal[of "prefix ''/'' (a @ CHR ''/'' # b)" "a @ CHR ''/'' # b"]
    by (simp add: pathlib_join_def Let_def)
  then have "path_parts (pathlib_join a b) = path_parts a @ [b]"
    using pb by (simp add: path_parts_append)
  then show ?thesis by (simp add: path_name_def)
qed

lemma path_name_no_sep: "CHR ''/'' \<notin> set (path_name p)"
proof (cases "rev (path_parts p)")
  case Nil
  then show ?thesis by (simp add: path_name_def)
next
  case (Cons n ns)
  then have "n \<in> set (path_parts p)" by (metis list.set_intros(1) set_rev)
  from path_parts_ok[OF this] Cons show ?thesis by (simp add: path_name_def)
qed

lemma path_stem_no_sep: "CHR ''/'' \<notin> set (path_stem p)"
  using path_name_no_sep[of p]
  by (auto simp add: path_stem_def Let_def split: option.splits dest: in_set_takeD)

lemma derived_filename:
  assumes "CHR ''/'' \<notin> set u" and "CHR ''/'' \<notin> set ext"
  shows "dict_get (derived_descriptor kind ext u step_path) ''filename'' =
           PStr (path_stem step_path @ ''_'' @ u @ ext)"
proof -
  let ?b = "path_stem step_path @ ''_'' @ u @ ext"
  have 1: "CHR ''/'' \<notin> set ?b" using assms path_stem_no_sep[of step_path] by simp
  have m: "CHR ''_'' \<in> set ?b" by simp
  have "?b \<noteq> ''.''"
  proof
    assume "?b = ''.''"
    with m have "CHR ''_'' \<in> set ''.''" by (simp only:)
    then show False by simp
  qed
  then have 2: "?b \<noteq> []" "?b \<noteq> ''.''" by simp_all
  have "path_name (pathlib_join STORAGE_PATH ?b) = ?b"
    using 1 2 by (rule path_name_pathlib_join)
  then show ?thesis by (simp add: derived_descriptor_def Let_def dict_get_def)
qed

lemma generate_pdf_success:
  "dict_get (fst (generate_pdf_from_step oc sp u w)) ''status'' = PStr ''success'' \<Longrightarrow>
   [(''type'', PStr ''pdf''),
    (''path'', dict_get (fst (generate_pdf_from_step oc sp u w)) ''pdf_path''),
    (''filename'', dict_get (fst (generate_pdf_from_step oc sp u w)) ''filename'')] =
   derived_descriptor ''pdf'' ''.pdf'' u sp"
  by (cases oc)
     (auto simp add: generate_pdf_from_step_def Let_def dict_get_def derived_descriptor_def
           split: option.splits if_splits)

lemma generate_json_success:
  "dict_get (fst (generate_json_from_step oc sp u w)) ''status'' = PStr ''success'' \<Longrightarrow>
   [(''type'', PStr ''json''),
    (''path'', dict_get (fst (generate_json_from_step oc sp u w)) ''json_path''),
    (''filename'', dict_get (fst (generate_json_from_step oc sp u w)) ''filename'')] =
   derived_descriptor ''json'' ''.json'' u sp"
  by (cases oc)
     (auto simp add: generate_json_from_step_def Let_def dict_get_def derived_descriptor_def
           split: option.splits if_splits)

lemma convert_step_derived:
  assumes "fst (convert_step e u n i x pdfs jsons w) = Inr (p, j)"
  shows "(p = pdfs \<or> p = pdfs @ [derived_descriptor ''pdf'' ''.pdf'' u (item_str x ''path'')]) \<and>
         j = jsons @ [derived_descriptor ''json'' ''.json'' u (item_str x ''path'')]"
proof -
  let ?pr = "fst (generate_pdf_from_step (pdf_env e i) (item_str x ''path'') u w)"
  let ?jr = "fst (generate_json_from_step (json_env e i) (item_str x ''path'') u w)"
  have js: "dict_get ?jr ''status'' = PStr ''success''"
    using assms by (simp add: convert_step_fst[where ?w0.0 = w] Let_def split: if_splits)
  note jd = generate_json_success[OF js]
  show ?thesis
  proof (cases "dict_get ?pr ''status'' = PStr ''success''")
    case True
    note pd = generate_pdf_success[OF True]
    show ?thesis
      using assms js True unfolding convert_step_fst[where ?w0.0 = w] Let_def jd pd by simp
  next
    case False
    show ?thesis
      using assms js False unfolding convert_step_fst[where ?w0.0 = w] Let_def jd by simp
  qed
qed

lemma derive_derived:
  "fst (derive e u n i xs pdfs jsons w) = Inr (p, j) \<Longrightarrow>
   (\<forall>y\<in>set p. y \<in> set pdfs \<or>
      (\<exists>x\<in>set xs. dict_get x ''type'' = PStr ''step'' \<and>
          y = derived_descriptor ''pdf'' ''.pdf'' u (item_str x ''path''))) \<and>
   (\<forall>y\<in>set j. y \<in> set jsons \<or>
      (\<exists>x\<in>set xs. dict_get x ''type'' = PStr ''step'' \<and>
          y = derived_descriptor ''json'' ''.json'' u (item_str x ''path'')))"
proof (induction xs arbitrary: i pdfs jsons w)
  case Nil
  then show ?case by simp
next
  case (Cons x xs)
  show ?case
  proof (cases "dict_get x ''type'' = PStr ''step''")
    case False
    with Cons.prems have "fst (derive e u n (Suc i) xs pdfs jsons w) = Inr (p, j)" by simp
    from Cons.IH[OF this] show ?thesis by auto
  next
    case True
    obtain r w1 where cs: "convert_step e u n i x pdfs jsons w = (r, w1)"
      by (cases "convert_step e u n i x pdfs jsons w")
    show ?thesis
    proof (cases r)
      case (Inl returned)
      with Cons.prems True cs show ?thesis by simp
    next
      case (Inr pj)
      obtain p1 j1 where pj: "pj = (p1, j1)" by (cases pj)
      have "fst (convert_step e u n i x pdfs jsons w) = Inr (p1, j1)" using cs Inr pj by simp
      note c = convert_step_derived[OF this]
      have "fst (derive e u n (Suc i) xs p1 j1 w1) = Inr (p, j)"
        using Cons.prems True cs Inr pj by simp
      note ih = Cons.IH[OF this]
      show ?thesis
      proof (intro conjI ballI)
        fix y assume "y \<in> set p"
        with ih have "y \<in> set p1 \<or>
          (\<exists>x\<in>set xs. dict_get x ''type'' = PStr ''step'' \<and>
              y = derived_descriptor ''pdf'' ''.pdf'' u (item_str x ''path''))" by blast
        then show "y \<in> set pdfs \<or>
          (\<exists>x\<in>set (x # xs). dict_get x ''type'' = PStr ''step'' \<and>
              y = derived_descriptor ''pdf'' ''.pdf'' u (item_str x ''path''))"
          using c True by auto
      next
        fix y assume "y \<in> set j"
        with ih have "y \<in> set j1 \<or>
          (\<exists>x\<in>set xs. dict_get x ''type'' = PStr ''step'' \<and>
              y = derived_descriptor ''json'' ''.json'' u (item_str x ''path''))" by blast
        then show "y \<in> set jsons \<or>
          (\<exists>x\<in>set (x # xs). dict_get x ''type'' = PStr ''step'' \<and>
              y = derived_descriptor ''json'' ''.json'' u (item_str x ''path''))"
          using c True by auto
      qed
    qed
  qed
qed

lemma after_process_success_files:
  assumes "fst (after_process e u d rc out err w) =
             Inr (PDict [(''status'', PStr ''success''), (''files'', PList files)])"
  shows "\<exists>gen p j w0 w7. fst (find_generated_files e u w0) = Inr gen \<and>
           fst (derive e u (length gen) 0 gen [] [] w7) = Inr (p, j) \<and>
           files = map PDict (gen @ p @ j)"
proof (cases "rc \<noteq> 0")
  case True
  with assms show ?thesis
    by (auto simp add: after_process_def Let_def failed_with_details_def)
next
  case False
  let ?w1 = "publish_progress u 40 ''running''
     ''FreeCAD script executed successfully, searching for generated files...'' None w"
  obtain x w5 where f: "find_generated_files e u ?w1 = (x, w5)"
    by (cases "find_generated_files e u ?w1")
  show ?thesis
  proof (cases x)
    case (Inl ex)
    with assms False f show ?thesis by (simp add: after_process_def Let_def)
  next
    case (Inr gen)
    have fg: "fst (find_generated_files e u ?w1) = Inr gen" using f Inr by simp
    show ?thesis
    proof (cases "gen = []")
      case True
      with assms False f Inr show ?thesis
        by (auto simp add: after_process_def Let_def failed_with_details_def)
    next
      case ne: False
      let ?w7 = "publish_progress u 70 ''running''
           (''Found '' @ show_nat (length gen) @ '' files, generating PDF and JSON...'') None
           (rmtree d w5)"
      obtain y w8 where dv: "derive e u (length gen) 0 gen [] [] ?w7 = (y, w8)"
        by (cases "derive e u (length gen) 0 gen [] [] ?w7")
      show ?thesis
      proof (cases y)
        case (Inl returned)
        have "fst (derive e u (length gen) 0 gen [] [] ?w7) = Inl returned"
          using dv Inl by simp
        from derive_returned[OF this] obtain m dt where "returned = failed_with_details m dt"
          by blast
        moreover have "PDict [(''status'', PStr ''success''), (''files'', PList files)] = returned"
          using assms(1) False f Inr ne dv Inl by (simp add: after_process_def Let_def)
        ultimately show ?thesis by (simp add: failed_with_details_def)
      next
        case (Inr pj)
        obtain p j where pj: "pj = (p, j)" by (cases pj)
        have d: "fst (derive e u (length gen) 0 gen [] [] ?w7) = Inr (p, j)"
          using dv Inr pj by simp
        have "files = map PDict (gen @ p @ j)"
          using assms False f \<open>x = Inr gen\<close> ne dv Inr pj by (simp add: after_process_def Let_def)
        with fg d show ?thesis by blast
      qed
    qed
  qed
qed

lemma execute_body_success_files:
  assumes "fst (execute_body e script u w) =
             Inr (PDict [(''status'', PStr ''success''), (''files'', PList files)])"
  shows "\<exists>gen p j w0 w7. fst (find_generated_files e u w0) = Inr gen \<and>
           fst (derive e u (length gen) 0 gen [] [] w7) = Inr (p, j) \<and>
           files = map PDict (gen @ p @ j)"
proof (cases "makedirs_raises e")
  case (Some x)
  with assms show ?thesis by (simp add: execute_body_def Let_def)
next
  case None
  show ?thesis
  proof (cases "process e")
    case (PopenRaises x)
    with assms None show ?thesis by (simp add: execute_body_def Let_def)
  next
    case (Runs seconds rc out err)
    show ?thesis
    proof (cases "3600 < seconds")
      case True
      with assms None Runs show ?thesis
        by (simp add: execute_body_def Let_def failed_result_def)
    next
      case False
      then have "seconds \<le> 3600" by simp
      from execute_body_exit[OF None Runs this, of script u w] obtain w' where
        b: "execute_body e script u w =
            after_process e u (path_join STORAGE_PATH (''user_'' @ u)) rc out err w'"
        by (elim exE)
      show ?thesis
        using assms unfolding b by (rule after_process_success_files)
    qed
  qed
qed

lemma execute_success_files:
  assumes "fst (execute_freecad_script e script uid w) =
             PDict [(''status'', PStr ''success''), (''files'', PList files)]"
  shows "\<exists>gen p j w0 w7.
           fst (find_generated_files e (case uid of None \<Rightarrow> uuid4 e | Some x \<Rightarrow> x) w0) = Inr gen \<and>
           fst (derive e (case uid of None \<Rightarrow> uuid4 e | Some x \<Rightarrow> x) (length gen) 0 gen [] [] w7) =
             Inr (p, j) \<and>
           files = map PDict (gen @ p @ j)"
proof -
  let ?u = "case uid of None \<Rightarrow> uuid4 e | Some x \<Rightarrow> x"
  show ?thesis
  proof (cases "fst (execute_body e script ?u w)")
    case (Inl x)
    with assms show ?thesis
      unfolding execute_result by (cases x) (simp_all add: failed_result_def)
  next
    case (Inr r)
    with assms have "r = PDict [(''status'', PStr ''success''), (''files'', PList files)]"
      unfolding execute_result by simp
    with Inr show ?thesis by (intro execute_body_success_files) simp
  qed
qed




lemma primary_filename:
  "dict_get (primary_descriptor u file) ''filename'' =
     PStr (fst (splitext file) @ ''_'' @ u @ snd (splitext file))"
  by (simp add: primary_descriptor_def Let_def dict_get_def)

lemma str_contains_owner: "str_contains u (stem @ ''_'' @ u @ ext)"
  using str_contains_middle[of u "stem @ ''_''" ext] by simp

text \<open>
  The descriptors of a successful run. A primary artifact, found by the walk as \<open>file\<close>,
  has the filename made of the stem of \<open>file\<close>, an underscore, the owner id and the
  extension of \<open>file\<close>, for every owner id. A PDF or JSON artifact derived from the STEP
  artifact \<open>g\<close> of the same run has the filename made of the stem of the path of \<open>g\<close>, an
  underscore, the owner id and \<open>.pdf\<close> or \<open>.json\<close> when the owner id contains no \<open>/\<close>.
\<close>

lemma descriptor_filenames:
  assumes "u = (case user_id of None \<Rightarrow> uuid4 e | Some x \<Rightarrow> x)"
    and "fst (execute_freecad_script e script_path user_id w) =
           PDict [(''status'', PStr ''success''), (''files'', PList files)]"
    and "f \<in> set files"
  shows "\<exists>d. f = PDict d \<and>
     ((\<exists>file\<in>walked_names e. (endswith file ''.step'' \<or> endswith file ''.obj'') \<and>
          d = primary_descriptor u file \<and>
          dict_get d ''filename'' = PStr (fst (splitext file) @ ''_'' @ u @ snd (splitext file)) \<and>
          str_contains u (item_str d ''filename'')) \<or>
      (\<exists>g ext. PDict g \<in> set files \<and> dict_get g ''type'' = PStr ''step'' \<and>
          (ext = ''.pdf'' \<and> d = derived_descriptor ''pdf'' ext u (item_str g ''path'') \<or>
           ext = ''.json'' \<and> d = derived_descriptor ''json'' ext u (item_str g ''path'')) \<and>
          (CHR ''/'' \<notin> set u \<longrightarrow>
             dict_get d ''filename'' = PStr (path_stem (item_str g ''path'') @ ''_'' @ u @ ext) \<and>
             str_contains u (item_str d ''filename''))))"
proof -
  from execute_success_files[OF assms(2)] obtain gen p j w0 w7 where
    fg: "fst (find_generated_files e u w0) = Inr gen"
    and dv: "fst (derive e u (length gen) 0 gen [] [] w7) = Inr (p, j)"
    and fl: "files = map PDict (gen @ p @ j)"
    unfolding assms(1) by blast
  note prim = find_generated_files_primary[OF fg]
  note der = derive_derived[OF dv]
  from assms(3) fl obtain d where d: "f = PDict d" and mem: "d \<in> set gen \<or> d \<in> set p \<or> d \<in> set j"
    by auto
  have derived: "\<exists>g ext. PDict g \<in> set files \<and> dict_get g ''type'' = PStr ''step'' \<and>
          (ext = ''.pdf'' \<and> d = derived_descriptor ''pdf'' ext u (item_str g ''path'') \<or>
           ext = ''.json'' \<and> d = derived_descriptor ''json'' ext u (item_str g ''path'')) \<and>
          (CHR ''/'' \<notin> set u \<longrightarrow>
             dict_get d ''filename'' = PStr (path_stem (item_str g ''path'') @ ''_'' @ u @ ext) \<and>
             str_contains u (item_str d ''filename''))"
    if x: "x \<in> set gen" "dict_get x ''type'' = PStr ''step''"
      and k: "ext = ''.pdf'' \<and> kind = ''pdf'' \<or> ext = ''.json'' \<and> kind = ''json''"
      and dd: "d = derived_descriptor kind ext u (item_str x ''path'')" for x kind ext
  proof -
    have 1: "PDict x \<in> set files" using x(1) fl by simp
    have ns: "CHR ''/'' \<notin> set ext" using k by auto
    have 2: "dict_get d ''filename'' = PStr (path_stem (item_str x ''path'') @ ''_'' @ u @ ext) \<and>
             str_contains u (item_str d ''filename'')" if "CHR ''/'' \<notin> set u"
    proof -
      have a: "dict_get d ''filename'' = PStr (path_stem (item_str x ''path'') @ ''_'' @ u @ ext)"
        unfolding dd using that ns by (rule derived_filename)
      then have "item_str d ''filename'' = path_stem (item_str x ''path'') @ ''_'' @ u @ ext"
        by (simp add: item_str_def)
      with a str_contains_owner[of u "path_stem (item_str x ''path'')" ext] show ?thesis by simp
    qed
    from 1 x(2) k dd 2 show ?thesis by blast
  qed
  from mem have "(\<exists>file\<in>walked_names e. (endswith file ''.step'' \<or> endswith file ''.obj'') \<and>
          d = primary_descriptor u file \<and>
          dict_get d ''filename'' = PStr (fst (splitext file) @ ''_'' @ u @ snd (splitext file)) \<and>
          str_contains u (item_str d ''filename'')) \<or>
      (\<exists>g ext. PDict g \<in> set files \<and> dict_get g ''type'' = PStr ''step'' \<and>
          (ext = ''.pdf'' \<and> d = derived_descriptor ''pdf'' ext u (item_str g ''path'') \<or>
           ext = ''.json'' \<and> d = derived_descriptor ''json'' ext u (item_str g ''path'')) \<and>
          (CHR ''/'' \<notin> set u \<longrightarrow>
             dict_get d ''filename'' = PStr (path_stem (item_str g ''path'') @ ''_'' @ u @ ext) \<and>
             str_contains u (item_str d ''filename'')))"
  proof (elim disjE)
    assume "d \<in> set gen"
    with prim obtain nm where fi: "nm \<in> walked_names e"
      "endswith nm ''.step'' \<or> endswith nm ''.obj''" "d = primary_descriptor u nm"
      by blast
    have a: "dict_get d ''filename'' = PStr (fst (splitext nm) @ ''_'' @ u @ snd (splitext nm))"
      unfolding fi(3) by (rule primary_filename)
    then have "item_str d ''filename'' = fst (splitext nm) @ ''_'' @ u @ snd (splitext nm)"
      by (simp add: item_str_def)
    with str_contains_owner[of u "fst (splitext nm)" "snd (splitext nm)"]
    have "str_contains u (item_str d ''filename'')" by simp
    with fi a show ?thesis by blast
  next
    assume "d \<in> set p"
    with der obtain x where "x \<in> set gen" "dict_get x ''type'' = PStr ''step''"
      "d = derived_descriptor ''pdf'' ''.pdf'' u (item_str x ''path'')" by auto
    from derived[OF this(1,2) _ this(3)] show ?thesis by simp
  next
    assume "d \<in> set j"
    with der obtain x where "x \<in> set gen" "dict_get x ''type'' = PStr ''step''"
      "d = derived_descriptor ''json'' ''.json'' u (item_str x ''path'')" by auto
    from derived[OF this(1,2) _ this(3)] show ?thesis by simp
  qed
  with d show ?thesis by blast
qed

section \<open>The claims\<close>



text \<open>
  C5. When the progress channel holds no record for an owner and the registry scan finds
  a job record of that owner, \<open>GET /status\<close> answers from the record alone: its id, its
  state, and the progress 50 for \<open>started\<close>, 100 for \<open>finished\<close>, 0 for every other state.
\<close>

theorem status_fallback_from_job_record:
  "get_progress pd user_id = None \<and> find_job_for_user q user_id = Some j \<longrightarrow>
   owned_by j user_id \<and>
   (\<exists>message updated_at.
      JobStatus_get pd mqtt_connected q now user_id =
        Inr (JsonResponse 200 (PDict
          [(''user_id'', PStr user_id),
           (''job_id'', PStr (job_id j)),
           (''status'', PStr (job_status j)),
           (''progress'', PInt (if job_status j = ''started'' then 50
                                else if job_status j = ''finished'' then 100 else 0)),
           (''message'', PStr message),
           (''error'', PNone),
           (''updated_at'', PStr updated_at),
           (''data_source'', PStr ''redis''),
           (''mqtt_connected'', PBool mqtt_connected)])))"
proof (intro impI conjI)
  assume h: "get_progress pd user_id = None \<and> find_job_for_user q user_id = Some j"
  have own: "find_in_ids f user_id ids = Some j \<Longrightarrow> owned_by j user_id" for f ids
    by (induction ids) (auto split: option.splits if_splits)
  from h show "owned_by j user_id"
    by (auto simp: find_job_for_user_def dest: own)
  from h show "\<exists>message updated_at.
      JobStatus_get pd mqtt_connected q now user_id =
        Inr (JsonResponse 200 (PDict
          [(''user_id'', PStr user_id),
           (''job_id'', PStr (job_id j)),
           (''status'', PStr (job_status j)),
           (''progress'', PInt (if job_status j = ''started'' then 50
                                else if job_status j = ''finished'' then 100 else 0)),
           (''message'', PStr message),
           (''error'', PNone),
           (''updated_at'', PStr updated_at),
           (''data_source'', PStr ''redis''),
           (''mqtt_connected'', PBool mqtt_connected)]))"
    by (simp add: JobStatus_get_def Let_def del: append.simps)
qed

theorem status_fallback_from_job_record_witness:
  "get_progress Map.empty ''u1'' = None \<and> find_job_for_user queue_1 ''u1'' = Some job_1 \<and>
   owned_by job_1 ''u1'' \<and>
   (\<exists>message updated_at.
      JobStatus_get Map.empty False queue_1 ''2026-01-01T10:05:00+00:00'' ''u1'' =
        Inr (JsonResponse 200 (PDict
          [(''user_id'', PStr ''u1''),
           (''job_id'', PStr ''job-1''),
           (''status'', PStr ''finished''),
           (''progress'', PInt 100),
           (''message'', PStr message),
           (''error'', PNone),
           (''updated_at'', PStr updated_at),
           (''data_source'', PStr ''redis''),
           (''mqtt_connected'', PBool False)])))"
  using status_fallback_from_job_record[of Map.empty "''u1''" queue_1 job_1 False
      "''2026-01-01T10:05:00+00:00''"]
  by (simp add: get_progress_def find_job_1) (simp add: job_1_def)

text \<open>
  C1. A job whose CAD process exited with code 1 is reported by \<open>GET /result\<close> with the
  status \<open>success\<close> and an empty file list, and by \<open>GET /status\<close>, when the progress
  channel has no record of the owner, as \<open>finished\<close> at 100 percent with no error: the
  worker's \<open>failed\<close> dictionary is the job's result, and neither handler reads its status
  or its error.
\<close>

theorem failed_job_reported_as_success:
  "dict_get (case job_result job_1 of PDict d \<Rightarrow> d | _ \<Rightarrow> []) ''status'' = PStr ''failed'' \<and>
   JobResult_get disk_0 ''http://0.0.0.0:8080'' queue_1 ''2026-01-01T10:05:00+00:00'' [] ''u1'' =
     Inr (JsonResponse 200 (PDict
       [(''user_id'', PStr ''u1''),
        (''job_id'', PStr ''job-1''),
        (''status'', PStr ''success''),
        (''files'', PList []),
        (''completed_at'', PStr ''2026-01-01T10:00:12+00:00'')])) \<and>
   JobStatus_get Map.empty True queue_1 ''2026-01-01T10:05:00+00:00'' ''u1'' =
     Inr (JsonResponse 200 (PDict
       [(''user_id'', PStr ''u1''),
        (''job_id'', PStr ''job-1''),
        (''status'', PStr ''finished''),
        (''progress'', PInt 100),
        (''message'', PStr ''Job finished (from Redis queue)''),
        (''error'', PNone),
        (''updated_at'', PStr ''2026-01-01T10:00:12+00:00''),
        (''data_source'', PStr ''redis''),
        (''mqtt_connected'', PBool True)]))"
proof (intro conjI)
  show "dict_get (case job_result job_1 of PDict d \<Rightarrow> d | _ \<Rightarrow> []) ''status'' = PStr ''failed''"
    by (simp add: job_1_result failed_with_details_def dict_get_def)
  have r: "job_result job_1 = PDict [(''status'', PStr ''failed''),
      (''error'', PStr ''FreeCAD command failed with exit code 1''),
      (''details'', diagnostics ''building'' ''Traceback: boom'')]"
    by (simp add: job_1_result failed_with_details_def)
  have j: "job_id job_1 = ''job-1''" "job_status job_1 = ''finished''"
    "ended_at job_1 = Some ''2026-01-01T10:00:12+00:00''" "owned_by job_1 ''u1''"
    by (simp_all add: job_1_def owned_by_def dict_get_def)
  show "JobResult_get disk_0 ''http://0.0.0.0:8080'' queue_1 ''2026-01-01T10:05:00+00:00'' [] ''u1'' =
     Inr (JsonResponse 200 (PDict
       [(''user_id'', PStr ''u1''),
        (''job_id'', PStr ''job-1''),
        (''status'', PStr ''success''),
        (''files'', PList []),
        (''completed_at'', PStr ''2026-01-01T10:00:12+00:00'')]))"
    by (simp add: JobResult_get_def queue_1_def r j return_result_def dict_get_default_def lower_def)
  show "JobStatus_get Map.empty True queue_1 ''2026-01-01T10:05:00+00:00'' ''u1'' =
     Inr (JsonResponse 200 (PDict
       [(''user_id'', PStr ''u1''),
        (''job_id'', PStr ''job-1''),
        (''status'', PStr ''finished''),
        (''progress'', PInt 100),
        (''message'', PStr ''Job finished (from Redis queue)''),
        (''error'', PNone),
        (''updated_at'', PStr ''2026-01-01T10:00:12+00:00''),
        (''data_source'', PStr ''redis''),
        (''mqtt_connected'', PBool True)]))"
    by (simp add: JobStatus_get_def get_progress_def find_job_1 j)
qed


text \<open>
  C3. After a run that ends with a non-zero exit code, with the timeout of the CAD
  process, or with an exception when the process is started, the working directory of the
  owner still exists: \<open>shutil.rmtree\<close> stands behind the returns of these paths.
\<close>

theorem working_directory_left_behind:
  "path_exists (snd (execute_freecad_script env_exit_1 ''/app/storage/script_u1_box.py''
                      (Some ''u1'') world_0)) ''/app/storage/user_u1'' \<and>
   path_exists (snd (execute_freecad_script env_timeout ''/app/storage/script_u1_box.py''
                      (Some ''u1'') world_0)) ''/app/storage/user_u1'' \<and>
   path_exists (snd (execute_freecad_script env_no_freecadcmd ''/app/storage/script_u1_box.py''
                      (Some ''u1'') world_0)) ''/app/storage/user_u1''"
proof -
  have d: "path_join STORAGE_PATH ''user_u1'' = ''/app/storage/user_u1''"
    by (simp add: path_join_def STORAGE_PATH_def endswith_def suffix_to_prefix)
  have s: "dirname ''/app/storage/script_u1_box.py'' \<noteq> ''/app/storage/user_u1''"
    by (simp add: dirname_def)
  have p1: "makedirs_raises env_exit_1 = None"
    "process env_exit_1 = Runs 12 1 ''building'' ''Traceback: boom''"
    by (simp_all add: env_exit_1_def)
  have p2: "makedirs_raises env_timeout = None" "process env_timeout = Runs 4000 0 [] []"
    by (simp_all add: env_timeout_def env_exit_1_def)
  have p3: "makedirs_raises env_no_freecadcmd = None"
    "process env_no_freecadcmd = PopenRaises (OtherError ''[Errno 2] No such file or directory'')"
    by (simp_all add: env_no_freecadcmd_def env_exit_1_def)
  have b1: "path_exists (snd (execute_body env_exit_1 ''/app/storage/script_u1_box.py'' ''u1'' world_0))
      ''/app/storage/user_u1''"
    using body_leaves_user_dir[of env_exit_1 undefined "''/app/storage/script_u1_box.py''" "''u1''" world_0]
    by (simp add: p1 d)
  have b2: "path_exists (snd (execute_body env_timeout ''/app/storage/script_u1_box.py'' ''u1'' world_0))
      ''/app/storage/user_u1''"
    using body_leaves_user_dir[of env_timeout undefined "''/app/storage/script_u1_box.py''" "''u1''" world_0]
    by (simp add: p2 d)
  have b3: "path_exists (snd (execute_body env_no_freecadcmd ''/app/storage/script_u1_box.py'' ''u1'' world_0))
      ''/app/storage/user_u1''"
    using body_leaves_user_dir[of env_no_freecadcmd "OtherError ''[Errno 2] No such file or directory''"
        "''/app/storage/script_u1_box.py''" "''u1''" world_0]
    by (simp add: p3 d)
  show ?thesis
    using execute_keeps_path[of env_exit_1 "''/app/storage/script_u1_box.py''" "Some ''u1''" world_0
        "''/app/storage/user_u1''"]
      execute_keeps_path[of env_timeout "''/app/storage/script_u1_box.py''" "Some ''u1''" world_0
        "''/app/storage/user_u1''"]
      execute_keeps_path[of env_no_freecadcmd "''/app/storage/script_u1_box.py''" "Some ''u1''" world_0
        "''/app/storage/user_u1''"]
      b1 b2 b3 s
    by simp
qed


text \<open>
  C4. \<open>GET /download\<close> answers 500 for a file that exists nowhere, and 500 for a file
  whose name does not contain the owner id: the 404 and the 403 are raised inside the
  handler's own \<open>try\<close> and caught by its \<open>except Exception\<close>.
\<close>

theorem download_abort_becomes_500:
  "DownloadFile_get disk_0 ''u1'' ''missing_u1.step'' =
     Inl (HTTPException 500 (''Download failed: '' @
            exc_str (HTTPException 404 ''File not found: missing_u1.step''))) \<and>
   status_code (DownloadFile_get disk_0 ''u1'' ''missing_u1.step'') = 500 \<and>
   DownloadFile_get disk_0 ''u1'' ''box_u2.step'' =
     Inl (HTTPException 500 (''Download failed: '' @
            exc_str (HTTPException 403 ''Access denied: File does not belong to user u1''))) \<and>
   status_code (DownloadFile_get disk_0 ''u1'' ''box_u2.step'') = 500"
  by (simp add: DownloadFile_get_def disk_0_def path_join_def endswith_def STORAGE_PATH_def
      suffix_to_prefix Let_def)

text \<open>
  C7. The heartbeat started by \<open>execute_freecad_script\<close> publishes, while connected, one
  progress message every five seconds from its start until \<open>heartbeat_stop\<close> is set: the
  \<open>k\<close>-th message (from 0) at time \<open>t + 5 k\<close> with the value \<open>min (27 + 2 k) 35\<close> and status
  \<open>running\<close>. Every value lies between 25 and 35, the first is \<open>min (25 + 2) 35\<close>, each
  later one is \<open>min (previous + 2) 35\<close>, and the values never decrease. Publishing takes no
  time in the model; the interval is the timeout of \<open>heartbeat_stop.wait\<close>.
\<close>

theorem heartbeat_band_and_interval:
  "(connected w \<longrightarrow>
     (\<exists>n. outbox (snd (heartbeat_worker t_set u t 25 w)) =
           outbox w @
           map (\<lambda>k. \<lparr>at = t + 5 * k, topic = ''freecad/progress/'' @ u,
                      payload = [(''user_id'', PStr u),
                                 (''progress'', PInt (min (27 + 2 * int k) 35)),
                                 (''status'', PStr ''running''),
                                 (''message'', PStr (''FreeCAD script is running... (progress: '' @
                                     show_int (min (27 + 2 * int k) 35) @ ''%)'')),
                                 (''timestamp'', PStr (isoformat (t + 5 * k)))]\<rparr>) [0..<n]
         \<and> (\<forall>k<n. t + 5 * k < t_set) \<and> t_set \<le> t + 5 * n
         \<and> (\<forall>k<n. 25 \<le> min (27 + 2 * int k) 35 \<and> min (27 + 2 * int k) 35 \<le> 35
                \<and> min (27 + 2 * int (Suc k)) 35 = min (min (27 + 2 * int k) 35 + 2) 35
                \<and> min (27 + 2 * int k) 35 \<le> min (27 + 2 * int (Suc k)) 35))) \<and>
   min (27 + 2 * int 0) 35 = min (25 + 2) (35::int) \<and>
   (\<not> connected w \<longrightarrow> outbox (snd (heartbeat_worker t_set u t 25 w)) = outbox w)"
proof (intro conjI impI)
  assume c: "connected w"
  from heartbeat_outbox[OF c, of t_set u t 25] obtain n where
    n: "outbox (snd (heartbeat_worker t_set u t 25 w)) =
           outbox w @
           map (\<lambda>k. \<lparr>at = t + 5 * k, topic = ''freecad/progress/'' @ u,
                      payload = [(''user_id'', PStr u),
                                 (''progress'', PInt (min (25 + 2 * (int k + 1)) 35)),
                                 (''status'', PStr ''running''),
                                 (''message'', PStr (''FreeCAD script is running... (progress: '' @
                                     show_int (min (25 + 2 * (int k + 1)) 35) @ ''%)'')),
                                 (''timestamp'', PStr (isoformat (t + 5 * k)))]\<rparr>) [0..<n]"
    and lt: "\<forall>k<n. t + 5 * k < t_set" and ge: "t_set \<le> t + 5 * n"
    by blast
  have v: "25 + 2 * (int k + 1) = 27 + 2 * int k" for k by simp
  show "\<exists>n. outbox (snd (heartbeat_worker t_set u t 25 w)) =
           outbox w @
           map (\<lambda>k. \<lparr>at = t + 5 * k, topic = ''freecad/progress/'' @ u,
                      payload = [(''user_id'', PStr u),
                                 (''progress'', PInt (min (27 + 2 * int k) 35)),
                                 (''status'', PStr ''running''),
                                 (''message'', PStr (''FreeCAD script is running... (progress: '' @
                                     show_int (min (27 + 2 * int k) 35) @ ''%)'')),
                                 (''timestamp'', PStr (isoformat (t + 5 * k)))]\<rparr>) [0..<n]
         \<and> (\<forall>k<n. t + 5 * k < t_set) \<and> t_set \<le> t + 5 * n
         \<and> (\<forall>k<n. 25 \<le> min (27 + 2 * int k) 35 \<and> min (27 + 2 * int k) 35 \<le> 35
                \<and> min (27 + 2 * int (Suc k)) 35 = min (min (27 + 2 * int k) 35 + 2) 35
                \<and> min (27 + 2 * int k) 35 \<le> min (27 + 2 * int (Suc k)) 35)"
  proof (intro exI[of _ n] conjI)
    show "\<forall>k<n. 25 \<le> min (27 + 2 * int k) 35 \<and> min (27 + 2 * int k) 35 \<le> 35
                \<and> min (27 + 2 * int (Suc k)) 35 = min (min (27 + 2 * int k) 35 + 2) 35
                \<and> min (27 + 2 * int k) 35 \<le> min (27 + 2 * int (Suc k)) 35"
      by (auto simp: min_def)
  qed (use n lt ge in \<open>simp_all only: v\<close>)
next
  show "min (27 + 2 * int 0) 35 = min (25 + 2) (35::int)" by simp
next
  assume "\<not> connected w"
  then show "outbox (snd (heartbeat_worker t_set u t 25 w)) = outbox w"
    by (rule heartbeat_disconnected)
qed

theorem heartbeat_band_and_interval_witness:
  "connected world_0 \<and>
   map (\<lambda>m. (at m, dict_get (payload m) ''progress'', dict_get (payload m) ''status''))
     (outbox (snd (heartbeat_worker 12 ''u1'' 0 25 world_0))) =
   [(0, PInt 27, PStr ''running''), (5, PInt 29, PStr ''running''), (10, PInt 31, PStr ''running'')]"
proof -
  have c: "connected world_0" and o: "outbox world_0 = []" by (simp_all add: world_0_def)
  from heartbeat_band_and_interval[of world_0 12 "''u1''" 0] c o obtain n where
    n: "outbox (snd (heartbeat_worker 12 ''u1'' 0 25 world_0)) =
           map (\<lambda>k. \<lparr>at = 0 + 5 * k, topic = ''freecad/progress/'' @ ''u1'',
                      payload = [(''user_id'', PStr ''u1''),
                                 (''progress'', PInt (min (27 + 2 * int k) 35)),
                                 (''status'', PStr ''running''),
                                 (''message'', PStr (''FreeCAD script is running... (progress: '' @
                                     show_int (min (27 + 2 * int k) 35) @ ''%)'')),
                                 (''timestamp'', PStr (isoformat (0 + 5 * k)))]\<rparr>) [0..<n]"
    and lt: "\<forall>k<n. 0 + 5 * k < (12::nat)" and ge: "(12::nat) \<le> 0 + 5 * n"
    by auto
  have "n = 3"
  proof -
    have "\<not> 3 < n" using lt[rule_format, of 3] by auto
    with ge show ?thesis by simp
  qed
  then show ?thesis
    using c n by (simp add: dict_get_def upt_rec)
qed



text \<open>
  C9. \<open>execute_freecad_script\<close> returns a dictionary on every path, whatever the
  environment does (an exception from \<open>os.makedirs\<close>, from starting the process or from a
  copy, a timeout, a non-zero exit, failing converters): its \<open>status\<close> is \<open>success\<close> with a
  list under \<open>files\<close>, or \<open>failed\<close> with a string under \<open>error\<close>.
\<close>

theorem execute_always_returns_a_result:
  "\<exists>d. fst (execute_freecad_script e script_path user_id w) = PDict d \<and>
       ((dict_get d ''status'' = PStr ''success'' \<and> (\<exists>files. dict_get d ''files'' = PList files)) \<or>
        (dict_get d ''status'' = PStr ''failed'' \<and> (\<exists>error. dict_get d ''error'' = PStr error)))"
proof -
  let ?u = "case user_id of None \<Rightarrow> uuid4 e | Some u \<Rightarrow> u"
  have shapes:
    "(\<exists>m. fst (execute_freecad_script e script_path user_id w) = failed_result m) \<or>
     (\<exists>m dt. fst (execute_freecad_script e script_path user_id w) = failed_with_details m dt) \<or>
     (\<exists>fl. fst (execute_freecad_script e script_path user_id w) =
            PDict [(''status'', PStr ''success''), (''files'', PList fl)])"
  proof (cases "fst (execute_body e script_path ?u w)")
    case (Inl x)
    then have "\<exists>m. fst (execute_freecad_script e script_path user_id w) = failed_result m"
      by (cases x; simp add: execute_result del: append.simps; blast)
    then show ?thesis by blast
  next
    case (Inr r)
    with execute_body_returned[OF Inr] show ?thesis by (simp add: execute_result)
  qed
  then show ?thesis
    by (elim disjE exE) (simp_all add: failed_result_def failed_with_details_def dict_get_def)
qed

text \<open>
  C2. In a run that found primary artifacts, if the JSON conversion fails for a STEP
  artifact, the run returns \<open>failed\<close> with the error of the first JSON conversion that
  failed (the loop returns there, whatever the PDF conversion of the same artifact gave
  and whatever was promoted before). And the outcome of a run, its status and its error,
  is the same under every behaviour of the PDF converter.
\<close>

theorem json_failure_fails_the_job:
  "(u = (case user_id of None \<Rightarrow> uuid4 e | Some x \<Rightarrow> x) \<and>
    makedirs_raises e = None \<and> process e = Runs seconds 0 out err \<and> seconds \<le> 3600 \<and>
    fst (find_generated_files e u w) = Inr gen \<and>
    i < length gen \<and> dict_get (gen ! i) ''type'' = PStr ''step'' \<and>
    dict_get (fst (generate_json_from_step (json_env e i) (item_str (gen ! i) ''path'') u w))
      ''status'' \<noteq> PStr ''success''
    \<longrightarrow>
    (\<exists>k\<le>i. dict_get (gen ! k) ''type'' = PStr ''step'' \<and>
       dict_get (fst (generate_json_from_step (json_env e k) (item_str (gen ! k) ''path'') u w))
         ''status'' \<noteq> PStr ''success'' \<and>
       fst (execute_freecad_script e script_path user_id w) =
         (let json_result =
                fst (generate_json_from_step (json_env e k) (item_str (gen ! k) ''path'') u w)
          in failed_with_details (json_error_of json_result)
               (PDict [(''error'', PStr (json_error_of json_result)),
                       (''result'', PDict json_result),
                       (''step_file'', dict_get (gen ! k) ''path'')])))) \<and>
   outcome (fst (execute_freecad_script (e\<lparr>pdf_env := other_pdf_env\<rparr>) script_path user_id w)) =
   outcome (fst (execute_freecad_script e script_path user_id w))"
proof (intro conjI impI)
  assume h: "u = (case user_id of None \<Rightarrow> uuid4 e | Some x \<Rightarrow> x) \<and>
    makedirs_raises e = None \<and> process e = Runs seconds 0 out err \<and> seconds \<le> 3600 \<and>
    fst (find_generated_files e u w) = Inr gen \<and>
    i < length gen \<and> dict_get (gen ! i) ''type'' = PStr ''step'' \<and>
    dict_get (fst (generate_json_from_step (json_env e i) (item_str (gen ! i) ''path'') u w))
      ''status'' \<noteq> PStr ''success''"
  let ?P = "\<lambda>k. k < length gen \<and> dict_get (gen ! k) ''type'' = PStr ''step'' \<and>
    dict_get (fst (generate_json_from_step (json_env e k) (item_str (gen ! k) ''path'') u w))
      ''status'' \<noteq> PStr ''success''"
  from h have "?P i" by blast
  then have "\<exists>k. ?P k \<and> (\<forall>m<k. \<not> ?P m)"
    using exists_least_iff[of ?P] by blast
  then obtain k where k: "?P k" and least: "\<forall>m<k. \<not> ?P m" by blast
  have ki: "k \<le> i" using least \<open>?P i\<close> by (meson not_le)
  have before: "\<forall>m<k. dict_get (gen ! m) ''type'' = PStr ''step'' \<longrightarrow>
      dict_get (fst (generate_json_from_step (json_env e (0 + m)) (item_str (gen ! m) ''path'') u w))
        ''status'' = PStr ''success''"
    using least k by auto
  from h have u: "u = (case user_id of None \<Rightarrow> uuid4 e | Some x \<Rightarrow> x)"
    and h1: "makedirs_raises e = None" and h2: "process e = Runs seconds 0 out err"
    and h3: "seconds \<le> 3600" and h4: "fst (find_generated_files e u w) = Inr gen" by blast+
  have ne: "gen \<noteq> []" using k by auto
  obtain w' where b: "execute_body e script_path u w =
      after_process e u (path_join STORAGE_PATH (''user_'' @ u)) 0 out err w'"
    using execute_body_exit[OF h1 h2 h3, of script_path u w] by (elim exE)
  obtain w7 where a: "fst (after_process e u (path_join STORAGE_PATH (''user_'' @ u)) 0 out err w') =
           (case fst (derive e u (length gen) 0 gen [] [] w7) of
              Inl returned \<Rightarrow> Inr returned
            | Inr (pdf_files, json_files) \<Rightarrow>
                Inr (PDict [(''status'', PStr ''success''),
                            (''files'', PList (map PDict (gen @ pdf_files @ json_files)))]))"
    using after_process_zero[OF h4 ne, of "path_join STORAGE_PATH (''user_'' @ u)" out err w']
    by (elim exE)
  have d: "fst (derive e u (length gen) 0 gen [] [] w7) =
     Inl (let json_result =
                fst (generate_json_from_step (json_env e (0 + k)) (item_str (gen ! k) ''path'') u w)
          in failed_with_details (json_error_of json_result)
               (PDict [(''error'', PStr (json_error_of json_result)),
                       (''result'', PDict json_result),
                       (''step_file'', dict_get (gen ! k) ''path'')]))"
    using k before by (intro derive_first_failure) simp_all
  have "fst (execute_freecad_script e script_path user_id w) =
         (let json_result =
                fst (generate_json_from_step (json_env e k) (item_str (gen ! k) ''path'') u w)
          in failed_with_details (json_error_of json_result)
               (PDict [(''error'', PStr (json_error_of json_result)),
                       (''result'', PDict json_result),
                       (''step_file'', dict_get (gen ! k) ''path'')]))"
    using b a d u by (simp add: execute_result del: append.simps)
  with k ki show "\<exists>k\<le>i. dict_get (gen ! k) ''type'' = PStr ''step'' \<and>
       dict_get (fst (generate_json_from_step (json_env e k) (item_str (gen ! k) ''path'') u w))
         ''status'' \<noteq> PStr ''success'' \<and>
       fst (execute_freecad_script e script_path user_id w) =
         (let json_result =
                fst (generate_json_from_step (json_env e k) (item_str (gen ! k) ''path'') u w)
          in failed_with_details (json_error_of json_result)
               (PDict [(''error'', PStr (json_error_of json_result)),
                       (''result'', PDict json_result),
                       (''step_file'', dict_get (gen ! k) ''path'')]))"
    by blast
next
  show "outcome (fst (execute_freecad_script (e\<lparr>pdf_env := other_pdf_env\<rparr>) script_path user_id w)) =
   outcome (fst (execute_freecad_script e script_path user_id w))"
    by (rule execute_pdf)
qed

theorem json_failure_fails_the_job_witness:
  "makedirs_raises env_json_fails = None \<and> process env_json_fails = Runs 12 0 ''done'' [] \<and>
   (12::nat) \<le> 3600 \<and>
   fst (find_generated_files env_json_fails ''u1'' world_0) =
     Inr [[(''type'', PStr ''step''), (''path'', PStr ''/app/storage/box_u1.step''),
           (''filename'', PStr ''box_u1.step'')]] \<and>
   dict_get (fst (generate_pdf_from_step (pdf_env env_json_fails 0) ''/app/storage/box_u1.step''
                    ''u1'' world_0)) ''status'' = PStr ''success'' \<and>
   dict_get (fst (generate_json_from_step (json_env env_json_fails 0) ''/app/storage/box_u1.step''
                    ''u1'' world_0)) ''status'' \<noteq> PStr ''success'' \<and>
   fst (execute_freecad_script env_json_fails ''/app/storage/script_u1_box.py'' (Some ''u1'') world_0) =
     failed_with_details ''FreeCAD command failed with return code 1: boom''
       (PDict [(''error'', PStr ''FreeCAD command failed with return code 1: boom''),
               (''result'', PDict [(''status'', PStr ''failed''),
                  (''error'', PStr ''FreeCAD command failed with return code 1: boom''),
                  (''stdout'', PStr []), (''stderr'', PStr ''boom'')]),
               (''step_file'', PStr ''/app/storage/box_u1.step'')])"
proof -
  let ?gen = "[[(''type'', PStr ''step''), (''path'', PStr ''/app/storage/box_u1.step''),
           (''filename'', PStr ''box_u1.step'')]]"
  have e: "makedirs_raises env_json_fails = None" "process env_json_fails = Runs 12 0 ''done'' []"
    "json_env env_json_fails = (\<lambda>i. JsonRuns 3 1 [] ''boom'' False)"
    "pdf_env env_json_fails 0 = PdfResult True (Some ''/app/storage/pdf_user_u1/box_u1_u1.pdf'')
                         ''Technical drawing generated'' None"
    by (simp_all add: env_json_fails_def)
  have g: "fst (find_generated_files env_json_fails ''u1'' world_0) = Inr ?gen"
    by (rule find_box) (simp_all add: env_json_fails_def)
  have p: "dict_get (fst (generate_pdf_from_step (pdf_env env_json_fails 0) ''/app/storage/box_u1.step''
                    ''u1'' world_0)) ''status'' = PStr ''success''"
    by (simp add: e generate_pdf_from_step_def Let_def dict_get_def)
  have i: "item_str (?gen ! 0) ''path'' = ''/app/storage/box_u1.step''"
    "dict_get (?gen ! 0) ''type'' = PStr ''step''"
    "dict_get (?gen ! 0) ''path'' = PStr ''/app/storage/box_u1.step''"
    by (simp_all add: item_str_def dict_get_def)
  have je: "json_error_of [(''status'', PStr ''failed''),
      (''error'', PStr ''FreeCAD command failed with return code 1: boom''),
      (''stdout'', PStr []), (''stderr'', PStr ''boom'')] =
      ''FreeCAD command failed with return code 1: boom''"
    by (simp add: json_error_of_def dict_get_default_def)
  have js: "dict_get [(''status'', PStr ''failed''),
      (''error'', PStr ''FreeCAD command failed with return code 1: boom''),
      (''stdout'', PStr []), (''stderr'', PStr ''boom'')] ''status'' \<noteq> PStr ''success''"
    by (simp add: dict_get_def)
  show ?thesis
    using json_failure_fails_the_job[where u = "''u1''" and user_id = "Some ''u1''"
        and e = env_json_fails and seconds = 12 and out = "''done''" and err = "[]"
        and w = world_0 and gen = ?gen and i = 0
        and script_path = "''/app/storage/script_u1_box.py''"
        and other_pdf_env = "pdf_env env_json_fails"]
    by (simp only: e g p i je js json_boom Let_def option.case le_zero_eq simp_thms
        length_Cons list.size One_nat_def lessI) (insert p, simp add: e)
qed

text \<open>
  C10. A record of the progress channel keeps its error under every received event
  without the \<open>error\<close> key; \<open>publish_progress\<close> and \<open>publish_status\<close> leave the key out
  when their error argument is \<open>None\<close>; so when the messages of a later successful job of
  the same owner have been received, the record says \<open>finished\<close> and 100 and still holds
  the error of the earlier job. The store is one the manager can hold (\<open>reachable\<close>), and
  the messages of the job arrive in the order they were published.
\<close>

theorem stale_error_survives_success:
  "(pd u = Some r \<and> (\<forall>kvs. msg = Some (PDict kvs) \<longrightarrow> ''error'' \<notin> fst ` set kvs) \<longrightarrow>
      (\<exists>r'. on_message tpc msg received pd u = Some r' \<and> rec_error r' = rec_error r)) \<and>
   (connected w \<longrightarrow>
      ''error'' \<notin> fst ` set (payload (last (outbox (publish_progress u p s m None w)))) \<and>
      ''error'' \<notin> fst ` set (payload (last (outbox (publish_status u s m None w))))) \<and>
   (reachable pd \<and> pd u = Some r \<and> rec_error r \<noteq> PNone \<and> connected w \<and>
    u = (case user_id of None \<Rightarrow> uuid4 e | Some x \<Rightarrow> x) \<and>
    fst (outcome (fst (execute_freecad_script e script_path user_id w))) = PStr ''success'' \<longrightarrow>
      (\<exists>r'. deliver (drop (length (outbox w))
                       (outbox (snd (execute_freecad_script e script_path user_id w)))) pd u = Some r' \<and>
            rec_status r' = PStr ''finished'' \<and> rec_progress r' = PInt 100 \<and>
            rec_error r' = rec_error r))"
proof (intro conjI impI)
  assume "pd u = Some r \<and> (\<forall>kvs. msg = Some (PDict kvs) \<longrightarrow> ''error'' \<notin> fst ` set kvs)"
  then show "\<exists>r'. on_message tpc msg received pd u = Some r' \<and> rec_error r' = rec_error r"
    using on_message_keeps_error[of pd u r msg tpc received] by blast
next
  assume "connected w"
  then show "''error'' \<notin> fst ` set (payload (last (outbox (publish_progress u p s m None w))))"
    by (simp add: publish_progress_def)
next
  assume "connected w"
  then show "''error'' \<notin> fst ` set (payload (last (outbox (publish_status u s m None w))))"
    by (simp add: publish_status_def)
next
  assume h: "reachable pd \<and> pd u = Some r \<and> rec_error r \<noteq> PNone \<and> connected w \<and>
    u = (case user_id of None \<Rightarrow> uuid4 e | Some x \<Rightarrow> x) \<and>
    fst (outcome (fst (execute_freecad_script e script_path user_id w))) = PStr ''success''"
  then have re: "reachable pd" and pu: "pd u = Some r" and c: "connected w"
    and u: "u = (case user_id of None \<Rightarrow> uuid4 e | Some x \<Rightarrow> x)"
    and ok: "fst (outcome (fst (execute_freecad_script e script_path user_id w))) = PStr ''success''"
    by blast+
  have nos: "CHR ''/'' \<notin> set u" using re pu by (rule reachable_keys)
  from execute_success_outbox[OF ok] obtain w8 m1 m2 where
    q: "extends_quietly w w8" and
    o: "outbox (snd (execute_freecad_script e script_path user_id w)) =
          outbox (publish_status u ''finished'' m2 None (publish_progress u 100 ''finished'' m1 None w8))"
    unfolding u by blast
  show "\<exists>r'. deliver (drop (length (outbox w))
                       (outbox (snd (execute_freecad_script e script_path user_id w)))) pd u = Some r' \<and>
            rec_status r' = PStr ''finished'' \<and> rec_progress r' = PInt 100 \<and>
            rec_error r' = rec_error r"
    unfolding o using nos pu c q by (rule job_messages_received)
qed

theorem stale_error_survives_success_witness:
  "reachable pd_failed \<and> connected world_0 \<and>
   (\<exists>r. pd_failed ''u1'' = Some r \<and> rec_error r = PStr ''exit code 1'' \<and> rec_error r \<noteq> PNone) \<and>
   fst (outcome (fst (execute_freecad_script env_box ''/app/storage/script_u1_box.py''
                         (Some ''u1'') world_0))) = PStr ''success'' \<and>
   (\<exists>r'. on_message ''freecad/status/u1''
            (Some (PDict [(''user_id'', PStr ''u1''), (''status'', PStr ''queued'')])) 20
            pd_failed ''u1'' = Some r' \<and> rec_error r' = PStr ''exit code 1'') \<and>
   (\<exists>r'. deliver (drop (length (outbox world_0))
              (outbox (snd (execute_freecad_script env_box ''/app/storage/script_u1_box.py''
                              (Some ''u1'') world_0)))) pd_failed ''u1'' = Some r' \<and>
         rec_status r' = PStr ''finished'' \<and> rec_progress r' = PInt 100 \<and>
         rec_error r' = PStr ''exit code 1'')"
proof -
  let ?r = "\<lparr>rec_status = PStr ''failed'', rec_progress = PInt 0,
           rec_message = PStr ''FreeCAD command failed with exit code 1'',
           rec_updated_at = PStr (isoformat 12), rec_error = PStr ''exit code 1''\<rparr>"
  have re: "reachable pd_failed"
    unfolding pd_failed_def by (rule reachable.receive[OF reachable.start])
  have c: "connected world_0" by (simp add: world_0_def)
  have ok: "fst (outcome (fst (execute_freecad_script env_box ''/app/storage/script_u1_box.py''
                         (Some ''u1'') world_0))) = PStr ''success''"
    by (simp add: box_result outcome_def dict_get_def)
  have k: "\<forall>kvs. Some (PDict [(''user_id'', PStr ''u1''), (''status'', PStr ''queued'')]) =
             Some (PDict kvs) \<longrightarrow> ''error'' \<notin> fst ` set kvs"
    by auto
  show ?thesis
    using stale_error_survives_success[where pd = pd_failed and u = "''u1''" and r = ?r
        and msg = "Some (PDict [(''user_id'', PStr ''u1''), (''status'', PStr ''queued'')])"
        and tpc = "''freecad/status/u1''" and received = 20
        and w = world_0 and user_id = "Some ''u1''" and e = env_box
        and script_path = "''/app/storage/script_u1_box.py''"]
      re c ok k pd_failed_u1
    by simp
qed


end
